(* ===== verification/Hybrid_Prelude.thy ===== *)
theory Hybrid_Prelude
  imports Complex_Main "HOL-Library.Multiset"
begin

text \<open>
  Shared vocabulary of the development: how JavaScript values are represented,
  the list operations that several components use, and the lemma collections
  that carry the component proofs.

  \<^item> A JavaScript \<open>Number\<close> is a \<^typ>\<open>real\<close>: rounding of IEEE doubles is not
    modelled.  The value \<open>Infinity\<close>, which the source uses as the start of every
    minimum search, is \<open>None\<close> of \<^typ>\<open>real option\<close> (\<open>lt_inf\<close>).
  \<^item> \<open>null\<close>, \<open>undefined\<close> and \<open>NaN\<close> are \<open>None\<close> of an option type at the
    places where the source tests for them; a thrown \<open>TypeError\<close> is \<open>Inl TypeError\<close>
    of a sum type.
  \<^item> \<open>Number.prototype.toFixed\<close> and \<open>Math.round\<close> are the rounding functions
    \<open>toFixed\<close> and \<open>js_round\<close>; the decimal string that \<open>toFixed\<close> returns is
    represented by the number it denotes.
  \<^item> An array \<open>[lat, lng]\<close> is a pair (\<open>latlng\<close>).
\<close>

section \<open>Lemma collections\<close>

named_theorems trip_defs "unfolding rules of the straight-line definitions"
named_theorems geo_simps "simplification rules for great-circle distances"
named_theorems leg_simps "simplification rules for sums of route legs"

section \<open>JavaScript values\<close>

type_synonym latlng = "real \<times> real"

type_synonym timestamp = string

datatype js_error = TypeError

text \<open>\<open>d < minDist\<close> where \<open>minDist\<close> starts as \<open>Infinity\<close>.\<close>

fun lt_inf :: "real \<Rightarrow> real option \<Rightarrow> bool" where
  "lt_inf d None = True"
| "lt_inf d (Some m) = (d < m)"

text \<open>
  \<open>x.toFixed(f)\<close>: the decimal with \<open>f\<close> fraction digits nearest to \<open>x\<close>, the
  larger one when two are equally near.
\<close>

definition toFixed :: "nat \<Rightarrow> real \<Rightarrow> real" where
  "toFixed f x = of_int \<lfloor>x * 10 ^ f + 1 / 2\<rfloor> / 10 ^ f"

text \<open>\<open>Math.round(x)\<close>: the nearest integer, halves rounded up.\<close>

definition js_round :: "real \<Rightarrow> int" where
  "js_round x = \<lfloor>x + 1 / 2\<rfloor>"

section \<open>Length of a route\<close>

text \<open>
  The reference every distance loop of the source is compared with: the sum of
  the legs between consecutive points of a list, for a distance \<open>d\<close>.
\<close>

fun legs_sum :: "('p \<Rightarrow> 'p \<Rightarrow> real) \<Rightarrow> 'p list \<Rightarrow> real" where
  "legs_sum d [] = 0"
| "legs_sum d [p] = 0"
| "legs_sum d (p # q # ps) = d p q + legs_sum d (q # ps)"

section \<open>The first minimum of a list\<close>

text \<open>
  The reference for every minimum search of the source: a scan that keeps the
  least key seen and the element that had it, replacing both only on a
  strictly smaller key, so that the first element of least key wins.
\<close>

definition min_step :: "('a \<Rightarrow> real) \<Rightarrow> 'a \<Rightarrow> real option \<times> 'a option \<Rightarrow> real option \<times> 'a option" where
  "min_step f x st = (if lt_inf (f x) (fst st) then (Some (f x), Some x) else st)"

definition first_min :: "('a \<Rightarrow> real) \<Rightarrow> 'a list \<Rightarrow> real option \<times> 'a option" where
  "first_min f xs = fold (min_step f) xs (None, None)"

section \<open>Removing one element by index\<close>

text \<open>\<open>xs.filter((_, idx) => idx !== i)\<close>\<close>

definition filter_idx_neq :: "nat \<Rightarrow> 'a list \<Rightarrow> 'a list" where
  "filter_idx_neq i xs = map snd (filter (\<lambda>p. fst p \<noteq> i) (enumerate 0 xs))"

text \<open>\<open>xs.splice(i, 1)\<close>, the array that is left.\<close>

definition splice1 :: "nat \<Rightarrow> 'a list \<Rightarrow> 'a list" where
  "splice1 i xs = take i xs @ drop (Suc i) xs"

lemma splice1_Nil [simp]: "splice1 i [] = []"
  by (simp add: splice1_def)

lemma splice1_0 [simp]: "splice1 0 (x # xs) = xs"
  by (simp add: splice1_def)

lemma splice1_Suc [simp]: "splice1 (Suc i) (x # xs) = x # splice1 i xs"
  by (simp add: splice1_def)

lemma splice1_beyond: "length xs \<le> i \<Longrightarrow> splice1 i xs = xs"
  by (simp add: splice1_def)

lemma length_splice1: "i < length xs \<Longrightarrow> length (splice1 i xs) = length xs - 1"
  by (simp add: splice1_def)

lemma length_splice1_less [simp]: "i < length xs \<Longrightarrow> length (splice1 i xs) < length xs"
  by (simp add: length_splice1)

lemma mset_splice1: "i < length xs \<Longrightarrow> add_mset (xs ! i) (mset (splice1 i xs)) = mset xs"
proof (induction xs arbitrary: i)
  case Nil
  then show ?case by simp
next
  case (Cons x xs)
  then show ?case by (cases i) auto
qed

lemma set_splice1_subset: "set (splice1 i xs) \<subseteq> set xs"
  unfolding splice1_def by (auto dest: in_set_takeD in_set_dropD)

lemma set_splice1: "i < length xs \<Longrightarrow> insert (xs ! i) (set (splice1 i xs)) = set xs"
  using mset_splice1 [of i xs] by (metis set_mset_add_mset_insert set_mset_mset)

lemma nth_splice1:
  "j < length xs - 1 \<Longrightarrow> splice1 i xs ! j = (if j < i then xs ! j else xs ! Suc j)"
  by (auto simp: splice1_def nth_append min_def)

lemma map_splice1: "map f (splice1 i xs) = splice1 i (map f xs)"
  by (simp add: splice1_def take_map drop_map)

lemma filter_idx_neq_shift:
  "map snd (filter (\<lambda>p. fst p \<noteq> Suc i) (enumerate (Suc n) xs)) =
   map snd (filter (\<lambda>p. fst p \<noteq> i) (enumerate n xs))"
  by (induction xs arbitrary: n) auto

lemma filter_idx_neq_splice1: "filter_idx_neq i xs = splice1 i xs"
proof (induction xs arbitrary: i)
  case Nil
  then show ?case by (simp add: filter_idx_neq_def)
next
  case (Cons x xs)
  show ?case
  proof (cases i)
    case 0
    have "filter (\<lambda>p. fst p \<noteq> 0) (enumerate (Suc 0) xs) = enumerate (Suc 0) xs"
      by (rule filter_True) (auto simp: in_set_enumerate_eq)
    with 0 show ?thesis by (simp add: filter_idx_neq_def)
  next
    case (Suc j)
    with Cons.IH [of j] show ?thesis
      by (simp add: filter_idx_neq_def filter_idx_neq_shift)
  qed
qed

section \<open>Errors\<close>

lemma js_error_eq [simp]: "(e::js_error) = TypeError"
  by (cases e)

lemma not_Inl_js_error: "x \<noteq> Inl TypeError \<longleftrightarrow> (\<exists>y. x = Inr y)" for x :: "js_error + 'a"
  by (cases x) simp_all

section \<open>Folds\<close>

lemma fold_concat: "fold f (concat xss) = fold (fold f) xss"
  by (induction xss) simp_all

lemma fold_sim:
  assumes "R s a" and "\<And>x s a. x \<in> set xs \<Longrightarrow> R s a \<Longrightarrow> R (g x s) (h x a)"
  shows "R (fold g xs s) (fold h xs a)"
  using assms by (induction xs arbitrary: s a) simp_all

lemma fold_id [simp]: "fold (\<lambda>x s. s) xs s = s"
  by (induction xs) simp_all

lemma length_concat_map_upt:
  "(\<And>i. i < m \<Longrightarrow> length (g i) = c) \<Longrightarrow> length (concat (map g [0..<m])) = m * c"
  by (induction m) simp_all

lemma nth_concat_map_upt:
  assumes "\<And>i. i < m \<Longrightarrow> length (g i) = c" and "i < m" and "t < c"
  shows "concat (map g [0..<m]) ! (i * c + t) = g i ! t"
  using assms
proof (induction m)
  case 0
  then show ?case by simp
next
  case (Suc m)
  have len: "length (concat (map g [0..<m])) = m * c"
    using Suc.prems(1) by (intro length_concat_map_upt) simp
  show ?case
  proof (cases "i < m")
    case True
    then have "Suc i \<le> m" by simp
    then have "Suc i * c \<le> m * c" by (rule mult_le_mono1)
    with \<open>t < c\<close> have "i * c + t < m * c" by simp
    with Suc True len show ?thesis by (simp add: nth_append)
  next
    case False
    with Suc.prems have "i = m" by simp
    with len show ?thesis by (simp add: nth_append)
  qed
qed

lemma map_nth_upt_take: "k \<le> length xs \<Longrightarrow> map (\<lambda>i. f (xs ! i)) [0..<k] = map f (take k xs)"
  by (rule nth_equalityI) simp_all

lemma map_nth_upt_drop: "map (\<lambda>i. f (xs ! i)) [k..<length xs] = map f (drop k xs)"
  by (rule nth_equalityI) simp_all

lemma map_first_other:
  "map (\<lambda>i. if i = 0 then a else b) [0..<Suc k] = a # replicate k b"
proof -
  have "map (\<lambda>i. if i = 0 then a else b) [Suc 0..<Suc k] = replicate k b"
    by (rule nth_equalityI) (simp_all del: upt_Suc)
  then show ?thesis by (simp add: upt_conv_Cons del: upt_Suc)
qed

lemma upt_split: "a \<le> b \<Longrightarrow> b \<le> c \<Longrightarrow> [a..<c] = [a..<b] @ [b..<c]"
  using upt_add_eq_append [of a b "c - b"] by (simp del: upt_Suc)

lemma fold_upt_Suc: "fold f [0..<Suc n] s = f n (fold f [0..<n] s)"
  by simp

section \<open>The first minimum\<close>

lemma lt_inf_trans: "x < d \<Longrightarrow> lt_inf d m \<Longrightarrow> lt_inf x m"
  by (cases m) auto

lemma not_lt_inf_le: "\<not> lt_inf d m \<Longrightarrow> lt_inf x m \<Longrightarrow> x < d"
  by (cases m) auto

lemma min_step_less [simp]: "lt_inf (f x) m \<Longrightarrow> min_step f x (m, b) = (Some (f x), Some x)"
  and min_step_keep [simp]: "\<not> lt_inf (f x) m \<Longrightarrow> min_step f x (m, b) = (m, b)"
  by (simp_all add: min_step_def)

lemma min_step_Cons:
  "fold (min_step f) (x # xs) (m0, b0) =
     (if lt_inf (f x) m0 then fold (min_step f) xs (Some (f x), Some x)
      else fold (min_step f) xs (m0, b0))"
  by simp

lemma min_step_mono:
  "fold (min_step f) xs (m0, b0) = (m, b) \<Longrightarrow> lt_inf y m \<Longrightarrow> lt_inf y m0"
proof (induction xs arbitrary: m0 b0)
  case Nil
  then show ?case by simp
next
  case (Cons x xs)
  show ?case
  proof (cases "lt_inf (f x) m0")
    case True
    with Cons.prems(1) have "fold (min_step f) xs (Some (f x), Some x) = (m, b)" by simp
    from Cons.IH [OF this Cons.prems(2)] have "y < f x" by simp
    then show ?thesis using True by (rule lt_inf_trans)
  next
    case False
    with Cons.prems(1) have "fold (min_step f) xs (m0, b0) = (m, b)" by simp
    then show ?thesis using Cons.prems(2) by (rule Cons.IH)
  qed
qed

lemma min_step_lower:
  "fold (min_step f) xs (m0, b0) = (m, b) \<Longrightarrow> j < length xs \<Longrightarrow> \<not> lt_inf (f (xs ! j)) m"
proof (induction xs arbitrary: m0 b0 j)
  case Nil
  then show ?case by simp
next
  case (Cons x xs)
  obtain m1 b1 where step: "min_step f x (m0, b0) = (m1, b1)" and le: "\<not> lt_inf (f x) m1"
    by (cases "lt_inf (f x) m0") simp_all
  with Cons.prems(1) have rest: "fold (min_step f) xs (m1, b1) = (m, b)" by simp
  show ?case
  proof (cases j)
    case 0
    from min_step_mono [OF rest, of "f x"] le show ?thesis by (auto simp: 0)
  next
    case (Suc j')
    with Cons.prems(2) Cons.IH [OF rest, of j'] show ?thesis by simp
  qed
qed

lemma min_step_best_Some:
  "fold (min_step f) xs (m0, Some p) = (m, b) \<Longrightarrow> b \<noteq> None"
proof (induction xs arbitrary: m0 p)
  case Nil
  then show ?case by auto
next
  case (Cons x xs)
  then show ?case by (cases "lt_inf (f x) m0") auto
qed

lemma min_step_found:
  "fold (min_step f) xs (m0, b0) = (m, b) \<Longrightarrow>
   m = m0 \<and> b = b0 \<or>
   (\<exists>j < length xs. b = Some (xs ! j) \<and> m = Some (f (xs ! j)) \<and>
      lt_inf (f (xs ! j)) m0 \<and> (\<forall>k < j. f (xs ! j) < f (xs ! k)))"
proof (induction xs arbitrary: m0 b0)
  case Nil
  then show ?case by simp
next
  case (Cons x xs)
  show ?case
  proof (cases "lt_inf (f x) m0")
    case True
    with Cons.prems have "fold (min_step f) xs (Some (f x), Some x) = (m, b)" by simp
    from Cons.IH [OF this] show ?thesis
    proof (elim disjE exE conjE)
      assume "m = Some (f x)" "b = Some x"
      with True show ?thesis by (intro disjI2 exI [of _ 0]) simp
    next
      fix j assume "j < length xs" "b = Some (xs ! j)" "m = Some (f (xs ! j))"
        "lt_inf (f (xs ! j)) (Some (f x))" "\<forall>k < j. f (xs ! j) < f (xs ! k)"
      with True show ?thesis
        by (intro disjI2 exI [of _ "Suc j"]) (auto simp: nth_Cons lt_inf_trans split: nat.splits)
    qed
  next
    case False
    with Cons.prems have "fold (min_step f) xs (m0, b0) = (m, b)" by simp
    from Cons.IH [OF this] show ?thesis
    proof (elim disjE exE conjE)
      assume "m = m0" "b = b0"
      then show ?thesis by simp
    next
      fix j assume j: "j < length xs" "b = Some (xs ! j)" "m = Some (f (xs ! j))"
        "lt_inf (f (xs ! j)) m0" "\<forall>k < j. f (xs ! j) < f (xs ! k)"
      from False j(4) have "f (xs ! j) < f x" by (rule not_lt_inf_le)
      with j show ?thesis
        by (intro disjI2 exI [of _ "Suc j"]) (auto simp: nth_Cons split: nat.splits)
    qed
  qed
qed

lemma min_step_inv:
  assumes "fold (min_step f) xs (m0, b0) = (m, b)"
  shows "(\<forall>j < length xs. \<not> lt_inf (f (xs ! j)) m) \<and>
         (\<forall>y. lt_inf y m \<longrightarrow> lt_inf y m0) \<and>
         (m = m0 \<and> b = b0 \<or>
          (\<exists>j < length xs. b = Some (xs ! j) \<and> m = Some (f (xs ! j)) \<and>
             lt_inf (f (xs ! j)) m0 \<and> (\<forall>k < j. f (xs ! j) < f (xs ! k))))"
  using min_step_lower [OF assms] min_step_mono [OF assms] min_step_found [OF assms]
  by blast

lemma first_min_Nil [simp]: "first_min f [] = (None, None)"
  by (simp add: first_min_def)

lemma first_min_found:
  assumes "xs \<noteq> []"
  obtains j where "j < length xs" "first_min f xs = (Some (f (xs ! j)), Some (xs ! j))"
    "\<forall>k < length xs. f (xs ! j) \<le> f (xs ! k)" "\<forall>k < j. f (xs ! j) < f (xs ! k)"
proof -
  obtain m b where mb: "fold (min_step f) xs (None, None) = (m, b)"
    by (cases "fold (min_step f) xs (None, None)")
  from min_step_inv [OF mb]
  have A: "\<forall>j < length xs. \<not> lt_inf (f (xs ! j)) m"
    and C: "m = None \<and> b = None \<or>
          (\<exists>j < length xs. b = Some (xs ! j) \<and> m = Some (f (xs ! j)) \<and>
             (\<forall>k < j. f (xs ! j) < f (xs ! k)))"
    by simp_all
  from assms A have "\<not> lt_inf (f (xs ! 0)) m" by simp
  then have "m \<noteq> None" by (cases m) simp_all
  with C obtain j where j: "j < length xs" "b = Some (xs ! j)" "m = Some (f (xs ! j))"
    "\<forall>k < j. f (xs ! j) < f (xs ! k)"
    by auto
  from A j(3) have "\<forall>k < length xs. f (xs ! j) \<le> f (xs ! k)"
    by (simp add: not_less)
  with j mb that show thesis by (simp add: first_min_def)
qed

section \<open>Sums of legs\<close>

lemma legs_sum_Cons [leg_simps]:
  "legs_sum d (p # ps) = (case ps of [] \<Rightarrow> 0 | q # _ \<Rightarrow> d p q + legs_sum d ps)"
  by (cases ps) simp_all

lemma legs_sum_snoc [leg_simps]:
  "ps \<noteq> [] \<Longrightarrow> legs_sum d (ps @ [q]) = legs_sum d ps + d (last ps) q"
  by (induction d ps rule: legs_sum.induct) simp_all

lemma legs_sum_append:
  "ps \<noteq> [] \<Longrightarrow> qs \<noteq> [] \<Longrightarrow>
   legs_sum d (ps @ qs) = legs_sum d ps + d (last ps) (hd qs) + legs_sum d qs"
  by (induction d ps rule: legs_sum.induct) (auto simp: neq_Nil_conv)

lemma legs_sum_nonneg: "(\<And>p q. 0 \<le> d p q) \<Longrightarrow> 0 \<le> legs_sum d ps"
  by (induction d ps rule: legs_sum.induct) simp_all

lemma legs_sum_split:
  assumes "i < length ps"
  shows "legs_sum d ps = legs_sum d (take (Suc i) ps) + legs_sum d (drop i ps)"
proof (cases i)
  case 0
  with assms show ?thesis by (cases ps) simp_all
next
  case (Suc j)
  with assms have ne: "take i ps \<noteq> []" "drop i ps \<noteq> []" by auto
  from assms have t: "take (Suc i) ps = take i ps @ [ps ! i]"
    by (simp add: take_Suc_conv_app_nth)
  from assms have h: "hd (drop i ps) = ps ! i"
    by (simp add: hd_drop_conv_nth)
  have "legs_sum d ps = legs_sum d (take i ps) + d (last (take i ps)) (ps ! i) + legs_sum d (drop i ps)"
    using legs_sum_append [OF ne, of d] h by simp
  also have "\<dots> = legs_sum d (take (Suc i) ps) + legs_sum d (drop i ps)"
    using ne(1) by (simp add: t legs_sum_snoc)
  finally show ?thesis .
qed

lemma legs_sum_rev:
  assumes "\<And>p q. d q p = d p q"
  shows "legs_sum d (rev ps) = legs_sum d ps"
proof (induction ps)
  case Nil
  show ?case by simp
next
  case (Cons p ps)
  note IH = Cons.IH
  show ?case
  proof (cases ps)
    case Nil
    then show ?thesis by simp
  next
    case (Cons q qs)
    then have "rev ps \<noteq> []" by simp
    then have "legs_sum d (rev ps @ [p]) = legs_sum d (rev ps) + d (last (rev ps)) p"
      by (rule legs_sum_snoc)
    also have "last (rev ps) = q"
      using Cons by (simp add: last_rev)
    finally have "legs_sum d (rev (p # ps)) = legs_sum d ps + d q p"
      using IH by simp
    then show ?thesis using Cons assms [of p q] by simp
  qed
qed

lemma legs_sum_scale: "legs_sum (\<lambda>p q. d p q * c) ps = legs_sum d ps * (c::real)"
  by (induction d ps rule: legs_sum.induct) (simp_all add: distrib_right)

lemma legs_sum_scale_left: "legs_sum (\<lambda>p q. c * d p q) ps = (c::real) * legs_sum d ps"
  by (induction d ps rule: legs_sum.induct) (simp_all add: distrib_left)

lemma legs_sum_map: "legs_sum d (map f ps) = legs_sum (\<lambda>p q. d (f p) (f q)) ps"
  by (induction "\<lambda>p q. d (f p) (f q)" ps rule: legs_sum.induct) simp_all

text \<open>
  The \<open>forEach\<close> loops that carry a running total and the previous point are
  this fold; it computes the legs of the route that starts at the initial
  point.
\<close>

lemma fold_prev_legs:
  "fold (\<lambda>x (s, prev). (s + d prev (f x), f x)) xs (s0, p0) =
     (s0 + legs_sum d (p0 # map f xs), last (p0 # map f xs))"
  by (induction xs arbitrary: s0 p0) (simp_all add: add.assoc)

text \<open>
  The \<open>for\<close> loops that add the leg from point \<open>i - 1\<close> to point \<open>i\<close> for a
  range of indices compute the legs of that stretch of the list.
\<close>

lemma fold_idx_legs:
  assumes "a \<le> b" and "b < length ps"
  shows "fold (\<lambda>i s. s + d (ps ! (i - 1)) (ps ! i)) [Suc a..<Suc b] s0 =
         s0 + legs_sum d (drop a (take (Suc b) ps))"
  using assms
proof (induction b)
  case 0
  then show ?case by (cases ps) simp_all
next
  case (Suc b)
  show ?case
  proof (cases "a = Suc b")
    case True
    with Suc.prems have "drop a (take (Suc (Suc b)) ps) = [ps ! Suc b]"
      by (simp add: take_Suc_conv_app_nth)
    with True show ?thesis by simp
  next
    case False
    with Suc.prems have ab: "a \<le> b" "b < length ps" by simp_all
    from Suc.prems ab have t: "drop a (take (Suc (Suc b)) ps) = drop a (take (Suc b) ps) @ [ps ! Suc b]"
      by (simp add: take_Suc_conv_app_nth [of "Suc b"])
    from ab have ne: "drop a (take (Suc b) ps) \<noteq> []" by simp
    from ab have l: "last (drop a (take (Suc b) ps)) = ps ! b"
      by (simp add: last_drop take_Suc_conv_app_nth)
    from ab have u: "[Suc a..<Suc (Suc b)] = [Suc a..<Suc b] @ [Suc b]"
      by (intro upt_Suc_append) simp
    have "legs_sum d (drop a (take (Suc (Suc b)) ps)) =
        legs_sum d (drop a (take (Suc b) ps)) + d (ps ! b) (ps ! Suc b)"
      unfolding t using legs_sum_snoc [OF ne, of d] l by simp
    with Suc.IH [OF ab] show ?thesis
      by (simp only: u fold_append comp_apply fold_simps diff_Suc_1 add.assoc)
  qed
qed

section \<open>Rounding\<close>

lemma toFixed_0: "toFixed f 0 = 0"
  by (simp add: toFixed_def)

lemma toFixed_upper: "toFixed f x \<le> x + 1 / (2 * 10 ^ f)"
proof -
  have "of_int \<lfloor>x * 10 ^ f + 1 / 2\<rfloor> \<le> x * 10 ^ f + 1 / 2"
    by (rule of_int_floor_le)
  then have "of_int \<lfloor>x * 10 ^ f + 1 / 2\<rfloor> / 10 ^ f \<le> (x * 10 ^ f + 1 / 2) / 10 ^ f"
    by (simp add: divide_right_mono)
  then show ?thesis by (simp add: toFixed_def field_simps)
qed

lemma toFixed_lower: "x - 1 / (2 * 10 ^ f) < toFixed f x"
proof -
  have "x * 10 ^ f - 1 / 2 < of_int \<lfloor>x * 10 ^ f + 1 / 2\<rfloor>"
    by linarith
  then have "(x * 10 ^ f - 1 / 2) / 10 ^ f < of_int \<lfloor>x * 10 ^ f + 1 / 2\<rfloor> / 10 ^ f"
    by (rule divide_strict_right_mono) simp
  then show ?thesis by (simp add: toFixed_def field_simps)
qed

lemma toFixed_mono: "x \<le> y \<Longrightarrow> toFixed f x \<le> toFixed f y"
  by (simp add: toFixed_def divide_right_mono floor_mono)

lemma toFixed_of_int: "toFixed f (of_int n / 10 ^ f) = of_int n / 10 ^ f"
proof -
  have "\<lfloor>(of_int n :: real) + 1 / 2\<rfloor> = n" by linarith
  then show ?thesis by (simp add: toFixed_def)
qed

lemma toFixed_idem: "toFixed f (toFixed f x) = toFixed f x"
  unfolding toFixed_def [of f x] by (rule toFixed_of_int)

lemma js_round_of_int [simp]: "js_round (of_int n) = n"
  unfolding js_round_def by linarith

lemma js_round_nonneg: "0 \<le> x \<Longrightarrow> 0 \<le> js_round x"
  unfolding js_round_def by linarith

lemma lt_inf_Some_iff: "lt_inf d m \<longleftrightarrow> (\<forall>v. m = Some v \<longrightarrow> d < v)"
  by (cases m) auto

end
