(* ===== verification/Geodesy.thy ===== *)
theory Geodesy
  imports Hybrid_Prelude
begin

text \<open>
  Geodesy primitives: the great-circle distance of \<^verbatim>\<open>PathPlanning.jsx\<close>
  (\<open>toRad\<close>, \<open>haversineDistance\<close>, kilometres, \<open>miles\<close>) and of \<^verbatim>\<open>NewTrip.jsx\<close>
  (\<open>getDistance\<close>, miles).  Both are the same formula with two Earth radii.  The
  reference they are compared with is the textbook haversine formula
  \<open>central_angle = 2 * arcsin (sqrt hav)\<close>; the lemmas show that the argument of
  both square roots stays in \<open>[0, 1]\<close>, that the \<open>atan2\<close> form of the code equals
  the \<open>arcsin\<close> form, symmetry, bounds, and the closed form on a meridian that
  lets concrete routes be evaluated.
\<close>

section \<open>The functions of the source\<close>

text \<open>A point object \<open>{lat, lng}\<close>, such as the depot \<open>HQ\<close>.\<close>

record coord =
  lat :: real
  lng :: real

definition toRad :: "real \<Rightarrow> real" where
  "toRad x = (x * pi) / 180"

text \<open>\<open>Math.atan2(y, x)\<close> on finite arguments, as ECMAScript defines it.\<close>

definition atan2 :: "real \<Rightarrow> real \<Rightarrow> real" where
  "atan2 y x =
     (if 0 < x then arctan (y / x)
      else if x < 0 then (if 0 \<le> y then arctan (y / x) + pi else arctan (y / x) - pi)
      else if 0 < y then pi / 2
      else if y < 0 then - (pi / 2)
      else 0)"

definition haversineDistance :: "real \<Rightarrow> real \<Rightarrow> real \<Rightarrow> real \<Rightarrow> real" where
  "haversineDistance lat1 lon1 lat2 lon2 =
     (let R = 6371;
          dLat = toRad (lat2 - lat1);
          dLon = toRad (lon2 - lon1);
          a = sin (dLat / 2) * sin (dLat / 2) +
              cos (toRad lat1) *
                cos (toRad lat2) *
                sin (dLon / 2) *
                sin (dLon / 2);
          c = 2 * atan2 (sqrt a) (sqrt (1 - a))
      in R * c)"

definition miles :: "real \<Rightarrow> real" where
  "miles km = km * 0.621371"

definition getDistance :: "real \<Rightarrow> real \<Rightarrow> real \<Rightarrow> real \<Rightarrow> real" where
  "getDistance lat1 lon1 lat2 lon2 =
     (let R = 3958.8;
          dLat = toRad (lat2 - lat1);
          dLon = toRad (lon2 - lon1);
          a = sin (dLat / 2) * sin (dLat / 2) +
              cos (toRad lat1) * cos (toRad lat2) *
              sin (dLon / 2) * sin (dLon / 2);
          c = 2 * atan2 (sqrt a) (sqrt (1 - a))
      in R * c)"

text \<open>Both distances between two points given as objects or as arrays.\<close>

abbreviation miC :: "coord \<Rightarrow> coord \<Rightarrow> real" where
  "miC p q \<equiv> getDistance (lat p) (lng p) (lat q) (lng q)"

abbreviation kmC :: "coord \<Rightarrow> coord \<Rightarrow> real" where
  "kmC p q \<equiv> haversineDistance (lat p) (lng p) (lat q) (lng q)"

abbreviation km :: "latlng \<Rightarrow> latlng \<Rightarrow> real" where
  "km p q \<equiv> haversineDistance (fst p) (snd p) (fst q) (snd q)"

section \<open>The reference formula\<close>

definition hav :: "real \<Rightarrow> real \<Rightarrow> real \<Rightarrow> real \<Rightarrow> real" where
  "hav lat1 lon1 lat2 lon2 =
     (sin (toRad (lat2 - lat1) / 2))\<^sup>2 +
     cos (toRad lat1) * cos (toRad lat2) * (sin (toRad (lon2 - lon1) / 2))\<^sup>2"

definition central_angle :: "real \<Rightarrow> real \<Rightarrow> real \<Rightarrow> real \<Rightarrow> real" where
  "central_angle lat1 lon1 lat2 lon2 = 2 * arcsin (sqrt (hav lat1 lon1 lat2 lon2))"

text \<open>
  \<open>degNorth R d\<close> is the difference of latitude, in degrees, that spans the
  distance \<open>d\<close> on a sphere of radius \<open>R\<close>.  Routes whose points differ by such
  offsets on one meridian have legs of known length, which lets the planners be
  evaluated on concrete inputs.
\<close>

definition degNorth :: "real \<Rightarrow> real \<Rightarrow> real" where
  "degNorth R d = d * 180 / (R * pi)"

definition milesNorth :: "real \<Rightarrow> real" where
  "milesNorth = degNorth 3958.8"

definition kmNorth :: "real \<Rightarrow> real" where
  "kmNorth = degNorth 6371"

section \<open>Trigonometric facts\<close>

lemma coord_eta [simp]: "\<lparr>lat = lat (c::coord), lng = lng c\<rparr> = c"
  by (cases c) simp


lemma toRad_0 [simp]: "toRad 0 = 0"
  by (simp add: toRad_def)

lemma toRad_diff: "toRad (x - y) = toRad x - toRad y"
  by (simp add: toRad_def field_simps)

lemma toRad_minus: "toRad (- x) = - toRad x"
  by (simp add: toRad_def)

lemma toRad_abs: "toRad \<bar>x\<bar> = \<bar>toRad x\<bar>"
  by (simp add: toRad_def abs_mult)

lemma toRad_nonneg_iff [simp]: "0 \<le> toRad x \<longleftrightarrow> 0 \<le> x"
proof -
  have "\<not> pi \<le> 0" using pi_gt_zero by linarith
  then show ?thesis by (simp add: toRad_def zero_le_mult_iff)
qed

lemma toRad_le_pi_iff: "toRad x \<le> pi \<longleftrightarrow> x \<le> 180"
  by (simp add: toRad_def field_simps)

lemma sin2_le1: "(sin (x::real))\<^sup>2 \<le> 1"
  using sin_cos_squared_add [of x] zero_le_power2 [of "cos x"] by linarith

lemma abs_sin_abs: "\<bar>sin \<bar>x::real\<bar>\<bar> = \<bar>sin x\<bar>"
  by (cases "0 \<le> x") simp_all

lemma cos_half_sq: "(cos (z / 2))\<^sup>2 = (1 + cos (z::real)) / 2"
  using cos_double_cos [of "z / 2"] by simp

lemma sin_half_sq: "(sin (z / 2))\<^sup>2 = (1 - cos (z::real)) / 2"
  using cos_double_sin [of "z / 2"] by simp

lemma cos_prod_le: "cos (x::real) * cos y \<le> (cos ((y - x) / 2))\<^sup>2"
proof -
  have "cos x * cos y = (cos (y - x) + cos (y + x)) / 2"
    by (simp add: cos_diff cos_add)
  also have "\<dots> \<le> (cos (y - x) + 1) / 2" by simp
  also have "\<dots> = (cos ((y - x) / 2))\<^sup>2"
    by (simp add: cos_half_sq)
  finally show ?thesis .
qed

lemma cos_prod_ge: "- ((sin ((y - x) / 2))\<^sup>2) \<le> cos (x::real) * cos y"
proof -
  have "- ((sin ((y - x) / 2))\<^sup>2) = (cos (y - x) - 1) / 2"
    by (simp add: sin_half_sq field_simps)
  also have "\<dots> \<le> (cos (y - x) + cos (y + x)) / 2"
    using cos_ge_minus_one [of "y + x"] by simp
  also have "\<dots> = cos x * cos y"
    by (simp add: cos_diff cos_add)
  finally show ?thesis .
qed

section \<open>The haversine stays in the unit interval\<close>

lemma hav_ge0: "0 \<le> hav lat1 lon1 lat2 lon2"
proof -
  let ?p = "toRad (lat2 - lat1) / 2" and ?q = "toRad (lon2 - lon1) / 2"
  have "0 \<le> (sin ?p)\<^sup>2 * (1 - (sin ?q)\<^sup>2)"
    by (simp add: sin2_le1)
  also have "\<dots> = (sin ?p)\<^sup>2 + (- ((sin ?p)\<^sup>2)) * (sin ?q)\<^sup>2"
    by (simp add: algebra_simps)
  also have "\<dots> \<le> (sin ?p)\<^sup>2 + (cos (toRad lat1) * cos (toRad lat2)) * (sin ?q)\<^sup>2"
    using cos_prod_ge [of "toRad lat2" "toRad lat1"]
    by (intro add_left_mono mult_right_mono) (simp_all add: toRad_diff)
  finally show ?thesis by (simp add: hav_def)
qed

lemma hav_le1: "hav lat1 lon1 lat2 lon2 \<le> 1"
proof -
  let ?p = "toRad (lat2 - lat1) / 2" and ?q = "toRad (lon2 - lon1) / 2"
  have "hav lat1 lon1 lat2 lon2 \<le> (sin ?p)\<^sup>2 + (cos ?p)\<^sup>2 * (sin ?q)\<^sup>2"
    unfolding hav_def using cos_prod_le [of "toRad lat1" "toRad lat2"]
    by (intro add_left_mono mult_right_mono) (simp_all add: toRad_diff)
  also have "\<dots> \<le> (sin ?p)\<^sup>2 + (cos ?p)\<^sup>2 * 1"
    by (intro add_left_mono mult_left_mono) (simp_all add: sin2_le1)
  finally show ?thesis by simp
qed

lemma hav_sym: "hav lat2 lon2 lat1 lon1 = hav lat1 lon1 lat2 lon2"
  by (simp add: hav_def toRad_diff sin_half_sq cos_diff mult_ac)

lemma hav_self [simp]: "hav la lo la lo = 0"
  by (simp add: hav_def)

lemma hav_meridian: "hav lat1 lon lat2 lon = (sin (toRad (lat2 - lat1) / 2))\<^sup>2"
  by (simp add: hav_def)

section \<open>The code's formula equals the reference\<close>

lemma atan2_sqrt_arcsin:
  assumes "0 \<le> a" and "a \<le> 1"
  shows "atan2 (sqrt a) (sqrt (1 - a)) = arcsin (sqrt a)"
proof (cases "a = 1")
  case True
  then show ?thesis by (simp add: atan2_def)
next
  case False
  with assms have lt: "a < 1" by simp
  then have pos: "0 < sqrt (1 - a)" by simp
  from assms lt have "- 1 < sqrt a" and "sqrt a < 1"
    by (simp_all add: real_sqrt_lt_1_iff less_le_trans [of "- 1" 0])
  then have "arcsin (sqrt a) = arctan (sqrt a / sqrt (1 - (sqrt a)\<^sup>2))"
    by (rule arcsin_arctan)
  with assms pos show ?thesis by (simp add: atan2_def)
qed

lemma haversineDistance_central:
  "haversineDistance lat1 lon1 lat2 lon2 = 6371 * central_angle lat1 lon1 lat2 lon2"
proof -
  have "haversineDistance lat1 lon1 lat2 lon2 =
      6371 * (2 * atan2 (sqrt (hav lat1 lon1 lat2 lon2)) (sqrt (1 - hav lat1 lon1 lat2 lon2)))"
    by (simp add: haversineDistance_def hav_def Let_def power2_eq_square mult.assoc)
  then show ?thesis
    by (simp add: central_angle_def atan2_sqrt_arcsin hav_ge0 hav_le1)
qed

lemma getDistance_central:
  "getDistance lat1 lon1 lat2 lon2 = 3958.8 * central_angle lat1 lon1 lat2 lon2"
proof -
  have "getDistance lat1 lon1 lat2 lon2 =
      3958.8 * (2 * atan2 (sqrt (hav lat1 lon1 lat2 lon2)) (sqrt (1 - hav lat1 lon1 lat2 lon2)))"
    by (simp add: getDistance_def hav_def Let_def power2_eq_square mult.assoc)
  then show ?thesis
    by (simp add: central_angle_def atan2_sqrt_arcsin hav_ge0 hav_le1)
qed

lemmas distance_central = haversineDistance_central getDistance_central

section \<open>Properties of the central angle\<close>

lemma sqrt_hav_unit: "0 \<le> sqrt (hav lat1 lon1 lat2 lon2)" "sqrt (hav lat1 lon1 lat2 lon2) \<le> 1"
  by (simp_all add: hav_ge0 hav_le1)

lemma central_angle_nonneg: "0 \<le> central_angle lat1 lon1 lat2 lon2"
proof -
  have "arcsin 0 \<le> arcsin (sqrt (hav lat1 lon1 lat2 lon2))"
    by (rule arcsin_le_arcsin) (simp_all add: hav_ge0 hav_le1)
  then show ?thesis by (simp add: central_angle_def)
qed

lemma central_angle_le_pi: "central_angle lat1 lon1 lat2 lon2 \<le> pi"
  unfolding central_angle_def
  using arcsin_ubound [of "sqrt (hav lat1 lon1 lat2 lon2)"] sqrt_hav_unit [of lat1 lon1 lat2 lon2]
  by simp

lemma central_angle_sym: "central_angle lat2 lon2 lat1 lon1 = central_angle lat1 lon1 lat2 lon2"
  by (simp add: central_angle_def hav_sym)

lemma central_angle_self [simp]: "central_angle la lo la lo = 0"
  by (simp add: central_angle_def)

lemma central_angle_eq_0_iff:
  "central_angle lat1 lon1 lat2 lon2 = 0 \<longleftrightarrow> hav lat1 lon1 lat2 lon2 = 0"
proof -
  have "arcsin (sqrt (hav lat1 lon1 lat2 lon2)) = arcsin 0 \<longleftrightarrow> sqrt (hav lat1 lon1 lat2 lon2) = 0"
    using sqrt_hav_unit [of lat1 lon1 lat2 lon2] by (intro arcsin_eq_iff) simp_all
  then show ?thesis by (simp add: central_angle_def)
qed

lemma central_angle_meridian:
  assumes "\<bar>lat2 - lat1\<bar> \<le> 180"
  shows "central_angle lat1 lon lat2 lon = toRad \<bar>lat2 - lat1\<bar>"
proof -
  let ?h = "toRad \<bar>lat2 - lat1\<bar> / 2"
  from assms have range: "0 \<le> ?h" "?h \<le> pi / 2"
    using toRad_le_pi_iff [of "\<bar>lat2 - lat1\<bar>"] by simp_all
  have "sqrt (hav lat1 lon lat2 lon) = \<bar>sin (toRad (lat2 - lat1) / 2)\<bar>"
    by (simp add: hav_meridian)
  also have "\<dots> = \<bar>sin ?h\<bar>"
    using abs_sin_abs [of "toRad (lat2 - lat1) / 2"] by (simp add: toRad_abs)
  also have "\<dots> = sin ?h"
  proof -
    from range pi_ge_zero have "?h \<le> pi" by linarith
    with range(1) have "0 \<le> sin ?h" by (rule sin_ge_zero)
    then show ?thesis by simp
  qed
  finally have "arcsin (sqrt (hav lat1 lon lat2 lon)) = arcsin (sin ?h)"
    by simp
  also from range pi_ge_zero have "- (pi / 2) \<le> ?h" by linarith
  then have "arcsin (sin ?h) = ?h"
    using range(2) by (rule arcsin_sin)
  finally have "arcsin (sqrt (hav lat1 lon lat2 lon)) = ?h" .
  then show ?thesis by (simp add: central_angle_def)
qed

section \<open>Simplification rules for concrete routes\<close>

lemma central_angle_sin:
  assumes "hav la1 lo1 la2 lo2 = (sin x)\<^sup>2" and "0 \<le> x" and "x \<le> pi / 2"
  shows "central_angle la1 lo1 la2 lo2 = 2 * x"
proof -
  from assms(2,3) have "0 \<le> sin x" by (intro sin_ge_zero) simp_all
  then have "sqrt ((sin x)\<^sup>2) = sin x" by simp
  moreover from assms(2,3) have "arcsin (sin x) = x" by (intro arcsin_sin) simp_all
  ultimately show ?thesis by (simp add: central_angle_def assms(1))
qed

lemma toRad_45 [simp]: "toRad 45 = pi / 4"
  and toRad_90 [simp]: "toRad 90 = pi / 2"
  by (simp_all add: toRad_def)

lemma hav_0_45: "hav 0 0 45 45 = (sin (pi / 6))\<^sup>2"
proof -
  have "hav 0 0 45 45 = (sin ((pi / 4) / 2))\<^sup>2 * (1 + cos (pi / 4))"
    by (simp add: hav_def algebra_simps)
  also have "\<dots> = (1 - (cos (pi / 4))\<^sup>2) / 2"
    by (simp only: sin_half_sq) (simp add: power2_eq_square algebra_simps)
  also have "\<dots> = (sin (pi / 6))\<^sup>2"
    by (simp add: cos_45 sin_30 power2_eq_square)
  finally show ?thesis .
qed

lemma haversineDistance_meridian [geo_simps]:
  "\<bar>lat2 - lat1\<bar> \<le> 180 \<Longrightarrow> haversineDistance lat1 lon lat2 lon = 6371 * toRad \<bar>lat2 - lat1\<bar>"
  by (simp add: haversineDistance_central central_angle_meridian)

lemma getDistance_meridian [geo_simps]:
  "\<bar>lat2 - lat1\<bar> \<le> 180 \<Longrightarrow> getDistance lat1 lon lat2 lon = 3958.8 * toRad \<bar>lat2 - lat1\<bar>"
  by (simp add: getDistance_central central_angle_meridian)

lemma haversineDistance_nonneg [simp]: "0 \<le> haversineDistance lat1 lon1 lat2 lon2"
  by (simp add: haversineDistance_central central_angle_nonneg)

lemma getDistance_nonneg [simp]: "0 \<le> getDistance lat1 lon1 lat2 lon2"
  by (simp add: getDistance_central central_angle_nonneg)

lemma haversineDistance_same [simp]: "haversineDistance la lo la lo = 0"
  by (simp add: haversineDistance_central)

lemma getDistance_same [simp]: "getDistance la lo la lo = 0"
  by (simp add: getDistance_central)

lemma haversineDistance_commute: "haversineDistance lat2 lon2 lat1 lon1 = haversineDistance lat1 lon1 lat2 lon2"
  by (simp add: haversineDistance_central central_angle_sym)

lemma getDistance_commute: "getDistance lat2 lon2 lat1 lon1 = getDistance lat1 lon1 lat2 lon2"
  by (simp add: getDistance_central central_angle_sym)

section \<open>Points at a given distance on a meridian\<close>

lemma degNorth_0 [simp]: "degNorth R 0 = 0"
  by (simp add: degNorth_def)

lemma toRad_degNorth: "R \<noteq> 0 \<Longrightarrow> R * toRad (degNorth R d) = d"
  by (simp add: toRad_def degNorth_def)

lemma degNorth_abs: "0 < R \<Longrightarrow> \<bar>degNorth R d\<bar> = degNorth R \<bar>d\<bar>"
  by (simp add: degNorth_def abs_mult)

lemma degNorth_diff: "degNorth R a - degNorth R b = degNorth R (a - b)"
  by (simp add: degNorth_def diff_divide_distrib left_diff_distrib)

lemma degNorth_le_180:
  assumes "0 < R" and "\<bar>d\<bar> \<le> 2 * R"
  shows "\<bar>degNorth R d\<bar> \<le> 180"
proof -
  from assms(1) have p: "2 * R \<le> R * pi" using pi_ge_two by simp
  from assms(1) have "\<bar>degNorth R d\<bar> = \<bar>d\<bar> * 180 / (R * pi)"
    by (simp add: degNorth_def abs_mult)
  also have "\<dots> \<le> (2 * R) * 180 / (R * pi)"
    using assms by (intro divide_right_mono mult_right_mono) simp_all
  also have "\<dots> \<le> 180" using p assms(1) by (simp add: field_simps)
  finally show ?thesis .
qed

lemma central_angle_degNorth:
  assumes "0 < R" and "\<bar>d2 - d1\<bar> \<le> 2 * R"
  shows "R * central_angle (la + degNorth R d1) lo (la + degNorth R d2) lo = \<bar>d2 - d1\<bar>"
proof -
  have d: "la + degNorth R d2 - (la + degNorth R d1) = degNorth R (d2 - d1)"
    by (simp add: degNorth_diff)
  from assms have "\<bar>degNorth R (d2 - d1)\<bar> \<le> 180" by (rule degNorth_le_180)
  then have "central_angle (la + degNorth R d1) lo (la + degNorth R d2) lo =
      toRad \<bar>degNorth R (d2 - d1)\<bar>"
    using central_angle_meridian [of "la + degNorth R d2" "la + degNorth R d1" lo]
    by (simp only: d)
  with assms(1) show ?thesis by (simp add: degNorth_abs toRad_degNorth)
qed

lemma central_angle_degNorth0:
  assumes "0 < R" and "\<bar>d\<bar> \<le> 2 * R"
  shows "R * central_angle la lo (la + degNorth R d) lo = \<bar>d\<bar>"
    and "R * central_angle (la + degNorth R d) lo la lo = \<bar>d\<bar>"
  using assms central_angle_degNorth [of R d 0 la lo] central_angle_degNorth [of R 0 d la lo]
  by simp_all

lemma getDistance_milesNorth [geo_simps]:
  "\<bar>m2 - m1\<bar> \<le> 7000 \<Longrightarrow>
   getDistance (la + milesNorth m1) lo (la + milesNorth m2) lo = \<bar>m2 - m1\<bar>"
  using central_angle_degNorth [of "3958.8" m2 m1 la lo]
  by (simp add: getDistance_central milesNorth_def)

lemma getDistance_milesNorth0 [geo_simps]:
  assumes "\<bar>m\<bar> \<le> 7000"
  shows "getDistance la lo (la + milesNorth m) lo = \<bar>m\<bar>"
    and "getDistance (la + milesNorth m) lo la lo = \<bar>m\<bar>"
  using assms central_angle_degNorth0 [of "3958.8" m la lo]
  by (simp_all add: getDistance_central milesNorth_def)

lemma kmNorth_mult: "kmNorth a * fr = kmNorth (a * fr)"
  and kmNorth_diff: "kmNorth a - kmNorth b = kmNorth (a - b)"
  and kmNorth_add: "kmNorth a + kmNorth b = kmNorth (a + b)"
  and kmNorth_add2: "la + kmNorth a + kmNorth b = la + kmNorth (a + b)"
  by (simp_all add: kmNorth_def degNorth_def field_simps)

lemma kmNorth_le_180: "\<bar>k\<bar> \<le> 12000 \<Longrightarrow> \<bar>kmNorth k\<bar> \<le> 180"
  unfolding kmNorth_def by (rule degNorth_le_180) simp_all

lemmas kmNorth_arith = kmNorth_mult kmNorth_diff kmNorth_add kmNorth_add2

text \<open>
  Three distances between points that are not on one meridian: the diagonal
  from \<open>(0, 0)\<close> to \<open>(90, 90)\<close> and its two halves through \<open>(45, 45)\<close>.
\<close>

lemma haversineDistance_0_45: "haversineDistance 0 0 45 45 = 6371 * (pi / 3)"
  using central_angle_sin [OF hav_0_45] by (simp add: haversineDistance_central)

lemma haversineDistance_45_90: "haversineDistance 45 45 90 90 = 6371 * (pi / 4)"
  using central_angle_sin [of 45 45 90 90 "pi / 8"]
  by (simp add: haversineDistance_central hav_def)

lemma haversineDistance_0_90: "haversineDistance 0 0 90 90 = 6371 * (pi / 2)"
  using central_angle_sin [of 0 0 90 90 "pi / 4"]
  by (simp add: haversineDistance_central hav_def)

lemmas diagonal_simps = haversineDistance_0_45 haversineDistance_45_90 haversineDistance_0_90

lemma haversineDistance_kmNorth [geo_simps]:
  "\<bar>k2 - k1\<bar> \<le> 12000 \<Longrightarrow>
   haversineDistance (la + kmNorth k1) lo (la + kmNorth k2) lo = \<bar>k2 - k1\<bar>"
  using central_angle_degNorth [of "6371" k2 k1 la lo]
  by (simp add: haversineDistance_central kmNorth_def)

lemma haversineDistance_kmNorth0 [geo_simps]:
  assumes "\<bar>k\<bar> \<le> 12000"
  shows "haversineDistance la lo (la + kmNorth k) lo = \<bar>k\<bar>"
    and "haversineDistance (la + kmNorth k) lo la lo = \<bar>k\<bar>"
  using assms central_angle_degNorth0 [of "6371" k la lo]
  by (simp_all add: haversineDistance_central kmNorth_def)

section \<open>Properties of the distance functions\<close>

text \<open>
  C19: For all coordinates the \<open>atan2\<close> formula of \<open>haversineDistance\<close> equals the
  textbook haversine formula, the Earth radius 6371 times \<open>2 * arcsin (sqrt h)\<close>,
  and the haversine \<open>h\<close>, from which both square roots of the code are taken,
  lies in the unit interval, so neither square root is taken of a negative
  number.
\<close>

theorem haversineDistance_reference:
  "haversineDistance lat1 lon1 lat2 lon2 = 6371 * (2 * arcsin (sqrt (hav lat1 lon1 lat2 lon2))) \<and>
   0 \<le> hav lat1 lon1 lat2 lon2 \<and> hav lat1 lon1 lat2 lon2 \<le> 1"
  by (simp add: haversineDistance_central central_angle_def hav_ge0 hav_le1)

text \<open>
  Both distance functions are symmetric in their two points and give zero
  for a point and itself.
\<close>

theorem distance_symmetric:
  "haversineDistance lat2 lon2 lat1 lon1 = haversineDistance lat1 lon1 lat2 lon2 \<and>
   getDistance lat2 lon2 lat1 lon1 = getDistance lat1 lon1 lat2 lon2 \<and>
   haversineDistance lat1 lon1 lat1 lon1 = 0 \<and> getDistance lat1 lon1 lat1 lon1 = 0"
  by (simp add: distance_central central_angle_sym)

text \<open>
  A distance is never negative and never more than half the circumference of
  the sphere: \<open>6371 * pi\<close> kilometres, \<open>3958.8 * pi\<close> miles.
\<close>

theorem distance_range:
  "0 \<le> haversineDistance lat1 lon1 lat2 lon2 \<and> haversineDistance lat1 lon1 lat2 lon2 \<le> 6371 * pi \<and>
   0 \<le> getDistance lat1 lon1 lat2 lon2 \<and> getDistance lat1 lon1 lat2 lon2 \<le> 3958.8 * pi"
  by (simp add: distance_central central_angle_nonneg central_angle_le_pi)

text \<open>
  Two points on one meridian whose latitudes differ by at most 180 degrees
  are as far apart as the arc between them: the radius times the difference of
  latitude in radians.
\<close>

theorem haversineDistance_on_meridian:
  "\<bar>lat2 - lat1\<bar> \<le> 180 \<Longrightarrow>
   haversineDistance lat1 lon lat2 lon = 6371 * (\<bar>lat2 - lat1\<bar> * pi / 180)"
  by (simp add: haversineDistance_meridian toRad_def)

theorem haversineDistance_on_meridian_witness:
  "\<bar>90 - (0::real)\<bar> \<le> 180 \<and> haversineDistance 0 0 90 0 = 6371 * (pi / 2)"
  using haversineDistance_on_meridian [of 90 0 0] by simp

text \<open>
  The distance is zero between distinct coordinates too: two points at the
  north pole with different longitudes, and two points on the equator whose
  longitudes differ by a full turn.  Zero distance does not identify a
  coordinate pair.
\<close>

theorem haversineDistance_zero_distinct:
  "haversineDistance 90 0 90 10 = 0 \<and> haversineDistance 0 0 0 360 = 0"
proof -
  have "hav 90 0 90 10 = 0" "hav 0 0 0 360 = 0"
    by (simp_all add: hav_def toRad_def)
  then show ?thesis
    by (simp add: haversineDistance_central central_angle_eq_0_iff)
qed

text \<open>
  The mile distance of \<open>getDistance\<close> is the kilometre distance of
  \<open>haversineDistance\<close> scaled by the ratio of the two radii, and the conversion
  \<open>miles\<close> agrees with that ratio only where the distance is zero.
\<close>

theorem getDistance_haversineDistance:
  "getDistance lat1 lon1 lat2 lon2 = 3958.8 / 6371 * haversineDistance lat1 lon1 lat2 lon2 \<and>
   (miles (haversineDistance lat1 lon1 lat2 lon2) = getDistance lat1 lon1 lat2 lon2
      \<longleftrightarrow> haversineDistance lat1 lon1 lat2 lon2 = 0)"
  by (simp add: distance_central miles_def)

end
