(* ===== verification/Eligibility.thy ===== *)
theory Eligibility
  imports Geodesy
begin

text \<open>
  The request data and the drone eligibility filter of \<open>optimizeTrip\<close> in
  \<^verbatim>\<open>NewTrip.jsx\<close>: a delivery is \<open>{weight, latitude, longitude}\<close>, a drone of the
  fleet snapshot is \<open>{droneId, payload, currentBattery, available}\<close>, both with
  their numeric fields already converted by \<open>Number\<close>.  \<open>availableDrones\<close> is the
  \<open>drones.filter(...)\<close> of the loop body and \<open>pickDrone\<close> its element \<open>[0]\<close>, with
  the \<open>continue\<close> of an empty result as \<open>None\<close>.  The lemmas characterise the
  filter (soundness, completeness, order) and the choice (first eligible drone
  in fleet order; none exactly when no drone qualifies).
\<close>

section \<open>Data\<close>

record delivery =
  weight :: real
  latitude :: real
  longitude :: real

record drone =
  droneId :: string
  payload :: real
  currentBattery :: real
  available :: bool

text \<open>
  The position of a delivery as the object \<open>{lat: Number(del.latitude), lng:
  Number(del.longitude)}\<close> and as the array \<open>[lat, lng]\<close>.
\<close>

definition toCoord :: "delivery \<Rightarrow> coord" where
  "toCoord del = \<lparr>lat = latitude del, lng = longitude del\<rparr>"

definition pos :: "delivery \<Rightarrow> latlng" where
  "pos del = (latitude del, longitude del)"

section \<open>The filter\<close>

definition eligible :: "delivery \<Rightarrow> drone \<Rightarrow> bool" where
  "eligible droneDelivery d \<longleftrightarrow>
     available d \<and>
     payload d \<ge> weight droneDelivery \<and>
     currentBattery d \<ge> 20"

definition availableDrones :: "drone list \<Rightarrow> delivery \<Rightarrow> drone list" where
  "availableDrones drones droneDelivery = filter (eligible droneDelivery) drones"

definition pickDrone :: "drone list \<Rightarrow> delivery \<Rightarrow> drone option" where
  "pickDrone drones droneDelivery =
     (case availableDrones drones droneDelivery of
        [] \<Rightarrow> None
      | d # _ \<Rightarrow> Some d)"

section \<open>Example data\<close>

text \<open>A fit drone and a drone whose battery is below the threshold.\<close>

definition exDrone :: drone where
  "exDrone = \<lparr>droneId = ''DR-1'', payload = 10, currentBattery = 50, available = True\<rparr>"

definition exWeak :: drone where
  "exWeak = \<lparr>droneId = ''DR-2'', payload = 10, currentBattery = 15, available = True\<rparr>"

section \<open>Positions\<close>

lemma toCoord_sel [simp]: "lat (toCoord del) = latitude del" "lng (toCoord del) = longitude del"
  by (simp_all add: toCoord_def)

lemma pos_sel [simp]: "fst (pos del) = latitude del" "snd (pos del) = longitude del"
  by (simp_all add: pos_def)

section \<open>Characterisation\<close>

lemma set_availableDrones:
  "set (availableDrones drones del) = {d \<in> set drones. eligible del d}"
  by (simp add: availableDrones_def)

lemma availableDrones_Nil_iff:
  "availableDrones drones del = [] \<longleftrightarrow> (\<forall>d \<in> set drones. \<not> eligible del d)"
  by (simp add: availableDrones_def filter_empty_conv)

lemma availableDrones_sublist: "mset (availableDrones drones del) \<subseteq># mset drones"
  by (simp add: availableDrones_def)

lemma availableDrones_idem:
  "availableDrones (availableDrones drones del) del = availableDrones drones del"
  by (simp add: availableDrones_def)

lemma pickDrone_None_iff:
  "pickDrone drones del = None \<longleftrightarrow> (\<forall>d \<in> set drones. \<not> eligible del d)"
  by (simp add: pickDrone_def availableDrones_Nil_iff [symmetric] split: list.splits)

lemma pickDrone_find: "pickDrone drones del = find (eligible del) drones"
  by (induction drones) (simp_all add: pickDrone_def availableDrones_def)

lemma pickDrone_SomeD:
  assumes "pickDrone drones del = Some d"
  shows "d \<in> set drones" and "eligible del d"
  using assms by (auto simp: pickDrone_find find_Some_iff)

lemma pickDrone_first:
  assumes "pickDrone drones del = Some d"
  obtains i where "i < length drones" "drones ! i = d" "\<forall>j < i. \<not> eligible del (drones ! j)"
  using assms by (auto simp: pickDrone_find find_Some_iff)

lemma pickDrone_Cons:
  "pickDrone (d # drones) del = (if eligible del d then Some d else pickDrone drones del)"
  by (simp add: pickDrone_find)

lemma eligible_weight_mono:
  "eligible del d \<Longrightarrow> weight del' \<le> weight del \<Longrightarrow> eligible del' d"
  by (auto simp: eligible_def)

lemma low_battery_not_eligible: "currentBattery d < 20 \<Longrightarrow> \<not> eligible del d"
  by (simp add: eligible_def)

lemma unavailable_not_eligible: "\<not> available d \<Longrightarrow> \<not> eligible del d"
  by (simp add: eligible_def)

lemmas pickDrone_eval = pickDrone_def availableDrones_def eligible_def

lemma pickDrone_example [simp]:
  "weight del \<le> 10 \<Longrightarrow> pickDrone [exDrone] del = Some exDrone"
  "weight del \<le> 10 \<Longrightarrow> pickDrone [exWeak, exDrone] del = Some exDrone"
  "pickDrone [exWeak] del = None"
  by (simp_all add: pickDrone_eval exDrone_def exWeak_def)

section \<open>Properties of the filter\<close>

text \<open>
  C39: The drone chosen for a delivery is the first drone of the fleet, in fleet
  order, that is available, carries at least the weight of the delivery and
  has a battery of at least 20 percent; a drone is chosen exactly when such a
  drone exists.
\<close>

theorem pickDrone_first_eligible:
  "pickDrone drones del = Some d \<longleftrightarrow>
     (\<exists>i < length drones. drones ! i = d \<and>
        available d \<and> weight del \<le> payload d \<and> 20 \<le> currentBattery d \<and>
        (\<forall>j < i. \<not> (available (drones ! j) \<and> weight del \<le> payload (drones ! j) \<and>
                       20 \<le> currentBattery (drones ! j))))"
  by (auto simp: pickDrone_find find_Some_iff eligible_def)

theorem pickDrone_first_eligible_witness:
  "pickDrone [exWeak, exDrone] \<lparr>weight = 5, latitude = 0, longitude = 0\<rparr> = Some exDrone \<and>
   (\<exists>i < length [exWeak, exDrone]. [exWeak, exDrone] ! i = exDrone \<and> 20 \<le> currentBattery exDrone)"
proof -
  have p: "pickDrone [exWeak, exDrone] \<lparr>weight = 5, latitude = 0, longitude = 0\<rparr> = Some exDrone"
    by simp
  from p pickDrone_first_eligible [THEN iffD1, OF p] show ?thesis by blast
qed

end
