(* ===== verification/Optimizer.thy ===== *)
theory Optimizer
  imports Geodesy Eligibility
begin

text \<open>
  The assignment optimizer \<open>optimizeTrip\<close> of \<^verbatim>\<open>NewTrip.jsx\<close>.  For every
  delivery index \<open>i\<close> the loop body (\<open>optimizeTrip_step\<close>) picks the first
  eligible drone or skips the index, computes the figures of the plan that
  sends delivery \<open>i\<close> by drone (\<open>candidateTrip\<close>: the drone round trip, the
  truck round trip over the other deliveries in input order, the all-truck
  baseline, carbon and time) and keeps the plan when there is no best plan yet
  or its hybrid carbon is below the stored one.  The stored figures are the
  \<open>toFixed\<close> roundings, so the comparison of the loop is against a rounded
  value.  The clock read by \<open>new Date()\<close> is the parameter \<open>now\<close>, indexed by
  the iteration that reads it.  The record \<open>trip\<close> has the fields of the object
  that the loop builds and the fields \<open>hqLat\<close>, \<open>hqLng\<close> and \<open>mlPredictedDelivery\<close>
  that the plan page reads from a stored plan; the loop does not write them,
  so they are \<open>None\<close> in its plans.
\<close>

section \<open>Constants and data\<close>

definition HQ :: coord where
  "HQ = \<lparr>lat = 12.9716, lng = 77.5946\<rparr>"

definition TRUCK_EMISSION_PER_MILE :: real where
  "TRUCK_EMISSION_PER_MILE = 1.2"

definition DRONE_EMISSION_PER_MILE :: real where
  "DRONE_EMISSION_PER_MILE = 0.1"

record trip =
  drone :: drone
  droneDelivery :: delivery
  truckDeliveries :: "delivery list"
  droneDist :: real
  truckDist :: real
  carbonReduction :: "real option"
  totalTime :: real
  hybridCarbon :: real
  truckOnlyCarbon :: real
  truckOnlyTime :: real
  deliveries :: "delivery list"
  createdAt :: timestamp
  hqLat :: "real option"
  hqLng :: "real option"
  mlPredictedDelivery :: "delivery option"

section \<open>The distances of one candidate\<close>

definition truckLoop :: "delivery list \<Rightarrow> real \<times> coord" where
  "truckLoop tds =
     fold (\<lambda>del (truckDist, prev).
             (truckDist + getDistance (lat prev) (lng prev) (latitude del) (longitude del),
              \<lparr>lat = latitude del, lng = longitude del\<rparr>))
       tds (0, HQ)"

definition truckRoundTrip :: "delivery list \<Rightarrow> real" where
  "truckRoundTrip tds =
     (let (truckDist, prev) = truckLoop tds
      in if tds \<noteq> []
         then truckDist + getDistance (lat prev) (lng prev) (lat HQ) (lng HQ)
         else truckDist)"

text \<open>The callback \<open>(sum, del, idx) => ...\<close> of the \<open>reduce\<close> and the \<open>reduce\<close> itself.\<close>

definition truckOnlyStep :: "delivery list \<Rightarrow> real \<Rightarrow> delivery \<Rightarrow> nat \<Rightarrow> real" where
  "truckOnlyStep dels acc del idx =
     (let from = (if idx = 0 then HQ
                  else \<lparr>lat = latitude (dels ! (idx - 1)),
                        lng = longitude (dels ! (idx - 1))\<rparr>)
      in acc + getDistance (lat from) (lng from) (latitude del) (longitude del))"

definition truckOnlyRoute :: "delivery list \<Rightarrow> real" where
  "truckOnlyRoute dels =
     fold (\<lambda>(idx, del) sum. truckOnlyStep dels sum del idx) (enumerate 0 dels) 0
     + getDistance (latitude (dels ! (length dels - 1)))
         (longitude (dels ! (length dels - 1))) (lat HQ) (lng HQ)"

section \<open>The loop body and the loop\<close>

definition candidateTrip :: "timestamp \<Rightarrow> delivery list \<Rightarrow> nat \<Rightarrow> drone \<Rightarrow> real \<times> trip" where
  "candidateTrip now dels i dr =
     (let droneDelivery = dels ! i;
          truckDeliveries = filter_idx_neq i dels;
          droneDist = getDistance (lat HQ) (lng HQ) (latitude droneDelivery) (longitude droneDelivery) * 2;
          truckDist = truckRoundTrip truckDeliveries;
          truckOnlyDist = truckOnlyRoute dels;
          truckOnlyCarbon = truckOnlyDist * TRUCK_EMISSION_PER_MILE;
          hybridCarbon = (truckDist * TRUCK_EMISSION_PER_MILE) + (droneDist * DRONE_EMISSION_PER_MILE);
          carbonReduction =
            (if truckOnlyCarbon = 0 then None
             else Some (((truckOnlyCarbon - hybridCarbon) / truckOnlyCarbon) * 100));
          truckTime = (truckDist / 30) * 60;
          droneTime = (droneDist / 40) * 60;
          totalTime = max truckTime droneTime
      in (hybridCarbon,
          \<lparr>drone = dr,
           droneDelivery = droneDelivery,
           truckDeliveries = truckDeliveries,
           droneDist = toFixed 2 droneDist,
           truckDist = toFixed 2 truckDist,
           carbonReduction = map_option (toFixed 1) carbonReduction,
           totalTime = toFixed 1 totalTime,
           hybridCarbon = toFixed 2 hybridCarbon,
           truckOnlyCarbon = toFixed 2 truckOnlyCarbon,
           truckOnlyTime = toFixed 1 (truckOnlyDist / 30 * 60),
           deliveries = dels,
           createdAt = now,
           hqLat = None,
           hqLng = None,
           mlPredictedDelivery = None\<rparr>))"

definition optimizeTrip_step ::
  "drone list \<Rightarrow> (nat \<Rightarrow> timestamp) \<Rightarrow> delivery list \<Rightarrow> nat \<Rightarrow> trip option \<Rightarrow> trip option" where
  "optimizeTrip_step drones now dels i best =
     (case pickDrone drones (dels ! i) of
        None \<Rightarrow> best
      | Some dr \<Rightarrow>
          let (hybridCarbon, t) = candidateTrip (now i) dels i dr
          in if (case best of None \<Rightarrow> True | Some b \<Rightarrow> hybridCarbon < trip.hybridCarbon b)
             then Some t
             else best)"

definition optimizeTrip :: "drone list \<Rightarrow> (nat \<Rightarrow> timestamp) \<Rightarrow> delivery list \<Rightarrow> trip option" where
  "optimizeTrip drones now dels =
     fold (optimizeTrip_step drones now dels) [0..<length dels] None"

section \<open>Reference values of a candidate\<close>

text \<open>
  The hybrid carbon of candidate \<open>i\<close> before rounding, and the plan as a
  function of the index alone: what the loop body computes when the index is
  feasible.
\<close>

definition rawCarbon :: "delivery list \<Rightarrow> nat \<Rightarrow> real" where
  "rawCarbon dels i =
     truckRoundTrip (filter_idx_neq i dels) * TRUCK_EMISSION_PER_MILE +
     getDistance (lat HQ) (lng HQ) (latitude (dels ! i)) (longitude (dels ! i)) * 2 *
       DRONE_EMISSION_PER_MILE"

definition feasible :: "drone list \<Rightarrow> delivery list \<Rightarrow> nat \<Rightarrow> bool" where
  "feasible drones dels i \<longleftrightarrow> i < length dels \<and> pickDrone drones (dels ! i) \<noteq> None"

definition opt_upto :: "drone list \<Rightarrow> (nat \<Rightarrow> timestamp) \<Rightarrow> delivery list \<Rightarrow> nat \<Rightarrow> trip option" where
  "opt_upto drones now dels n = fold (optimizeTrip_step drones now dels) [0..<n] None"

text \<open>
  The loop invariant after \<open>n\<close> iterations: no plan exactly when no index so far
  was feasible; otherwise the plan is the candidate of a feasible index whose
  rounded hybrid carbon is least among the feasible indices so far.
\<close>

definition opt_inv :: "drone list \<Rightarrow> (nat \<Rightarrow> timestamp) \<Rightarrow> delivery list \<Rightarrow> nat \<Rightarrow> trip option \<Rightarrow> bool" where
  "opt_inv drones now dels n best =
     (case best of
        None \<Rightarrow> \<forall>j < n. pickDrone drones (dels ! j) = None
      | Some t \<Rightarrow>
          \<exists>i < n. \<exists>dr. pickDrone drones (dels ! i) = Some dr \<and>
            t = snd (candidateTrip (now i) dels i dr) \<and>
            (\<forall>j < n. pickDrone drones (dels ! j) \<noteq> None \<longrightarrow>
               toFixed 2 (rawCarbon dels i) \<le> toFixed 2 (rawCarbon dels j)))"

section \<open>Example data\<close>

text \<open>
  Deliveries on the meridian of the depot, at the stated number of miles north
  of it.
\<close>

definition northOfHQ :: "real \<Rightarrow> real \<Rightarrow> delivery" where
  "northOfHQ w m = \<lparr>weight = w, latitude = 12.9716 + milesNorth m, longitude = 77.5946\<rparr>"

definition exAB :: "delivery list" where
  "exAB = [northOfHQ 5 1, northOfHQ 3 2]"

definition exPQ :: "delivery list" where
  "exPQ = [northOfHQ 1 0.3835, northOfHQ 1 0.383]"

text \<open>
  A request of four deliveries, and the same deliveries with the second one
  moved to the front.
\<close>

definition exEdit :: "delivery list" where
  "exEdit = [northOfHQ 1 1, northOfHQ 1 0.5, northOfHQ 1 1.5, northOfHQ 1 2]"

definition exEdited :: "delivery list" where
  "exEdited = [northOfHQ 1 0.5, northOfHQ 1 1, northOfHQ 1 1.5, northOfHQ 1 2]"

section \<open>The distance loops compute route lengths\<close>

lemma truckLoop_legs:
  "truckLoop tds = (legs_sum miC (HQ # map toCoord tds), last (HQ # map toCoord tds))"
  using fold_prev_legs [of miC toCoord tds 0 HQ]
  by (simp add: truckLoop_def toCoord_def)

lemma truckRoundTrip_legs: "truckRoundTrip tds = legs_sum miC (HQ # map toCoord tds @ [HQ])"
proof (cases "tds = []")
  case True
  then show ?thesis by (simp add: truckRoundTrip_def truckLoop_legs)
next
  case False
  then have "legs_sum miC ((HQ # map toCoord tds) @ [HQ]) =
      legs_sum miC (HQ # map toCoord tds) + miC (last (HQ # map toCoord tds)) HQ"
    by (intro legs_sum_snoc) simp
  with False show ?thesis by (simp add: truckRoundTrip_def truckLoop_legs)
qed

lemma truckOnlyStep_at:
  "truckOnlyStep (pre @ x # xs) acc x (length pre) =
     acc + miC (last (HQ # map toCoord pre)) (toCoord x)"
  by (cases pre rule: rev_cases) (simp_all add: truckOnlyStep_def nth_append)

lemma truckOnly_fold:
  "fold (\<lambda>(idx, del) sum. truckOnlyStep (pre @ xs) sum del idx) (enumerate (length pre) xs) s =
   s + legs_sum miC (last (HQ # map toCoord pre) # map toCoord xs)"
proof (induction xs arbitrary: pre s)
  case Nil
  show ?case by simp
next
  case (Cons x xs)
  from Cons.IH [of "pre @ [x]"] show ?case
    by (simp add: truckOnlyStep_at add.assoc)
qed

lemma truckOnlyRoute_legs:
  assumes "dels \<noteq> []"
  shows "truckOnlyRoute dels = legs_sum miC (HQ # map toCoord dels @ [HQ])"
proof -
  from assms have l: "dels ! (length dels - 1) = last dels"
    by (simp add: last_conv_nth)
  from assms have "legs_sum miC (HQ # map toCoord dels @ [HQ]) =
      legs_sum miC (HQ # map toCoord dels) + miC (toCoord (last dels)) HQ"
    using legs_sum_snoc [of "HQ # map toCoord dels" miC HQ] by (simp add: last_map)
  with truckOnly_fold [of "[]" dels 0] l show ?thesis
    by (simp add: truckOnlyRoute_def)
qed

lemma truckOnlyRoute_roundTrip: "dels \<noteq> [] \<Longrightarrow> truckOnlyRoute dels = truckRoundTrip dels"
  by (simp add: truckOnlyRoute_legs truckRoundTrip_legs)

lemma truckRoundTrip_nonneg: "0 \<le> truckRoundTrip tds"
  by (simp add: truckRoundTrip_legs legs_sum_nonneg)

section \<open>The fields of a candidate\<close>

lemma candidateTrip_fst [simp]: "fst (candidateTrip now dels i dr) = rawCarbon dels i"
  by (simp add: candidateTrip_def rawCarbon_def Let_def)

lemma candidateTrip_sel [simp]:
  "drone (snd (candidateTrip now dels i dr)) = dr"
  "droneDelivery (snd (candidateTrip now dels i dr)) = dels ! i"
  "truckDeliveries (snd (candidateTrip now dels i dr)) = splice1 i dels"
  "deliveries (snd (candidateTrip now dels i dr)) = dels"
  "createdAt (snd (candidateTrip now dels i dr)) = now"
  "hybridCarbon (snd (candidateTrip now dels i dr)) = toFixed 2 (rawCarbon dels i)"
  by (simp_all add: candidateTrip_def rawCarbon_def Let_def filter_idx_neq_splice1)

lemma candidateTrip_clock:
  "snd (candidateTrip now dels i dr)\<lparr>createdAt := c\<rparr> = snd (candidateTrip now' dels i dr)\<lparr>createdAt := c\<rparr>"
  by (simp add: candidateTrip_def Let_def)

lemma rawCarbon_nonneg: "0 \<le> rawCarbon dels i"
  by (simp add: rawCarbon_def truckRoundTrip_nonneg TRUCK_EMISSION_PER_MILE_def DRONE_EMISSION_PER_MILE_def)

section \<open>One iteration\<close>

lemma optimizeTrip_step_skip:
  "pickDrone drones (dels ! i) = None \<Longrightarrow> optimizeTrip_step drones now dels i best = best"
  by (simp add: optimizeTrip_step_def)

lemma optimizeTrip_step_first:
  "pickDrone drones (dels ! i) = Some dr \<Longrightarrow>
   optimizeTrip_step drones now dels i None = Some (snd (candidateTrip (now i) dels i dr))"
  by (simp add: optimizeTrip_step_def split_beta)

lemma optimizeTrip_step_Some:
  "pickDrone drones (dels ! i) = Some dr \<Longrightarrow>
   optimizeTrip_step drones now dels i (Some b) =
     (if rawCarbon dels i < hybridCarbon b then Some (snd (candidateTrip (now i) dels i dr))
      else Some b)"
  by (simp add: optimizeTrip_step_def split_beta)

lemmas optimizeTrip_step_simps =
  optimizeTrip_step_skip optimizeTrip_step_first optimizeTrip_step_Some

text \<open>The same equations without premises, for evaluation.\<close>

lemma optimizeTrip_step_eval:
  "optimizeTrip_step drones now dels i None =
     map_option (\<lambda>dr. snd (candidateTrip (now i) dels i dr)) (pickDrone drones (dels ! i))"
  "optimizeTrip_step drones now dels i (Some b) =
     (case pickDrone drones (dels ! i) of
        None \<Rightarrow> Some b
      | Some dr \<Rightarrow>
          if rawCarbon dels i < hybridCarbon b then Some (snd (candidateTrip (now i) dels i dr))
          else Some b)"
  by (simp_all add: optimizeTrip_step_def split_beta split: option.splits)

lemma opt_upto_0 [simp]: "opt_upto drones now dels 0 = None"
  by (simp add: opt_upto_def)

lemma opt_upto_Suc [simp]:
  "opt_upto drones now dels (Suc n) =
     optimizeTrip_step drones now dels n (opt_upto drones now dels n)"
  by (simp add: opt_upto_def)

lemma optimizeTrip_upto: "optimizeTrip drones now dels = opt_upto drones now dels (length dels)"
  by (simp add: optimizeTrip_def opt_upto_def)

section \<open>The loop invariant\<close>

lemma toFixed_below: "x < toFixed f y \<Longrightarrow> toFixed f x \<le> toFixed f y"
  using toFixed_mono [of x "toFixed f y" f] by (simp add: toFixed_idem)

lemma toFixed_not_below: "\<not> x < toFixed f y \<Longrightarrow> toFixed f y \<le> toFixed f x"
  using toFixed_mono [of "toFixed f y" x f] by (simp add: toFixed_idem)

lemma opt_inv_step:
  assumes "opt_inv drones now dels n best"
  shows "opt_inv drones now dels (Suc n) (optimizeTrip_step drones now dels n best)"
proof (cases "pickDrone drones (dels ! n)")
  case None
  with assms show ?thesis
    by (auto simp: opt_inv_def optimizeTrip_step_skip less_Suc_eq split: option.splits)
next
  case (Some dr)
  show ?thesis
  proof (cases best)
    case None
    with assms Some show ?thesis
      by (auto simp: opt_inv_def optimizeTrip_step_first less_Suc_eq)
  next
    case (Some b)
    with assms obtain i dr' where i: "i < n" "pickDrone drones (dels ! i) = Some dr'"
      and b: "b = snd (candidateTrip (now i) dels i dr')"
      and least: "\<forall>j < n. pickDrone drones (dels ! j) \<noteq> None \<longrightarrow>
            toFixed 2 (rawCarbon dels i) \<le> toFixed 2 (rawCarbon dels j)"
      by (auto simp: opt_inv_def)
    show ?thesis
    proof (cases "rawCarbon dels n < hybridCarbon b")
      case True
      then have "toFixed 2 (rawCarbon dels n) \<le> toFixed 2 (rawCarbon dels i)"
        by (simp add: b toFixed_below)
      with least have "\<forall>j < Suc n. pickDrone drones (dels ! j) \<noteq> None \<longrightarrow>
            toFixed 2 (rawCarbon dels n) \<le> toFixed 2 (rawCarbon dels j)"
        by (auto simp: less_Suc_eq intro: order_trans)
      with True Some \<open>pickDrone drones (dels ! n) = Some dr\<close> show ?thesis
        by (auto simp: opt_inv_def optimizeTrip_step_Some)
    next
      case False
      then have "toFixed 2 (rawCarbon dels i) \<le> toFixed 2 (rawCarbon dels n)"
        by (simp add: b toFixed_not_below)
      with least have "\<forall>j < Suc n. pickDrone drones (dels ! j) \<noteq> None \<longrightarrow>
            toFixed 2 (rawCarbon dels i) \<le> toFixed 2 (rawCarbon dels j)"
        by (auto simp: less_Suc_eq)
      with False Some i b \<open>pickDrone drones (dels ! n) = Some dr\<close> show ?thesis
        by (auto simp: opt_inv_def optimizeTrip_step_Some less_Suc_eq)
    qed
  qed
qed

lemma opt_inv_upto: "opt_inv drones now dels n (opt_upto drones now dels n)"
  by (induction n) (simp_all add: opt_inv_step, simp add: opt_inv_def)

lemma optimizeTrip_inv: "opt_inv drones now dels (length dels) (optimizeTrip drones now dels)"
  by (simp add: optimizeTrip_upto opt_inv_upto)

lemma optimizeTrip_SomeE:
  assumes "optimizeTrip drones now dels = Some t"
  obtains i dr where "i < length dels" "pickDrone drones (dels ! i) = Some dr"
    "t = snd (candidateTrip (now i) dels i dr)"
    "\<And>j. feasible drones dels j \<Longrightarrow> toFixed 2 (rawCarbon dels i) \<le> toFixed 2 (rawCarbon dels j)"
  using optimizeTrip_inv [of drones now dels] assms
  by (auto simp: opt_inv_def feasible_def)

lemma optimizeTrip_SomeD:
  assumes "optimizeTrip drones now dels = Some t"
  shows "\<exists>i dr. i < length dels \<and> pickDrone drones (dels ! i) = Some dr \<and>
           t = snd (candidateTrip (now i) dels i dr) \<and>
           (\<forall>j. feasible drones dels j \<longrightarrow>
              toFixed 2 (rawCarbon dels i) \<le> toFixed 2 (rawCarbon dels j))"
  using assms by (rule optimizeTrip_SomeE) blast

lemma optimizeTrip_plain:
  assumes "optimizeTrip drones now dels = Some t"
  shows "hqLat t = None" and "hqLng t = None" and "mlPredictedDelivery t = None"
  using optimizeTrip_SomeD [OF assms] by (auto simp: candidateTrip_def Let_def)

lemma optimizeTrip_None_feasible:
  "optimizeTrip drones now dels = None \<longleftrightarrow> (\<forall>j. \<not> feasible drones dels j)"
  using optimizeTrip_inv [of drones now dels]
  by (cases "optimizeTrip drones now dels") (auto simp: opt_inv_def feasible_def)

section \<open>The clock does not influence the choice\<close>

lemma createdAt_update_eqD:
  "(b::trip)\<lparr>createdAt := c\<rparr> = b'\<lparr>createdAt := c\<rparr> \<Longrightarrow> hybridCarbon b = hybridCarbon b'"
  by (cases b, cases b') simp

lemma optimizeTrip_step_clock:
  assumes "map_option (createdAt_update (\<lambda>_. c)) best = map_option (createdAt_update (\<lambda>_. c)) best'"
  shows "map_option (createdAt_update (\<lambda>_. c)) (optimizeTrip_step drones now dels i best) =
         map_option (createdAt_update (\<lambda>_. c)) (optimizeTrip_step drones now' dels i best')"
proof (cases best)
  case None
  with assms have "best' = None" by simp
  with None show ?thesis
    by (cases "pickDrone drones (dels ! i)")
      (simp_all add: optimizeTrip_step_eval candidateTrip_clock)
next
  case (Some b)
  with assms obtain b' where b': "best' = Some b'"
    and eq: "b\<lparr>createdAt := c\<rparr> = b'\<lparr>createdAt := c\<rparr>"
    by (cases best') auto
  from eq have "hybridCarbon b = hybridCarbon b'" by (rule createdAt_update_eqD)
  with Some b' eq show ?thesis
    by (cases "pickDrone drones (dels ! i)")
      (simp_all add: optimizeTrip_step_eval candidateTrip_clock)
qed

lemma opt_upto_clock:
  "map_option (createdAt_update (\<lambda>_. c)) (opt_upto drones now dels n) =
   map_option (createdAt_update (\<lambda>_. c)) (opt_upto drones now' dels n)"
  by (induction n) (simp_all add: optimizeTrip_step_clock)

section \<open>Evaluation on the example data\<close>

lemmas example_defs =
  northOfHQ_def exAB_def exPQ_def HQ_def
  TRUCK_EMISSION_PER_MILE_def DRONE_EMISSION_PER_MILE_def

lemmas rawCarbon_eval =
  rawCarbon_def truckRoundTrip_legs filter_idx_neq_splice1 toCoord_def

lemma weight_northOfHQ [simp]: "weight (northOfHQ w m) = w"
  by (simp add: northOfHQ_def)

lemma example_nth [simp]:
  "length exAB = 2" "exAB ! 0 = northOfHQ 5 1" "exAB ! Suc 0 = northOfHQ 3 2"
  "length exPQ = 2" "exPQ ! 0 = northOfHQ 1 0.3835" "exPQ ! Suc 0 = northOfHQ 1 0.383"
  by (simp_all add: exAB_def exPQ_def)

lemma rawCarbon_exAB [simp]: "rawCarbon exAB 0 = 5" "rawCarbon exAB (Suc 0) = 2.8"
  by (simp_all add: rawCarbon_eval example_defs geo_simps)

lemma rawCarbon_exPQ [simp]: "rawCarbon exPQ 0 = 0.9959" "rawCarbon exPQ (Suc 0) = 0.997"
  by (simp_all add: rawCarbon_eval example_defs geo_simps)

lemma optimizeTrip_exAB:
  "optimizeTrip [exDrone] now exAB = Some (snd (candidateTrip (now 1) exAB 1 exDrone))"
  by (simp add: optimizeTrip_upto numeral_2_eq_2 optimizeTrip_step_eval toFixed_def)


lemma optimizeTrip_single:
  "pickDrone drones d = Some dr \<Longrightarrow>
   optimizeTrip drones now [d] = Some (snd (candidateTrip (now 0) [d] 0 dr))"
  by (simp add: optimizeTrip_def optimizeTrip_step_first)

lemma exEdit_nth [simp]:
  "length exEdit = 4" "exEdit ! 0 = northOfHQ 1 1" "exEdit ! Suc 0 = northOfHQ 1 0.5"
  "exEdit ! Suc (Suc 0) = northOfHQ 1 1.5" "exEdit ! Suc (Suc (Suc 0)) = northOfHQ 1 2"
  "length exEdited = 4" "exEdited ! 0 = northOfHQ 1 0.5" "exEdited ! Suc 0 = northOfHQ 1 1"
  "exEdited ! Suc (Suc 0) = northOfHQ 1 1.5" "exEdited ! Suc (Suc (Suc 0)) = northOfHQ 1 2"
  by (simp_all add: exEdit_def exEdited_def)

lemma rawCarbon_exEdit [simp]:
  "rawCarbon exEdit 0 = 5" "rawCarbon exEdit (Suc 0) = 4.9"
  "rawCarbon exEdit (Suc (Suc 0)) = 6.3" "rawCarbon exEdit (Suc (Suc (Suc 0))) = 5.2"
  by (simp_all add: rawCarbon_eval northOfHQ_def exEdit_def HQ_def
      TRUCK_EMISSION_PER_MILE_def DRONE_EMISSION_PER_MILE_def splice1_def geo_simps)

lemma rawCarbon_exEdited [simp]:
  "rawCarbon exEdited 0 = 4.9" "rawCarbon exEdited (Suc 0) = 5"
  "rawCarbon exEdited (Suc (Suc 0)) = 5.1" "rawCarbon exEdited (Suc (Suc (Suc 0))) = 4"
  by (simp_all add: rawCarbon_eval northOfHQ_def exEdited_def HQ_def
      TRUCK_EMISSION_PER_MILE_def DRONE_EMISSION_PER_MILE_def splice1_def geo_simps)

lemma optimizeTrip_exEdit:
  "optimizeTrip [exDrone] now exEdit = Some (snd (candidateTrip (now 1) exEdit 1 exDrone))"
  by (simp add: optimizeTrip_upto eval_nat_numeral optimizeTrip_step_eval toFixed_def)

lemma optimizeTrip_exEdited:
  "optimizeTrip [exDrone] now exEdited = Some (snd (candidateTrip (now 3) exEdited 3 exDrone))"
  by (simp add: optimizeTrip_upto eval_nat_numeral optimizeTrip_step_eval toFixed_def)

section \<open>The parts of a plan\<close>

lemma optimizeTrip_parts:
  assumes "optimizeTrip drones now dels = Some t"
  shows "\<exists>i < length dels. droneDelivery t = dels ! i \<and> truckDeliveries t = splice1 i dels \<and>
           deliveries t = dels \<and> pickDrone drones (dels ! i) = Some (drone t)"
  using optimizeTrip_SomeD [OF assms] by auto

lemma optimizeTrip_mset:
  assumes "optimizeTrip drones now dels = Some t"
  shows "mset (droneDelivery t # truckDeliveries t) = mset dels"
  using optimizeTrip_parts [OF assms] by (auto simp: mset_splice1)

lemma optimizeTrip_length:
  assumes "optimizeTrip drones now dels = Some t"
  shows "Suc (length (truckDeliveries t)) = length dels"
  using optimizeTrip_mset [OF assms, THEN arg_cong, of size] by simp

section \<open>Properties of the optimizer\<close>

text \<open>
  C1: A plan returned by the optimizer sends exactly one delivery of the
  request by drone and the others by truck, in their input order: the drone
  delivery is the delivery at some index, the truck deliveries are the request
  with that index removed, so together they are the request as a multiset, and
  the plan records the request unchanged.
\<close>

theorem optimizeTrip_partition:
  assumes "optimizeTrip drones now dels = Some t"
  shows "(\<exists>i < length dels. droneDelivery t = dels ! i \<and>
            truckDeliveries t = take i dels @ drop (Suc i) dels) \<and>
         mset (droneDelivery t # truckDeliveries t) = mset dels \<and>
         deliveries t = dels"
proof -
  from optimizeTrip_SomeD [OF assms] obtain i dr where i: "i < length dels"
    and t: "t = snd (candidateTrip (now i) dels i dr)"
    by blast
  from i have "mset (dels ! i # splice1 i dels) = mset dels"
    by (simp add: mset_splice1)
  with i t show ?thesis by (auto simp: splice1_def)
qed

theorem optimizeTrip_partition_witness:
  "optimizeTrip [exDrone] (\<lambda>_. ''now'') exAB = Some (snd (candidateTrip ''now'' exAB 1 exDrone)) \<and>
   mset (droneDelivery (snd (candidateTrip ''now'' exAB 1 exDrone)) #
         truckDeliveries (snd (candidateTrip ''now'' exAB 1 exDrone))) = mset exAB"
  using optimizeTrip_partition [OF optimizeTrip_exAB [of "\<lambda>_. ''now''"]] optimizeTrip_exAB [of "\<lambda>_. ''now''"]
  by simp

text \<open>
  C2: The drone of a returned plan is a drone of the fleet that is available,
  whose payload is at least the weight of the drone delivery and whose battery
  is at least 20 percent, and it is the first such drone in fleet order.
\<close>

theorem optimizeTrip_drone_eligible:
  assumes "optimizeTrip drones now dels = Some t"
  shows "drone t \<in> set drones \<and> available (drone t) \<and>
         weight (droneDelivery t) \<le> payload (drone t) \<and> 20 \<le> currentBattery (drone t) \<and>
         pickDrone drones (droneDelivery t) = Some (drone t)"
proof -
  from optimizeTrip_SomeD [OF assms] obtain i dr
    where "pickDrone drones (dels ! i) = Some dr"
    and "t = snd (candidateTrip (now i) dels i dr)"
    by blast
  then show ?thesis
    by (auto dest: pickDrone_SomeD simp: eligible_def)
qed

theorem optimizeTrip_drone_eligible_witness:
  "optimizeTrip [exWeak, exDrone] (\<lambda>_. ''now'') exAB \<noteq> None \<and>
   map_option drone (optimizeTrip [exWeak, exDrone] (\<lambda>_. ''now'') exAB) = Some exDrone"
proof -
  have "feasible [exWeak, exDrone] exAB 0"
    by (simp add: feasible_def)
  then obtain t where t: "optimizeTrip [exWeak, exDrone] (\<lambda>_. ''now'') exAB = Some t"
    using optimizeTrip_None_feasible [of "[exWeak, exDrone]" "\<lambda>_. ''now''" exAB] by auto
  from optimizeTrip_drone_eligible [OF t] have "drone t = exDrone"
    by (auto simp: exWeak_def)
  with t show ?thesis by simp
qed

text \<open>
  C3: The optimizer returns no plan exactly when no drone of the fleet is
  eligible for any delivery of the request; in particular for an empty request
  and for a fleet whose batteries are all below 20 percent.
\<close>

theorem optimizeTrip_None_iff:
  "optimizeTrip drones now dels = None \<longleftrightarrow>
     (\<forall>del \<in> set dels. \<forall>d \<in> set drones.
        \<not> (available d \<and> weight del \<le> payload d \<and> 20 \<le> currentBattery d))"
proof -
  have "optimizeTrip drones now dels = None \<longleftrightarrow>
      (\<forall>j < length dels. \<forall>d \<in> set drones. \<not> eligible (dels ! j) d)"
    by (auto simp: optimizeTrip_None_feasible feasible_def pickDrone_None_iff)
  then show ?thesis
    by (simp add: all_set_conv_all_nth [of dels] eligible_def)
qed

theorem optimizeTrip_None_iff_witness:
  "optimizeTrip [exWeak] (\<lambda>_. ''now'') exAB = None \<and> currentBattery exWeak < 20"
  using optimizeTrip_None_iff [of "[exWeak]" "\<lambda>_. ''now''" exAB]
  by (simp add: exWeak_def)

text \<open>
  C4: The hybrid carbon stored in the returned plan is the least hybrid carbon
  of all feasible candidates after rounding to two decimals: no feasible
  candidate has a smaller rounded value.
\<close>

theorem optimizeTrip_least_rounded:
  assumes "optimizeTrip drones now dels = Some t"
    and "j < length dels" and "pickDrone drones (dels ! j) \<noteq> None"
  shows "hybridCarbon t \<le> toFixed 2 (rawCarbon dels j)"
proof -
  from optimizeTrip_SomeD [OF assms(1)] obtain i dr
    where "t = snd (candidateTrip (now i) dels i dr)"
    and "\<forall>j. feasible drones dels j \<longrightarrow>
           toFixed 2 (rawCarbon dels i) \<le> toFixed 2 (rawCarbon dels j)"
    by blast
  with assms(2,3) show ?thesis by (simp add: feasible_def)
qed

theorem optimizeTrip_least_rounded_witness:
  "optimizeTrip [exDrone] (\<lambda>_. ''now'') exAB = Some (snd (candidateTrip ''now'' exAB 1 exDrone)) \<and>
   hybridCarbon (snd (candidateTrip ''now'' exAB 1 exDrone)) \<le> toFixed 2 (rawCarbon exAB 0) \<and>
   toFixed 2 (rawCarbon exAB 0) = 5"
  using optimizeTrip_least_rounded [OF optimizeTrip_exAB [of "\<lambda>_. ''now''"], of 0]
    optimizeTrip_exAB [of "\<lambda>_. ''now''"]
  by (simp add: toFixed_def)


text \<open>
  The time of the clock does not influence the plan: two runs on the same
  fleet and request return plans that differ at most in \<open>createdAt\<close>.
\<close>

theorem optimizeTrip_clock_independent:
  "map_option (\<lambda>t. t\<lparr>createdAt := c\<rparr>) (optimizeTrip drones now dels) =
   map_option (\<lambda>t. t\<lparr>createdAt := c\<rparr>) (optimizeTrip drones now' dels)"
  by (simp add: optimizeTrip_upto opt_upto_clock)

text \<open>
  C21: The all-truck baseline distance computed by the \<open>reduce\<close> is the length
  of the round trip from the depot through all deliveries in input order and
  back, the same route length the \<open>forEach\<close> loop computes for the truck
  deliveries of a candidate.
\<close>

theorem truckOnlyRoute_is_roundTrip:
  "dels \<noteq> [] \<Longrightarrow>
   truckOnlyRoute dels = legs_sum miC (HQ # map toCoord dels @ [HQ]) \<and>
   truckOnlyRoute dels = truckRoundTrip dels"
  by (simp add: truckOnlyRoute_legs truckRoundTrip_legs)

theorem truckOnlyRoute_is_roundTrip_witness:
  "exAB \<noteq> [] \<and> truckOnlyRoute exAB = 4 \<and> truckRoundTrip exAB = 4"
  using truckOnlyRoute_is_roundTrip [of exAB]
  by (simp add: truckRoundTrip_legs example_defs toCoord_def geo_simps)

text \<open>
  C20: The figures of a returned plan are the roundings of the route lengths of
  the plan: the drone distance is twice the distance from the depot to the
  drone delivery, the truck distance the round trip through the truck
  deliveries, the baseline carbon 1.2 per mile of the round trip through all
  deliveries, and the hybrid carbon 1.2 per truck mile plus 0.1 per drone mile.
\<close>

theorem optimizeTrip_figures:
  assumes "optimizeTrip drones now dels = Some t"
  shows "droneDist t = toFixed 2 (2 * miC HQ (toCoord (droneDelivery t))) \<and>
         truckDist t = toFixed 2 (legs_sum miC (HQ # map toCoord (truckDeliveries t) @ [HQ])) \<and>
         truckOnlyCarbon t = toFixed 2 (1.2 * legs_sum miC (HQ # map toCoord dels @ [HQ])) \<and>
         hybridCarbon t =
           toFixed 2 (1.2 * legs_sum miC (HQ # map toCoord (truckDeliveries t) @ [HQ]) +
                      0.1 * (2 * miC HQ (toCoord (droneDelivery t))))"
proof -
  from optimizeTrip_SomeD [OF assms] obtain i dr where i: "i < length dels"
    and t: "t = snd (candidateTrip (now i) dels i dr)"
    by blast
  from i have "dels \<noteq> []" by auto
  with t show ?thesis
    by (simp add: candidateTrip_def Let_def truckOnlyRoute_legs truckRoundTrip_legs
        filter_idx_neq_splice1 TRUCK_EMISSION_PER_MILE_def DRONE_EMISSION_PER_MILE_def mult.commute)
qed

theorem optimizeTrip_figures_witness:
  "optimizeTrip [exDrone] (\<lambda>_. ''now'') exAB = Some (snd (candidateTrip ''now'' exAB 1 exDrone)) \<and>
   droneDist (snd (candidateTrip ''now'' exAB 1 exDrone)) = 4 \<and>
   truckDist (snd (candidateTrip ''now'' exAB 1 exDrone)) = 2 \<and>
   hybridCarbon (snd (candidateTrip ''now'' exAB 1 exDrone)) = 2.8"
  using optimizeTrip_figures [OF optimizeTrip_exAB [of "\<lambda>_. ''now''"]] optimizeTrip_exAB [of "\<lambda>_. ''now''"]
  by (simp add: example_defs toCoord_def geo_simps toFixed_def splice1_def)

end
