(* ===== verification/Sequencer.thy ===== *)
theory Sequencer
  imports Geodesy Eligibility
begin

text \<open>
  The truck route sequencer \<open>nearestNeighborRoute\<close> of \<^verbatim>\<open>PathPlanning.jsx\<close>.
  The inner \<open>for\<close> loop is \<open>scanNearest\<close>, a scan over the unvisited deliveries
  that carries the index and the pair \<open>(minIdx, minDist)\<close>, with \<open>Infinity\<close> as
  \<open>None\<close>; the outer \<open>while\<close> loop is \<open>nnLoop\<close>, which terminates because the
  scan returns an index of the list and \<open>splice\<close> then shortens it.  The
  specification is the relation \<open>nn_route\<close>: every stop is the first delivery,
  in list order, at least distance from the stop before it.  The lemmas show
  that the loop terminates, that the route starts at the depot and visits each
  delivery exactly once, and that it is the one route the specification allows.
\<close>

section \<open>The loops\<close>

abbreviation kmTo :: "coord \<Rightarrow> delivery \<Rightarrow> real" where
  "kmTo c u \<equiv> haversineDistance (lat c) (lng c) (latitude u) (longitude u)"

fun scanNearest :: "coord \<Rightarrow> delivery list \<Rightarrow> nat \<Rightarrow> nat \<times> real option \<Rightarrow> nat \<times> real option" where
  "scanNearest current [] i (minIdx, minDist) = (minIdx, minDist)"
| "scanNearest current (u # us) i (minIdx, minDist) =
     (let d = haversineDistance (lat current) (lng current) (latitude u) (longitude u)
      in scanNearest current us (Suc i)
           (if lt_inf d minDist then (i, Some d) else (minIdx, minDist)))"

definition nearestIdx :: "coord \<Rightarrow> delivery list \<Rightarrow> nat" where
  "nearestIdx current unvisited = fst (scanNearest current unvisited 0 (0, None))"

lemma scanNearest_range:
  "scanNearest current us i (minIdx, minDist) = (k, m) \<Longrightarrow>
   k = minIdx \<and> m = minDist \<or> i \<le> k \<and> k < i + length us"
proof (induction us arbitrary: i minIdx minDist)
  case Nil
  then show ?case by simp
next
  case (Cons u us)
  let ?d = "haversineDistance (lat current) (lng current) (latitude u) (longitude u)"
  show ?case
  proof (cases "lt_inf ?d minDist")
    case True
    with Cons.prems have "scanNearest current us (Suc i) (i, Some ?d) = (k, m)"
      by (simp add: Let_def)
    from Cons.IH [OF this] show ?thesis by auto
  next
    case False
    with Cons.prems have "scanNearest current us (Suc i) (minIdx, minDist) = (k, m)"
      by (simp add: Let_def)
    from Cons.IH [OF this] show ?thesis by auto
  qed
qed

lemma scanNearest_found:
  "us \<noteq> [] \<Longrightarrow> scanNearest current us i (minIdx, None) = (k, m) \<Longrightarrow> i \<le> k \<and> k < i + length us"
proof (cases us)
  case Nil
  assume "us \<noteq> []"
  with Nil show ?thesis by simp
next
  case (Cons u us')
  assume "scanNearest current us i (minIdx, None) = (k, m)"
  with Cons have "scanNearest current us' (Suc i)
      (i, Some (haversineDistance (lat current) (lng current) (latitude u) (longitude u))) = (k, m)"
    by (simp add: Let_def)
  from scanNearest_range [OF this] Cons show ?thesis by auto
qed

lemma nearestIdx_less: "unvisited \<noteq> [] \<Longrightarrow> nearestIdx current unvisited < length unvisited"
  using scanNearest_found [of unvisited current 0 0]
  by (cases "scanNearest current unvisited 0 (0, None)") (simp add: nearestIdx_def)

function nnLoop :: "coord \<Rightarrow> delivery list \<Rightarrow> latlng list \<Rightarrow> latlng list" where
  "nnLoop current unvisited route =
     (if length unvisited > 0
      then let minIdx = nearestIdx current unvisited;
               current' = \<lparr>lat = latitude (unvisited ! minIdx),
                            lng = longitude (unvisited ! minIdx)\<rparr>
           in nnLoop current' (splice1 minIdx unvisited) (route @ [(lat current', lng current')])
      else route)"
  by pat_completeness auto
termination
  by (relation "measure (\<lambda>(current, unvisited, route). length unvisited)")
    (auto simp: nearestIdx_less)

declare nnLoop.simps [simp del]

definition nearestNeighborRoute :: "coord \<Rightarrow> delivery list \<Rightarrow> latlng list" where
  "nearestNeighborRoute hq dels =
     nnLoop \<lparr>lat = lat hq, lng = lng hq\<rparr> dels [(lat hq, lng hq)]"

section \<open>Specification\<close>

text \<open>
  \<open>first_nearest c us i\<close>: the delivery at index \<open>i\<close> is at least distance from
  \<open>c\<close> among \<open>us\<close>, and strictly nearer than every delivery before it.
  \<open>nn_route c us rs\<close>: \<open>rs\<close> visits the deliveries \<open>us\<close> from \<open>c\<close>, each time
  moving to the first nearest delivery that is left.  \<open>greedy_chain p rs\<close>: every
  stop of \<open>rs\<close> is as near to its predecessor as any later stop.
\<close>

definition first_nearest :: "coord \<Rightarrow> delivery list \<Rightarrow> nat \<Rightarrow> bool" where
  "first_nearest c us i \<longleftrightarrow>
     i < length us \<and>
     (\<forall>j < length us. kmTo c (us ! i) \<le> kmTo c (us ! j)) \<and>
     (\<forall>j < i. kmTo c (us ! i) < kmTo c (us ! j))"

inductive nn_route :: "coord \<Rightarrow> delivery list \<Rightarrow> latlng list \<Rightarrow> bool" where
  nn_done: "nn_route c [] []"
| nn_step: "first_nearest c us i \<Longrightarrow> nn_route (toCoord (us ! i)) (splice1 i us) rs \<Longrightarrow>
     nn_route c us (pos (us ! i) # rs)"

fun greedy_chain :: "latlng \<Rightarrow> latlng list \<Rightarrow> bool" where
  "greedy_chain p [] = True"
| "greedy_chain p (r # rs) = ((\<forall>q \<in> set (r # rs). km p r \<le> km p q) \<and> greedy_chain r rs)"

inductive_cases nn_route_NilE [elim!]: "nn_route c [] rs"
inductive_cases nn_route_ConsE: "nn_route c (u # us) rs"

section \<open>Example data\<close>

definition depot :: coord where
  "depot = \<lparr>lat = 12.9716, lng = 77.5946\<rparr>"

definition kmNorthOfDepot :: "real \<Rightarrow> delivery" where
  "kmNorthOfDepot k = \<lparr>weight = 1, latitude = 12.9716 + kmNorth k, longitude = 77.5946\<rparr>"

section \<open>The scan finds the first nearest delivery\<close>

text \<open>
  The scan is the first-minimum scan of the prelude over the deliveries paired
  with their indices.
\<close>

lemma scanNearest_fold:
  assumes "case b of None \<Rightarrow> True | Some p \<Rightarrow> fst p = mi"
  shows "scanNearest c us i (mi, md) =
    (case fold (min_step (\<lambda>p. kmTo c (snd p))) (zip [i..<i + length us] us) (md, b) of
       (m, b') \<Rightarrow> (case b' of None \<Rightarrow> mi | Some p \<Rightarrow> fst p, m))"
  using assms
proof (induction us arbitrary: i mi md b)
  case Nil
  then show ?case by (auto split: option.splits)
next
  case (Cons u us)
  have "[i..<i + length (u # us)] = i # [Suc i..<Suc i + length us]"
    by (simp add: upt_conv_Cons del: upt_Suc)
  then have z: "zip [i..<i + length (u # us)] (u # us) = (i, u) # zip [Suc i..<Suc i + length us] us"
    by (simp only: zip_Cons_Cons)
  show ?case
  proof (cases "lt_inf (kmTo c u) md")
    case True
    obtain m b' where r: "fold (min_step (\<lambda>p. kmTo c (snd p)))
        (zip [Suc i..<Suc i + length us] us) (Some (kmTo c u), Some (i, u)) = (m, b')"
      by (cases "fold (min_step (\<lambda>p. kmTo c (snd p)))
        (zip [Suc i..<Suc i + length us] us) (Some (kmTo c u), Some (i, u))")
    from min_step_best_Some [OF r] obtain p where "b' = Some p" by auto
    with Cons.IH [where b = "Some (i, u)" and mi = i and i = "Suc i" and md = "Some (kmTo c u)"]
      r True
    show ?thesis unfolding z by (simp add: Let_def del: upt_Suc)
  next
    case False
    with Cons.IH [OF Cons.prems, where i = "Suc i" and md = md] show ?thesis
      unfolding z by (simp add: Let_def del: upt_Suc)
  qed
qed

lemma nearestIdx_first_nearest:
  assumes "us \<noteq> []"
  shows "first_nearest c us (nearestIdx c us)"
proof -
  let ?f = "\<lambda>p. kmTo c (snd p)"
  let ?xs = "zip [0..<length us] us"
  have nth: "?xs ! j = (j, us ! j)" if "j < length us" for j
    using that by simp
  from assms have "?xs \<noteq> []" by (cases us) (simp_all add: upt_conv_Cons)
  from first_min_found [OF this, of ?f] obtain j
    where j: "j < length ?xs" "first_min ?f ?xs = (Some (?f (?xs ! j)), Some (?xs ! j))"
      "\<forall>k < length ?xs. ?f (?xs ! j) \<le> ?f (?xs ! k)" "\<forall>k < j. ?f (?xs ! j) < ?f (?xs ! k)"
    by blast
  from j(1) have jl: "j < length us" by simp
  from scanNearest_fold [where b = None and mi = 0 and c = c and us = us and i = 0 and md = None]
    j(2) jl
  have "nearestIdx c us = j"
    by (simp add: nearestIdx_def first_min_def)
  moreover from j(3,4) jl have "\<forall>k < length us. kmTo c (us ! j) \<le> kmTo c (us ! k)"
    "\<forall>k < j. kmTo c (us ! j) < kmTo c (us ! k)"
    by (simp_all add: nth)
  ultimately show ?thesis using jl by (simp add: first_nearest_def)
qed

lemma first_nearest_unique: "first_nearest c us i \<Longrightarrow> first_nearest c us j \<Longrightarrow> i = j"
  unfolding first_nearest_def by (metis linorder_neqE_nat not_less)

lemma first_nearest_nearestIdx: "first_nearest c us i \<Longrightarrow> nearestIdx c us = i"
  using nearestIdx_first_nearest [of us c] first_nearest_unique [of c us]
  by (cases "us = []") (auto simp: first_nearest_def)

section \<open>The loop follows the specification\<close>

lemma nnLoop_Nil [simp]: "nnLoop c [] route = route"
  by (simp add: nnLoop.simps)

lemma nnLoop_step:
  "us \<noteq> [] \<Longrightarrow>
   nnLoop c us route =
     nnLoop (toCoord (us ! nearestIdx c us)) (splice1 (nearestIdx c us) us)
       (route @ [pos (us ! nearestIdx c us)])"
  by (subst nnLoop.simps) (simp add: Let_def toCoord_def pos_def)

lemma nnLoop_append: "nnLoop c us (r @ r') = r @ nnLoop c us r'"
proof (induction "length us" arbitrary: c us r')
  case 0
  then show ?case by simp
next
  case (Suc n)
  then have ne: "us \<noteq> []" by auto
  with Suc.hyps(2) have "n = length (splice1 (nearestIdx c us) us)"
    by (simp add: length_splice1 nearestIdx_less)
  from Suc.hyps(1) [OF this] ne show ?case
    by (simp add: nnLoop_step [of us c])
qed

lemma nnLoop_Cons:
  "us \<noteq> [] \<Longrightarrow>
   nnLoop c us [] =
     pos (us ! nearestIdx c us) #
     nnLoop (toCoord (us ! nearestIdx c us)) (splice1 (nearestIdx c us) us) []"
  using nnLoop_append [of _ _ "[pos (us ! nearestIdx c us)]" "[]"]
  by (simp add: nnLoop_step [of us c "[]"])

lemma nearestNeighborRoute_Cons:
  "nearestNeighborRoute hq dels = (lat hq, lng hq) # nnLoop hq dels []"
  using nnLoop_append [of hq dels "[(lat hq, lng hq)]" "[]"]
  by (simp add: nearestNeighborRoute_def)

lemma nnLoop_nn_route: "nn_route c us (nnLoop c us [])"
proof (induction "length us" arbitrary: c us)
  case 0
  then show ?case by (simp add: nn_done)
next
  case (Suc n)
  then have ne: "us \<noteq> []" by auto
  with Suc.hyps(2) have "n = length (splice1 (nearestIdx c us) us)"
    by (simp add: length_splice1 nearestIdx_less)
  then have "nn_route (toCoord (us ! nearestIdx c us)) (splice1 (nearestIdx c us) us)
      (nnLoop (toCoord (us ! nearestIdx c us)) (splice1 (nearestIdx c us) us) [])"
    by (rule Suc.hyps(1))
  with nearestIdx_first_nearest [OF ne, of c] show ?case
    by (simp add: nnLoop_Cons [OF ne] nn_step)
qed

lemma nn_route_unique: "nn_route c us rs \<Longrightarrow> rs = nnLoop c us []"
proof (induction rule: nn_route.induct)
  case (nn_done c)
  show ?case by simp
next
  case (nn_step c us i rs)
  from nn_step.hyps(1) have "us \<noteq> []" by (auto simp: first_nearest_def)
  with nn_step show ?case
    by (simp add: nnLoop_Cons first_nearest_nearestIdx)
qed

lemma nn_route_mset: "nn_route c us rs \<Longrightarrow> mset rs = mset (map pos us)"
proof (induction rule: nn_route.induct)
  case (nn_done c)
  show ?case by simp
next
  case (nn_step c us i rs)
  from nn_step.hyps(1) have "i < length us" by (simp add: first_nearest_def)
  then have "add_mset (pos (us ! i)) (mset (map pos (splice1 i us))) = mset (map pos us)"
    using mset_splice1 [of i "map pos us"] by (simp add: map_splice1)
  with nn_step.IH show ?case by simp
qed

lemma nn_route_greedy: "nn_route c us rs \<Longrightarrow> greedy_chain (lat c, lng c) rs"
proof (induction rule: nn_route.induct)
  case (nn_done c)
  show ?case by simp
next
  case (nn_step c us i rs)
  from nn_step.hyps(2) have "set rs = pos ` set (splice1 i us)"
    using nn_route_mset [of _ _ rs] by (metis mset_eq_setD set_map)
  with set_splice1_subset [of i us] have sub: "set rs \<subseteq> pos ` set us" by auto
  have "km (lat c, lng c) (pos (us ! i)) \<le> km (lat c, lng c) q" if "q \<in> set rs" for q
  proof -
    from that sub obtain u where "u \<in> set us" "q = pos u" by auto
    then obtain j where "j < length us" "q = pos (us ! j)"
      by (auto simp: in_set_conv_nth)
    with nn_step.hyps(1) show ?thesis by (simp add: first_nearest_def)
  qed
  with nn_step.IH show ?case by (simp add: pos_def)
qed

lemma greedy_chain_nth:
  "greedy_chain p rs \<Longrightarrow> Suc k < length (p # rs) \<Longrightarrow> k < j \<Longrightarrow> j < length (p # rs) \<Longrightarrow>
   km ((p # rs) ! k) ((p # rs) ! Suc k) \<le> km ((p # rs) ! k) ((p # rs) ! j)"
proof (induction p rs arbitrary: k j rule: greedy_chain.induct)
  case (1 p)
  then show ?case by simp
next
  case (2 p r rs)
  show ?case
  proof (cases k)
    case 0
    with "2.prems" obtain j' where j': "j = Suc j'" "j' < length (r # rs)"
      by (cases j) auto
    then have "(r # rs) ! j' \<in> set (r # rs)" by (intro nth_mem)
    moreover from "2.prems"(1) have "\<forall>q \<in> set (r # rs). km p r \<le> km p q" by simp
    ultimately have "km p r \<le> km p ((r # rs) ! j')" by blast
    with 0 j' show ?thesis by simp
  next
    case (Suc k')
    with "2.prems" obtain j' where "j = Suc j'" by (cases j) auto
    with "2.prems" Suc "2.IH" [of k' j'] show ?thesis by simp
  qed
qed

section \<open>Evaluation on the example data\<close>

lemmas nearest_eval = nearestIdx_def Let_def depot_def kmNorthOfDepot_def toCoord_def pos_def

lemma nearestIdx_example [simp]:
  "nearestIdx depot [kmNorthOfDepot 5, kmNorthOfDepot 1, kmNorthOfDepot 3] = 1"
  "nearestIdx (toCoord (kmNorthOfDepot 1)) [kmNorthOfDepot 5, kmNorthOfDepot 3] = 1"
  "nearestIdx c [u] = 0"
  by (simp_all add: nearest_eval geo_simps)

lemma nearestNeighborRoute_example:
  "nearestNeighborRoute depot [kmNorthOfDepot 5, kmNorthOfDepot 1, kmNorthOfDepot 3] =
     [(lat depot, lng depot), pos (kmNorthOfDepot 1), pos (kmNorthOfDepot 3), pos (kmNorthOfDepot 5)]"
  by (simp add: nearestNeighborRoute_Cons nnLoop_Cons)

lemma length_nnLoop: "length (nnLoop hq dels []) = length dels"
proof -
  have "mset (nnLoop hq dels []) = mset (map pos dels)"
    using nnLoop_nn_route by (rule nn_route_mset)
  then show ?thesis by (metis length_map size_mset)
qed

lemma length_nearestNeighborRoute [simp]:
  "length (nearestNeighborRoute hq dels) = Suc (length dels)"
  by (simp add: nearestNeighborRoute_Cons length_nnLoop)

lemma mset_tl_nearestNeighborRoute:
  "mset (tl (nearestNeighborRoute hq dels)) = mset (map pos dels)"
  using nnLoop_nn_route [of hq dels, THEN nn_route_mset]
  by (simp add: nearestNeighborRoute_Cons)

section \<open>Properties of the sequencer\<close>

text \<open>
  C22: The route starts at the depot and then visits every delivery exactly
  once: it has one point more than there are deliveries, and its points after
  the first are the positions of the deliveries as a multiset.  No return leg
  is appended.  With no delivery the route is the depot alone.
\<close>

theorem nearestNeighborRoute_visits_each_once:
  "hd (nearestNeighborRoute hq dels) = (lat hq, lng hq) \<and>
   length (nearestNeighborRoute hq dels) = Suc (length dels) \<and>
   mset (tl (nearestNeighborRoute hq dels)) = mset (map pos dels) \<and>
   nearestNeighborRoute hq [] = [(lat hq, lng hq)]"
proof -
  have "mset (nnLoop hq dels []) = mset (map pos dels)"
    using nnLoop_nn_route by (rule nn_route_mset)
  moreover from this have "length (nnLoop hq dels []) = length dels"
    by (metis length_map size_mset)
  ultimately show ?thesis by (simp add: nearestNeighborRoute_Cons)
qed

text \<open>
  C6: The route is exactly the route of the nearest-neighbour specification:
  a list of stops is allowed by \<open>nn_route\<close>, which moves each time to the first
  delivery, in list order, that is at least distance from the current stop, if
  and only if it is the route the function returns after the depot.
\<close>

theorem nearestNeighborRoute_refines:
  "nn_route hq dels rs \<longleftrightarrow> nearestNeighborRoute hq dels = (lat hq, lng hq) # rs"
  using nnLoop_nn_route [of hq dels] nn_route_unique [of hq dels rs]
  by (auto simp: nearestNeighborRoute_Cons)

text \<open>
  Every leg of the route goes to a stop that is at least as near to the
  stop before it as every later stop of the route.
\<close>

theorem nearestNeighborRoute_greedy:
  assumes "Suc k < length (nearestNeighborRoute hq dels)" and "k < j"
    and "j < length (nearestNeighborRoute hq dels)"
  shows "km (nearestNeighborRoute hq dels ! k) (nearestNeighborRoute hq dels ! Suc k) \<le>
         km (nearestNeighborRoute hq dels ! k) (nearestNeighborRoute hq dels ! j)"
proof -
  have "greedy_chain (lat hq, lng hq) (nnLoop hq dels [])"
    using nnLoop_nn_route by (rule nn_route_greedy)
  from greedy_chain_nth [OF this] assms show ?thesis
    by (simp add: nearestNeighborRoute_Cons)
qed

theorem nearestNeighborRoute_greedy_witness:
  "Suc 0 < length (nearestNeighborRoute depot [kmNorthOfDepot 5, kmNorthOfDepot 1, kmNorthOfDepot 3]) \<and>
   km (nearestNeighborRoute depot [kmNorthOfDepot 5, kmNorthOfDepot 1, kmNorthOfDepot 3] ! 0)
      (nearestNeighborRoute depot [kmNorthOfDepot 5, kmNorthOfDepot 1, kmNorthOfDepot 3] ! 1) = 1 \<and>
   km (nearestNeighborRoute depot [kmNorthOfDepot 5, kmNorthOfDepot 1, kmNorthOfDepot 3] ! 0)
      (nearestNeighborRoute depot [kmNorthOfDepot 5, kmNorthOfDepot 1, kmNorthOfDepot 3] ! 3) = 5"
  using nearestNeighborRoute_greedy [of 0 depot "[kmNorthOfDepot 5, kmNorthOfDepot 1, kmNorthOfDepot 3]" 3]
  unfolding nearestNeighborRoute_example
  by (simp add: depot_def kmNorthOfDepot_def pos_def geo_simps)

text \<open>
  C40: The inner scan returns an index of the unvisited list whenever the list
  is not empty, so the \<open>splice\<close> of the outer loop removes one delivery and the
  loop ends after as many rounds as there are deliveries.
\<close>

theorem nearestIdx_in_range:
  "unvisited \<noteq> [] \<Longrightarrow>
   nearestIdx current unvisited < length unvisited \<and>
   length (splice1 (nearestIdx current unvisited) unvisited) = length unvisited - 1"
  by (simp add: nearestIdx_less length_splice1)

theorem nearestIdx_in_range_witness:
  "[kmNorthOfDepot 5, kmNorthOfDepot 1, kmNorthOfDepot 3] \<noteq> [] \<and>
   nearestIdx depot [kmNorthOfDepot 5, kmNorthOfDepot 1, kmNorthOfDepot 3] = 1 \<and>
   length (splice1 (nearestIdx depot [kmNorthOfDepot 5, kmNorthOfDepot 1, kmNorthOfDepot 3])
      [kmNorthOfDepot 5, kmNorthOfDepot 1, kmNorthOfDepot 3]) = 2"
  using nearestIdx_in_range [of "[kmNorthOfDepot 5, kmNorthOfDepot 1, kmNorthOfDepot 3]" depot]
  by simp

text \<open>
  For deliveries 5, 1 and 3 kilometres north of the depot, entered in this
  order, the route is the depot, then the deliveries at 1, 3 and 5 kilometres.
\<close>

theorem nearestNeighborRoute_sorts_meridian:
  "nearestNeighborRoute depot [kmNorthOfDepot 5, kmNorthOfDepot 1, kmNorthOfDepot 3] =
     [(12.9716, 77.5946), (12.9716 + kmNorth 1, 77.5946), (12.9716 + kmNorth 3, 77.5946),
      (12.9716 + kmNorth 5, 77.5946)]"
  unfolding nearestNeighborRoute_example
  by (simp add: depot_def kmNorthOfDepot_def pos_def)

end
