(* ===== verification/Locator.thy ===== *)
theory Locator
  imports Geodesy Eligibility
begin

text \<open>
  The launch and landing locator of \<^verbatim>\<open>PathPlanning.jsx\<close>:
  \<open>closestPointOnPolyline\<close> samples every segment of the truck path at the
  fractions \<open>t / samplesPerSegment\<close> and keeps the first sample nearest to the
  target; \<open>truckDistanceToLaunch\<close> and \<open>truckDistanceAfterLaunch\<close> measure the
  path before and after the point at a segment index and fraction.  The state
  of the search is the record \<open>closest_state\<close>, with \<open>Infinity\<close> and \<open>null\<close> as
  \<open>None\<close>; the result is the record \<open>launch\<close>.  Reading a point beyond the end
  of the path, which throws a \<open>TypeError\<close> in the source, is \<open>Inl TypeError\<close>.
  With \<open>samplesPerSegment = 0\<close> every fraction is \<open>NaN\<close> and no sample is ever
  nearer, so the search state stays as it is.
\<close>

section \<open>Data\<close>

record closest_state =
  minDist :: "real option"
  bestPoint :: "latlng option"
  bestIdx :: nat
  bestFrac :: real

record launch =
  point :: "latlng option"
  idx :: nat
  frac :: real

section \<open>The search\<close>

text \<open>The point at fraction \<open>frac\<close> between two points, by linear interpolation.\<close>

definition lerp :: "latlng \<Rightarrow> latlng \<Rightarrow> real \<Rightarrow> latlng" where
  "lerp p1 p2 fr =
     (let (lat1, lng1) = p1; (lat2, lng2) = p2
      in (lat1 + (lat2 - lat1) * fr, lng1 + (lng2 - lng1) * fr))"

definition sampleStep ::
  "latlng list \<Rightarrow> real \<Rightarrow> real \<Rightarrow> nat \<Rightarrow> nat \<Rightarrow> nat \<Rightarrow> closest_state \<Rightarrow> closest_state" where
  "sampleStep polyline targetLat targetLng samplesPerSegment i t st =
     (if samplesPerSegment = 0 then st
      else let fr = real t / real samplesPerSegment;
               p = lerp (polyline ! i) (polyline ! (i + 1)) fr;
               dist = haversineDistance (fst p) (snd p) targetLat targetLng
           in if lt_inf dist (minDist st)
              then \<lparr>minDist = Some dist, bestPoint = Some p, bestIdx = i, bestFrac = fr\<rparr>
              else st)"

definition segmentScan ::
  "latlng list \<Rightarrow> real \<Rightarrow> real \<Rightarrow> nat \<Rightarrow> nat \<Rightarrow> closest_state \<Rightarrow> closest_state" where
  "segmentScan polyline targetLat targetLng samplesPerSegment i st =
     fold (sampleStep polyline targetLat targetLng samplesPerSegment i)
       [0..<Suc samplesPerSegment] st"

definition closestPointOnPolyline :: "latlng list \<Rightarrow> real \<Rightarrow> real \<Rightarrow> nat \<Rightarrow> launch" where
  "closestPointOnPolyline polyline targetLat targetLng samplesPerSegment =
     (let st = fold (segmentScan polyline targetLat targetLng samplesPerSegment)
                 [0..<length polyline - 1]
                 \<lparr>minDist = None, bestPoint = None, bestIdx = 0, bestFrac = 0\<rparr>
      in \<lparr>point = bestPoint st, idx = bestIdx st, frac = bestFrac st\<rparr>)"

text \<open>
  The call of the search by the page: on the road polyline when it has more
  than one point and on the route of the sequencer otherwise, for the
  position of the drone delivery, with 50 samples per segment.  Without a
  drone delivery, or with a coordinate that is not a number, every distance
  is \<open>NaN\<close> and no sample is ever nearer, which is the target \<open>None\<close>.
\<close>

definition choosePolyline :: "latlng list \<Rightarrow> latlng list \<Rightarrow> latlng list" where
  "choosePolyline truckPolyline optimizedNodeOrder =
     (if length truckPolyline > 1 then truckPolyline else optimizedNodeOrder)"

definition locateLaunch :: "latlng list \<Rightarrow> latlng list \<Rightarrow> latlng option \<Rightarrow> launch" where
  "locateLaunch truckPolyline optimizedNodeOrder target =
     (case target of
        None \<Rightarrow> \<lparr>point = None, idx = 0, frac = 0\<rparr>
      | Some (targetLat, targetLng) \<Rightarrow>
          closestPointOnPolyline (choosePolyline truckPolyline optimizedNodeOrder)
            targetLat targetLng 50)"

section \<open>The distances before and after the launch\<close>

definition truckDistanceToLaunch :: "latlng list \<Rightarrow> nat \<Rightarrow> real \<Rightarrow> js_error + real" where
  "truckDistanceToLaunch polyline launchIdx launchFrac =
     (if launchIdx \<noteq> 0 \<and> length polyline \<le> launchIdx then Inl TypeError
      else
        let dist = fold (\<lambda>i dist. dist + km (polyline ! (i - 1)) (polyline ! i))
                     [1..<Suc launchIdx] 0
        in if launchFrac > 0
           then (if length polyline \<le> launchIdx + 1 then Inl TypeError
                 else let p = lerp (polyline ! launchIdx) (polyline ! (launchIdx + 1)) launchFrac
                      in Inr (dist + km (polyline ! launchIdx) p))
           else Inr dist)"

definition truckDistanceAfterLaunch :: "latlng list \<Rightarrow> nat \<Rightarrow> real \<Rightarrow> js_error + real" where
  "truckDistanceAfterLaunch polyline launchIdx launchFrac =
     (if launchFrac < 1 \<and> length polyline \<le> launchIdx + 1 then Inl TypeError
      else
        let dist = (if launchFrac < 1
                    then let p = lerp (polyline ! launchIdx) (polyline ! (launchIdx + 1)) launchFrac
                         in km p (polyline ! (launchIdx + 1))
                    else 0)
        in Inr (fold (\<lambda>i dist. dist + km (polyline ! (i - 1)) (polyline ! i))
                  [launchIdx + 2..<length polyline] dist))"

section \<open>The reference search\<close>

text \<open>
  The samples of a path in the order the two loops visit them, each a segment
  index and a fraction; the point and the distance of a sample; the result
  that belongs to the sample found.  The search is specified as the first
  minimum of \<open>sampleDist\<close> over \<open>samples\<close>.
\<close>

definition samples :: "latlng list \<Rightarrow> nat \<Rightarrow> (nat \<times> real) list" where
  "samples polyline n =
     concat (map (\<lambda>i. map (\<lambda>t. (i, real t / real n)) [0..<Suc n]) [0..<length polyline - 1])"

definition samplePoint :: "latlng list \<Rightarrow> nat \<times> real \<Rightarrow> latlng" where
  "samplePoint polyline s = lerp (polyline ! fst s) (polyline ! (fst s + 1)) (snd s)"

definition sampleDist :: "latlng list \<Rightarrow> latlng \<Rightarrow> nat \<times> real \<Rightarrow> real" where
  "sampleDist polyline target s = km (samplePoint polyline s) target"

definition launch_of :: "latlng list \<Rightarrow> (nat \<times> real) option \<Rightarrow> launch" where
  "launch_of polyline b =
     (case b of
        None \<Rightarrow> \<lparr>point = None, idx = 0, frac = 0\<rparr>
      | Some s \<Rightarrow> \<lparr>point = Some (samplePoint polyline s), idx = fst s, frac = snd s\<rparr>)"

definition result_of :: "closest_state \<Rightarrow> launch" where
  "result_of st = \<lparr>point = bestPoint st, idx = bestIdx st, frac = bestFrac st\<rparr>"

definition state_rel ::
  "latlng list \<Rightarrow> closest_state \<Rightarrow> real option \<times> (nat \<times> real) option \<Rightarrow> bool" where
  "state_rel polyline st a \<longleftrightarrow> minDist st = fst a \<and> result_of st = launch_of polyline (snd a)"

section \<open>Example data\<close>

text \<open>
  Points on the meridian of 77 degrees east, at a distance in kilometres north
  of latitude 28, and a path of two segments of ten kilometres each.
\<close>

definition onMeridian :: "real \<Rightarrow> latlng" where
  "onMeridian k = (28 + kmNorth k, 77)"

definition exPath :: "latlng list" where
  "exPath = [onMeridian 0, onMeridian 10, onMeridian 20]"

section \<open>Interpolation\<close>

lemma lerp_0 [simp]: "lerp p q 0 = p"
  and lerp_1 [simp]: "lerp p q 1 = q"
  by (simp_all add: lerp_def split: prod.splits)

lemma lerp_same [simp]: "lerp p p fr = p"
  by (simp add: lerp_def split: prod.splits)

lemma lerp_pair [simp]:
  "lerp (a, b) (c, d) fr = (a + (c - a) * fr, b + (d - b) * fr)"
  by (simp add: lerp_def)

lemma lerp_onMeridian: "lerp (onMeridian a) (onMeridian b) fr = onMeridian (a + (b - a) * fr)"
  by (simp add: onMeridian_def kmNorth_arith)

lemma km_onMeridian: "\<bar>b - a\<bar> \<le> 12000 \<Longrightarrow> km (onMeridian a) (onMeridian b) = \<bar>b - a\<bar>"
  by (simp add: onMeridian_def geo_simps)

text \<open>
  On a segment that lies on one meridian the interpolated point divides the
  length of the segment; off a meridian it need not.
\<close>

lemma lerp_meridian_split:
  assumes "snd p = snd q" and "\<bar>fst q - fst p\<bar> \<le> 180" and "0 \<le> fr" and "fr \<le> 1"
  shows "km p (lerp p q fr) + km (lerp p q fr) q = km p q"
proof -
  obtain a lo b where p: "p = (a, lo)" and q: "q = (b, lo)"
    using assms(1) by (cases p, cases q) simp
  have "b - (a + (b - a) * fr) = (b - a) * (1 - fr)" by (simp add: algebra_simps)
  with assms(3,4) have 1: "\<bar>(b - a) * fr\<bar> = \<bar>b - a\<bar> * fr"
    and 2: "\<bar>b - (a + (b - a) * fr)\<bar> = \<bar>b - a\<bar> * (1 - fr)"
    by (simp_all add: abs_mult)
  from assms(3,4) have "\<bar>b - a\<bar> * fr \<le> \<bar>b - a\<bar>" "\<bar>b - a\<bar> * (1 - fr) \<le> \<bar>b - a\<bar>"
    by (simp_all add: mult_left_le)
  with assms(2) have le: "\<bar>b - a\<bar> * fr \<le> 180" "\<bar>b - a\<bar> * (1 - fr) \<le> 180"
    unfolding p q by simp_all
  have A: "km p (lerp p q fr) = 6371 * toRad (\<bar>b - a\<bar> * fr)"
    using haversineDistance_meridian [of "a + (b - a) * fr" a lo] le(1)
    by (simp add: p q 1)
  have B: "km (lerp p q fr) q = 6371 * toRad (\<bar>b - a\<bar> * (1 - fr))"
    using haversineDistance_meridian [of b "a + (b - a) * fr" lo] le(2)
    by (simp add: p q 2)
  have C: "km p q = 6371 * toRad \<bar>b - a\<bar>"
    using haversineDistance_meridian [of b a lo] assms(2) by (simp add: p q)
  show ?thesis
    unfolding A B C toRad_def by (simp add: right_diff_distrib diff_divide_distrib)
qed

section \<open>The samples\<close>

lemma length_samples: "length (samples P n) = (length P - 1) * Suc n"
  unfolding samples_def by (rule length_concat_map_upt) simp

lemma nth_samples:
  assumes "i < length P - 1" and "t \<le> n"
  shows "samples P n ! (i * Suc n + t) = (i, real t / real n)"
proof -
  have "samples P n ! (i * Suc n + t) = map (\<lambda>t. (i, real t / real n)) [0..<Suc n] ! t"
    unfolding samples_def using assms by (intro nth_concat_map_upt) simp_all
  also have "\<dots> = (i, real t / real n)"
    using assms(2) by (simp only: nth_map_upt) simp
  finally show ?thesis .
qed

lemma samples_index:
  assumes "k < length (samples P n)"
  obtains i t where "i < length P - 1" "t \<le> n" "k = i * Suc n + t"
    "samples P n ! k = (i, real t / real n)"
proof -
  let ?i = "k div Suc n" and ?t = "k mod Suc n"
  from assms have "k < (length P - 1) * Suc n" by (simp only: length_samples)
  then have i: "?i < length P - 1" by (simp add: less_mult_imp_div_less)
  have t: "?t \<le> n" by (simp add: less_Suc_eq_le [symmetric])
  have k: "k = ?i * Suc n + ?t" by (simp only: div_mult_mod_eq)
  from nth_samples [OF i t] have "samples P n ! k = (?i, real ?t / real n)"
    by (simp only: div_mult_mod_eq)
  with i t k that show thesis by blast
qed

lemma samples_Nil_iff: "samples P n = [] \<longleftrightarrow> length P \<le> 1"
  using length_samples [of P n] by (auto simp del: length_0_conv simp: length_0_conv [symmetric])

lemma sample_index_less:
  assumes "t' \<le> n" and "i' < i \<or> i' = i \<and> t' < t"
  shows "i' * Suc n + t' < i * Suc n + t"
  using assms(2)
proof
  assume "i' < i"
  then have "Suc i' * Suc n \<le> i * Suc n" by (intro mult_le_mono1) simp
  with assms(1) show ?thesis by simp
qed simp

lemma sample_index_bound: "i < m \<Longrightarrow> t \<le> n \<Longrightarrow> i * Suc n + t < m * Suc n"
  using sample_index_less [of t n i m 0] by simp

section \<open>The search finds the first minimum\<close>

lemma state_rel_init:
  "state_rel P \<lparr>minDist = None, bestPoint = None, bestIdx = 0, bestFrac = 0\<rparr> (None, None)"
  by (simp add: state_rel_def result_of_def launch_of_def)

lemma sampleStep_sim:
  assumes "0 < n" and "state_rel P st a"
  shows "state_rel P (sampleStep P la lo n i t st)
           (min_step (sampleDist P (la, lo)) (i, real t / real n) a)"
  using assms
  by (cases a) (auto simp: state_rel_def result_of_def launch_of_def sampleStep_def
      min_step_def sampleDist_def samplePoint_def Let_def)

lemma segmentScan_sim:
  assumes "0 < n" and "state_rel P st a"
  shows "state_rel P (segmentScan P la lo n i st)
           (fold (min_step (sampleDist P (la, lo))) (map (\<lambda>t. (i, real t / real n)) [0..<Suc n]) a)"
  unfolding segmentScan_def fold_map
  by (rule fold_sim [where R = "state_rel P"], rule assms(2))
    (simp only: comp_apply sampleStep_sim [OF assms(1)])

lemma closestPointOnPolyline_result:
  "closestPointOnPolyline P la lo n =
     result_of (fold (segmentScan P la lo n) [0..<length P - 1]
       \<lparr>minDist = None, bestPoint = None, bestIdx = 0, bestFrac = 0\<rparr>)"
  by (simp add: closestPointOnPolyline_def result_of_def Let_def)

lemma closestPointOnPolyline_first_min:
  assumes "0 < n"
  shows "closestPointOnPolyline P la lo n =
           launch_of P (snd (first_min (sampleDist P (la, lo)) (samples P n)))"
proof -
  have "state_rel P
      (fold (segmentScan P la lo n) [0..<length P - 1]
        \<lparr>minDist = None, bestPoint = None, bestIdx = 0, bestFrac = 0\<rparr>)
      (first_min (sampleDist P (la, lo)) (samples P n))"
    unfolding first_min_def samples_def fold_concat fold_map
    by (rule fold_sim [where R = "state_rel P"], rule state_rel_init)
      (simp only: comp_apply segmentScan_sim [OF assms])
  then show ?thesis
    by (simp only: closestPointOnPolyline_result state_rel_def)
qed

lemma sampleStep_0 [simp]: "sampleStep P la lo 0 i t st = st"
  by (simp add: sampleStep_def)

lemma closestPointOnPolyline_0:
  "closestPointOnPolyline P la lo 0 = \<lparr>point = None, idx = 0, frac = 0\<rparr>"
proof -
  have "segmentScan P la lo 0 = (\<lambda>i st. st)"
    by (simp add: segmentScan_def fun_eq_iff)
  then show ?thesis by (simp add: closestPointOnPolyline_def)
qed

lemma closestPointOnPolyline_short:
  "length P \<le> 1 \<Longrightarrow> closestPointOnPolyline P la lo n = \<lparr>point = None, idx = 0, frac = 0\<rparr>"
  by (simp add: closestPointOnPolyline_def)

lemma closestPointOnPolyline_found:
  assumes "2 \<le> length P" and "0 < n"
  shows "\<exists>i t. i < length P - 1 \<and> t \<le> n \<and>
    closestPointOnPolyline P la lo n =
       \<lparr>point = Some (samplePoint P (i, real t / real n)), idx = i, frac = real t / real n\<rparr> \<and>
    (\<forall>i' t'. i' < length P - 1 \<longrightarrow> t' \<le> n \<longrightarrow>
       sampleDist P (la, lo) (i, real t / real n) \<le> sampleDist P (la, lo) (i', real t' / real n)) \<and>
    (\<forall>i' t'. t' \<le> n \<longrightarrow> i' < i \<or> i' = i \<and> t' < t \<longrightarrow>
       sampleDist P (la, lo) (i, real t / real n) < sampleDist P (la, lo) (i', real t' / real n))"
proof -
  let ?f = "sampleDist P (la, lo)" and ?xs = "samples P n"
  from assms(1) have "?xs \<noteq> []" by (simp add: samples_Nil_iff)
  then obtain j where j: "j < length ?xs" "first_min ?f ?xs = (Some (?f (?xs ! j)), Some (?xs ! j))"
    and least: "\<forall>k < length ?xs. ?f (?xs ! j) \<le> ?f (?xs ! k)"
    and first: "\<forall>k < j. ?f (?xs ! j) < ?f (?xs ! k)"
    by (rule first_min_found)
  from j(1) obtain i t where it: "i < length P - 1" "t \<le> n" "j = i * Suc n + t"
    "?xs ! j = (i, real t / real n)"
    by (rule samples_index)
  have res: "closestPointOnPolyline P la lo n =
       \<lparr>point = Some (samplePoint P (i, real t / real n)), idx = i, frac = real t / real n\<rparr>"
    by (simp add: closestPointOnPolyline_first_min [OF assms(2)] j(2) it(4) launch_of_def)
  have le: "?f (i, real t / real n) \<le> ?f (i', real t' / real n)"
    if "i' < length P - 1" "t' \<le> n" for i' t'
  proof -
    from that have "i' * Suc n + t' < length ?xs"
      by (simp only: length_samples sample_index_bound)
    with least have "?f (?xs ! j) \<le> ?f (?xs ! (i' * Suc n + t'))" by blast
    with that it(4) show ?thesis by (simp only: nth_samples)
  qed
  have less: "?f (i, real t / real n) < ?f (i', real t' / real n)"
    if "t' \<le> n" "i' < i \<or> i' = i \<and> t' < t" for i' t'
  proof -
    from that have k: "i' * Suc n + t' < j" unfolding it(3) by (rule sample_index_less)
    from that(2) it(1) have "i' < length P - 1" by auto
    from nth_samples [OF this that(1)] first k it(4) show ?thesis by auto
  qed
  from it(1,2) res le less show ?thesis by blast
qed

section \<open>The call of the search\<close>

lemma choosePolyline_simps [simp]:
  "choosePolyline [] order = order"
  "2 \<le> length tp \<Longrightarrow> choosePolyline tp order = tp"
  by (simp_all add: choosePolyline_def)

lemma locateLaunch_None [simp]:
  "locateLaunch tp order None = \<lparr>point = None, idx = 0, frac = 0\<rparr>"
  by (simp add: locateLaunch_def)

lemma locateLaunch_Some:
  "locateLaunch tp order (Some tgt) =
     closestPointOnPolyline (choosePolyline tp order) (fst tgt) (snd tgt) 50"
  by (simp add: locateLaunch_def split: prod.splits)

lemma locateLaunch_short:
  "length (choosePolyline tp order) \<le> 1 \<Longrightarrow>
   locateLaunch tp order tgt = \<lparr>point = None, idx = 0, frac = 0\<rparr>"
  by (cases tgt) (simp_all add: locateLaunch_Some closestPointOnPolyline_short)

lemma locateLaunch_found:
  assumes "2 \<le> length (choosePolyline tp order)"
  shows "\<exists>i t. i < length (choosePolyline tp order) - 1 \<and> t \<le> 50 \<and>
     locateLaunch tp order (Some tgt) =
       \<lparr>point = Some (samplePoint (choosePolyline tp order) (i, real t / 50)), idx = i,
          frac = real t / 50\<rparr>"
  using closestPointOnPolyline_found [OF assms, of 50 "fst tgt" "snd tgt"]
  by (auto simp: locateLaunch_Some)

lemma locateLaunch_on_path:
  assumes "2 \<le> length (choosePolyline tp order)"
  shows "\<exists>lp. idx (locateLaunch tp order (Some tgt)) + 1 < length (choosePolyline tp order) \<and>
           point (locateLaunch tp order (Some tgt)) = Some lp"
proof -
  from locateLaunch_found [OF assms, of tgt] obtain i t
    where "i < length (choosePolyline tp order) - 1"
      "locateLaunch tp order (Some tgt) =
         \<lparr>point = Some (samplePoint (choosePolyline tp order) (i, real t / 50)), idx = i,
            frac = real t / 50\<rparr>"
    by blast
  then show ?thesis by simp
qed

section \<open>The distances as sums of legs\<close>

lemma truckDistanceToLaunch_legs:
  assumes "i + 1 < length P"
  shows "truckDistanceToLaunch P i fr =
    Inr (legs_sum km (take (Suc i) P) +
         (if 0 < fr then km (P ! i) (lerp (P ! i) (P ! (i + 1)) fr) else 0))"
proof -
  have "fold (\<lambda>i dist. dist + km (P ! (i - 1)) (P ! i)) [Suc 0..<Suc i] 0 =
      0 + legs_sum km (drop 0 (take (Suc i) P))"
    using assms by (intro fold_idx_legs) simp_all
  with assms show ?thesis by (simp add: truckDistanceToLaunch_def Let_def del: upt_Suc)
qed

lemma truckDistanceAfterLaunch_legs:
  assumes "i + 1 < length P"
  shows "truckDistanceAfterLaunch P i fr =
    Inr ((if fr < 1 then km (lerp (P ! i) (P ! (i + 1)) fr) (P ! (i + 1)) else 0) +
         legs_sum km (drop (Suc i) P))"
proof -
  from assms have l: "Suc (length P - 1) = length P" by simp
  have "fold (\<lambda>i dist. dist + km (P ! (i - 1)) (P ! i)) [Suc (Suc i)..<Suc (length P - 1)] s =
      s + legs_sum km (drop (Suc i) (take (Suc (length P - 1)) P))" for s
    using assms by (intro fold_idx_legs) simp_all
  with assms show ?thesis
    unfolding l by (simp add: truckDistanceAfterLaunch_def Let_def del: upt_Suc)
qed

lemma legs_sum_at:
  assumes "i + 1 < length P"
  shows "legs_sum d P =
    legs_sum d (take (Suc i) P) + d (P ! i) (P ! (i + 1)) + legs_sum d (drop (Suc i) P)"
proof -
  from assms have "take (Suc i) P \<noteq> []" "drop (Suc i) P \<noteq> []" by auto
  moreover from assms have "last (take (Suc i) P) = P ! i"
    by (simp add: take_Suc_conv_app_nth)
  ultimately show ?thesis
    using legs_sum_append [of "take (Suc i) P" "drop (Suc i) P" d] assms
    by (simp add: hd_drop_conv_nth)
qed

lemma truckDistance_sum:
  assumes "i + 1 < length P"
  obtains a b where "truckDistanceToLaunch P i fr = Inr a" "truckDistanceAfterLaunch P i fr = Inr b"
    "0 \<le> a" "0 \<le> b"
    "a + b + km (P ! i) (P ! (i + 1)) = legs_sum km P +
       (if 0 < fr then km (P ! i) (lerp (P ! i) (P ! (i + 1)) fr) else 0) +
       (if fr < 1 then km (lerp (P ! i) (P ! (i + 1)) fr) (P ! (i + 1)) else 0)"
proof -
  let ?a = "legs_sum km (take (Suc i) P) +
         (if 0 < fr then km (P ! i) (lerp (P ! i) (P ! (i + 1)) fr) else 0)"
  let ?b = "(if fr < 1 then km (lerp (P ! i) (P ! (i + 1)) fr) (P ! (i + 1)) else 0) +
         legs_sum km (drop (Suc i) P)"
  have "0 \<le> legs_sum km ps" for ps by (rule legs_sum_nonneg) simp
  then have nn: "0 \<le> ?a" "0 \<le> ?b" by simp_all
  have sum: "?a + ?b + km (P ! i) (P ! (i + 1)) = legs_sum km P +
       (if 0 < fr then km (P ! i) (lerp (P ! i) (P ! (i + 1)) fr) else 0) +
       (if fr < 1 then km (lerp (P ! i) (P ! (i + 1)) fr) (P ! (i + 1)) else 0)"
    by (simp only: legs_sum_at [OF assms, of km])
  show thesis
    by (rule that [OF truckDistanceToLaunch_legs [OF assms] truckDistanceAfterLaunch_legs [OF assms]
          nn sum])
qed

section \<open>Evaluation on the examples\<close>

lemmas upt_numeral = upt_rec [of _ "numeral k"] for k

lemmas locator_eval = closestPointOnPolyline_def segmentScan_def sampleStep_def Let_def
  truckDistanceToLaunch_def truckDistanceAfterLaunch_def exPath_def
  lerp_onMeridian km_onMeridian upt_numeral

lemma closestPointOnPolyline_exPath:
  "closestPointOnPolyline exPath (fst (onMeridian 14)) (snd (onMeridian 14)) 2 =
     \<lparr>point = Some (onMeridian 15), idx = 1, frac = 1 / 2\<rparr>"
  by (simp add: locator_eval)

lemma truckDistance_exPath:
  "truckDistanceToLaunch exPath 1 (1 / 2) = Inr 15"
  "truckDistanceAfterLaunch exPath 1 (1 / 2) = Inr 5"
  "legs_sum km exPath = 20"
  by (simp_all add: locator_eval)

lemma closestPointOnPolyline_exPath50:
  "closestPointOnPolyline exPath (fst (onMeridian 14)) (snd (onMeridian 14)) 50 =
     \<lparr>point = Some (onMeridian 14), idx = 1, frac = 2 / 5\<rparr>"
  by (simp add: locator_eval)

lemma locateLaunch_exPath:
  "locateLaunch [] exPath (Some (onMeridian 14)) =
     \<lparr>point = Some (onMeridian 14), idx = 1, frac = 2 / 5\<rparr>"
  by (simp add: locateLaunch_Some closestPointOnPolyline_exPath50)


section \<open>Properties of the search\<close>

text \<open>
  C7: With at least one sample per segment, the two nested loops of
  \<open>closestPointOnPolyline\<close> return the sample that the reference search finds:
  the first minimum of the distance to the target over the samples of the path
  in loop order, or no point when the path has no segment.
\<close>

theorem closestPointOnPolyline_refines:
  "0 < n \<Longrightarrow>
   closestPointOnPolyline P la lo n =
     launch_of P (snd (first_min (sampleDist P (la, lo)) (samples P n)))"
  by (rule closestPointOnPolyline_first_min)

theorem closestPointOnPolyline_refines_witness:
  "(0::nat) < 2 \<and>
   launch_of exPath (snd (first_min (sampleDist exPath (onMeridian 14)) (samples exPath 2))) =
     \<lparr>point = Some (onMeridian 15), idx = 1, frac = 1 / 2\<rparr>"
  using closestPointOnPolyline_refines [of 2 exPath "fst (onMeridian 14)" "snd (onMeridian 14)"]
    closestPointOnPolyline_exPath
  by simp

text \<open>
  C24: On a path of at least two points, searched with at least one sample per
  segment, the result names a segment of the path and a fraction between 0
  and 1, and its point is the interpolation of that segment at that fraction.
\<close>

theorem closestPointOnPolyline_on_path:
  assumes "2 \<le> length P" and "0 < n" and "r = closestPointOnPolyline P la lo n"
  shows "idx r < length P - 1 \<and> 0 \<le> frac r \<and> frac r \<le> 1 \<and>
         (\<exists>t \<le> n. frac r = real t / real n) \<and>
         point r = Some (lerp (P ! idx r) (P ! (idx r + 1)) (frac r))"
proof -
  from closestPointOnPolyline_found [OF assms(1,2), of la lo]
  obtain i t where "i < length P - 1" "t \<le> n"
    "closestPointOnPolyline P la lo n =
       \<lparr>point = Some (samplePoint P (i, real t / real n)), idx = i, frac = real t / real n\<rparr>"
    by blast
  with assms(2,3) show ?thesis by (auto simp: samplePoint_def)
qed

theorem closestPointOnPolyline_on_path_witness:
  "idx (closestPointOnPolyline exPath (fst (onMeridian 14)) (snd (onMeridian 14)) 2) < 2 \<and>
   point (closestPointOnPolyline exPath (fst (onMeridian 14)) (snd (onMeridian 14)) 2) =
     Some (onMeridian 15)"
  using closestPointOnPolyline_on_path [of exPath 2 _ "fst (onMeridian 14)" "snd (onMeridian 14)"]
  by (simp add: closestPointOnPolyline_exPath)

text \<open>
  C23: No sample of the path is nearer to the target than the point returned:
  the distance from the returned point to the target is at most the distance
  from the interpolation of any segment at any of the fractions \<open>t / n\<close>.
\<close>

theorem closestPointOnPolyline_nearest:
  assumes "2 \<le> length P" and "0 < n" and "i' < length P - 1" and "t' \<le> n"
  shows "\<exists>p. point (closestPointOnPolyline P la lo n) = Some p \<and>
             km p (la, lo) \<le> km (lerp (P ! i') (P ! (i' + 1)) (real t' / real n)) (la, lo)"
proof -
  from closestPointOnPolyline_found [OF assms(1,2), of la lo]
  obtain i t where
    "closestPointOnPolyline P la lo n =
       \<lparr>point = Some (samplePoint P (i, real t / real n)), idx = i, frac = real t / real n\<rparr>"
    "sampleDist P (la, lo) (i, real t / real n) \<le> sampleDist P (la, lo) (i', real t' / real n)"
    using assms(3,4) by blast
  then show ?thesis
    by (simp add: sampleDist_def samplePoint_def)
qed

theorem closestPointOnPolyline_nearest_witness:
  "km (onMeridian 15) (onMeridian 14) \<le> km (onMeridian 10) (onMeridian 14)"
  using closestPointOnPolyline_nearest [of exPath 2 0 2 "fst (onMeridian 14)" "snd (onMeridian 14)"]
  by (simp add: closestPointOnPolyline_exPath) (simp add: exPath_def lerp_onMeridian)

text \<open>
  Ties go to the first sample: every sample that the loops visit before the
  one returned, in an earlier segment or at a smaller fraction of the same
  segment, is strictly farther from the target than the point returned.
\<close>

theorem closestPointOnPolyline_first:
  assumes "2 \<le> length P" and "0 < n" and "t' \<le> n"
    and "r = closestPointOnPolyline P la lo n"
    and "i' < idx r \<or> i' = idx r \<and> real t' / real n < frac r"
  shows "\<exists>p. point r = Some p \<and>
             km p (la, lo) < km (lerp (P ! i') (P ! (i' + 1)) (real t' / real n)) (la, lo)"
proof -
  from closestPointOnPolyline_found [OF assms(1,2), of la lo]
  obtain i t where r:
    "closestPointOnPolyline P la lo n =
       \<lparr>point = Some (samplePoint P (i, real t / real n)), idx = i, frac = real t / real n\<rparr>"
    and first: "\<forall>i' t'. t' \<le> n \<longrightarrow> i' < i \<or> i' = i \<and> t' < t \<longrightarrow>
       sampleDist P (la, lo) (i, real t / real n) < sampleDist P (la, lo) (i', real t' / real n)"
    by blast
  from assms(2,4,5) r have "i' < i \<or> i' = i \<and> t' < t"
    by (auto simp: divide_less_cancel)
  with first assms(3) have
    "sampleDist P (la, lo) (i, real t / real n) < sampleDist P (la, lo) (i', real t' / real n)"
    by blast
  with r assms(4) show ?thesis
    by (simp add: sampleDist_def samplePoint_def)
qed

theorem closestPointOnPolyline_first_witness:
  "km (onMeridian 15) (onMeridian 14) < km (onMeridian 10) (onMeridian 14)"
  using closestPointOnPolyline_first [of exPath 2 2 _ "fst (onMeridian 14)" "snd (onMeridian 14)" 0]
  by (simp add: closestPointOnPolyline_exPath) (simp add: exPath_def lerp_onMeridian)

text \<open>
  The search returns no point, with index 0 and fraction 0, exactly when
  the path has fewer than two points or the number of samples per segment is
  zero.
\<close>

theorem closestPointOnPolyline_none_iff:
  "closestPointOnPolyline P la lo n = \<lparr>point = None, idx = 0, frac = 0\<rparr> \<longleftrightarrow>
     length P \<le> 1 \<or> n = 0"
proof (cases "length P \<le> 1 \<or> n = 0")
  case True
  then show ?thesis
    by (auto simp: closestPointOnPolyline_0 closestPointOnPolyline_short)
next
  case False
  then have "2 \<le> length P" "0 < n" by simp_all
  from closestPointOnPolyline_found [OF this, of la lo] obtain i t where
    "closestPointOnPolyline P la lo n =
       \<lparr>point = Some (samplePoint P (i, real t / real n)), idx = i, frac = real t / real n\<rparr>"
    by blast
  with False show ?thesis by simp
qed

section \<open>Properties of the distances\<close>

text \<open>
  For a launch on segment \<open>i\<close> of the path, the distance up to the launch is
  the length of the path from its start to point \<open>i\<close>, plus, when the fraction
  is positive, the distance from point \<open>i\<close> to the interpolated point.
\<close>

theorem truckDistanceToLaunch_prefix:
  "i + 1 < length P \<Longrightarrow>
   truckDistanceToLaunch P i fr =
     Inr (legs_sum km (take (Suc i) P) +
          (if 0 < fr then km (P ! i) (lerp (P ! i) (P ! (i + 1)) fr) else 0))"
  by (rule truckDistanceToLaunch_legs)

theorem truckDistanceToLaunch_prefix_witness:
  "truckDistanceToLaunch exPath 1 (1 / 2) = Inr (10 + 5)"
  using truckDistanceToLaunch_prefix [of 1 exPath "1 / 2"]
  by (simp add: exPath_def lerp_onMeridian km_onMeridian)

text \<open>
  For a launch on segment \<open>i\<close> of the path, the distance after the launch is
  the length of the path from point \<open>i + 1\<close> to its end, plus, when the fraction
  is below 1, the distance from the interpolated point to point \<open>i + 1\<close>.
\<close>

theorem truckDistanceAfterLaunch_suffix:
  "i + 1 < length P \<Longrightarrow>
   truckDistanceAfterLaunch P i fr =
     Inr ((if fr < 1 then km (lerp (P ! i) (P ! (i + 1)) fr) (P ! (i + 1)) else 0) +
          legs_sum km (drop (Suc i) P))"
  by (rule truckDistanceAfterLaunch_legs)

theorem truckDistanceAfterLaunch_suffix_witness:
  "truckDistanceAfterLaunch exPath 0 (1 / 2) = Inr (5 + 10)"
  using truckDistanceAfterLaunch_suffix [of 0 exPath "1 / 2"]
  by (simp add: exPath_def lerp_onMeridian km_onMeridian)

text \<open>
  At the launch that the search returns for a path of at least two points,
  both distances are defined (no point beyond the end of the path is read) and
  neither is negative.
\<close>

theorem truckDistance_defined:
  assumes "2 \<le> length P" and "0 < n" and "r = closestPointOnPolyline P la lo n"
  shows "\<exists>a b. truckDistanceToLaunch P (idx r) (frac r) = Inr a \<and>
               truckDistanceAfterLaunch P (idx r) (frac r) = Inr b \<and> 0 \<le> a \<and> 0 \<le> b"
proof -
  from closestPointOnPolyline_found [OF assms(1,2), of la lo] assms(3)
  have "idx r + 1 < length P" by auto
  then show ?thesis by (rule truckDistance_sum) blast
qed

theorem truckDistance_defined_witness:
  "\<exists>a b. truckDistanceToLaunch exPath 1 (1 / 2) = Inr a \<and>
         truckDistanceAfterLaunch exPath 1 (1 / 2) = Inr b \<and> 0 \<le> a \<and> 0 \<le> b"
  using truckDistance_defined [of exPath 2 _ "fst (onMeridian 14)" "snd (onMeridian 14)"]
  by (simp add: closestPointOnPolyline_exPath) (simp add: exPath_def)

text \<open>
  C26: The two distances add up to the length of the whole path when the launch
  is at an end of its segment (fraction 0 or 1), and for any fraction between
  0 and 1 when the launch segment lies on one meridian.
\<close>

theorem truckDistance_sum_consistent:
  assumes "i + 1 < length P"
    and "fr = 0 \<or> fr = 1 \<or>
         0 \<le> fr \<and> fr \<le> 1 \<and> snd (P ! i) = snd (P ! (i + 1)) \<and>
         \<bar>fst (P ! (i + 1)) - fst (P ! i)\<bar> \<le> 180"
  shows "\<exists>a b. truckDistanceToLaunch P i fr = Inr a \<and>
               truckDistanceAfterLaunch P i fr = Inr b \<and> a + b = legs_sum km P"
proof -
  let ?p = "P ! i" and ?q = "P ! (i + 1)"
  from assms(1) obtain a b where ab: "truckDistanceToLaunch P i fr = Inr a"
    "truckDistanceAfterLaunch P i fr = Inr b"
    and sum: "a + b + km ?p ?q = legs_sum km P +
       (if 0 < fr then km ?p (lerp ?p ?q fr) else 0) +
       (if fr < 1 then km (lerp ?p ?q fr) ?q else 0)"
    by (rule truckDistance_sum)
  have "(if 0 < fr then km ?p (lerp ?p ?q fr) else 0) +
        (if fr < 1 then km (lerp ?p ?q fr) ?q else 0) = km ?p ?q"
    using assms(2) lerp_meridian_split [of ?p ?q fr]
    by (cases "fr = 0"; cases "fr = 1") auto
  with sum have "a + b = legs_sum km P" by simp
  with ab show ?thesis by blast
qed

theorem truckDistance_sum_consistent_witness:
  "\<exists>a b. truckDistanceToLaunch exPath 1 (1 / 2) = Inr a \<and>
         truckDistanceAfterLaunch exPath 1 (1 / 2) = Inr b \<and> a + b = 20"
proof -
  have "\<bar>fst (exPath ! (1 + 1)) - fst (exPath ! 1)\<bar> \<le> 180"
    by (simp add: exPath_def onMeridian_def kmNorth_diff kmNorth_le_180)
  with truckDistance_sum_consistent [of 1 exPath "1 / 2"] show ?thesis
    by (simp add: truckDistance_exPath(3)) (simp add: exPath_def onMeridian_def)
qed


text \<open>
  On a path of fewer than two points the search returns index 0 and
  fraction 0; the distance up to that launch is 0, and the distance after it
  is not defined: the end of a segment that does not exist is read, which is
  a \<open>TypeError\<close>.
\<close>

theorem truckDistanceAfterLaunch_degenerate:
  assumes "length P \<le> 1" and "r = closestPointOnPolyline P la lo n"
  shows "truckDistanceToLaunch P (idx r) (frac r) = Inr 0 \<and>
         truckDistanceAfterLaunch P (idx r) (frac r) = Inl TypeError"
  using assms
  by (simp add: closestPointOnPolyline_short truckDistanceToLaunch_def truckDistanceAfterLaunch_def)

theorem truckDistanceAfterLaunch_degenerate_witness:
  "truckDistanceAfterLaunch [onMeridian 0]
     (idx (closestPointOnPolyline [onMeridian 0] 28 77 50))
     (frac (closestPointOnPolyline [onMeridian 0] 28 77 50)) = Inl TypeError"
  using truckDistanceAfterLaunch_degenerate [of "[onMeridian 0]" _ 28 77 50]
  by simp

end
