(* ===== verification/Composer.thy ===== *)
theory Composer
  imports Locator
begin

text \<open>
  The traversal composer of \<^verbatim>\<open>PathPlanning.jsx\<close>: the search for the place of
  the drone leg in the truck route (the segment whose midpoint is nearest to
  the launch point), the list of typed stops built around it, and the labels
  of the stops.  A stop is the record \<open>traversal_point\<close>; its \<open>type\<close> is one of
  the five strings of the source, as the datatype \<open>point_type\<close> with \<open>typeName\<close>
  giving the string; its \<open>coords\<close> are \<open>None\<close> for the array \<open>[null, null]\<close>; its
  \<open>label\<close> is the UTF-16 code unit that \<open>String.fromCharCode\<close> returns.
\<close>

section \<open>Data\<close>

datatype point_type = Hq | Truck | Launch | DroneDelivery | Landing

record traversal_point =
  type :: point_type
  coords :: "latlng option"
  label :: nat

definition typeName :: "point_type \<Rightarrow> string" where
  "typeName ty =
     (case ty of Hq \<Rightarrow> ''HQ'' | Truck \<Rightarrow> ''Truck'' | Launch \<Rightarrow> ''Launch''
      | DroneDelivery \<Rightarrow> ''DroneDelivery'' | Landing \<Rightarrow> ''Landing'')"

section \<open>Labels and display names\<close>

definition getLabel :: "nat \<Rightarrow> nat" where
  "getLabel i = (65 + i) mod 65536"

definition getTypeDisplayMessage :: "string \<Rightarrow> string" where
  "getTypeDisplayMessage ty =
     (if ty = ''HQ'' then ''Headquarters''
      else if ty = ''Truck'' then ''Truck Delivery''
      else if ty = ''Launch'' then ''Launch Site''
      else if ty = ''DroneDelivery'' then ''Drone Delivery''
      else if ty = ''Landing'' then ''Landing Site''
      else ty)"

section \<open>The place of the drone leg\<close>

definition insertStep ::
  "latlng list \<Rightarrow> latlng option \<Rightarrow> nat \<Rightarrow> nat \<times> real option \<Rightarrow> nat \<times> real option" where
  "insertStep optimizedNodeOrder launchPoint i st =
     (case launchPoint of
        None \<Rightarrow> st
      | Some lp \<Rightarrow>
          let (lat1, lng1) = optimizedNodeOrder ! i;
              (lat2, lng2) = optimizedNodeOrder ! (i + 1);
              midLat = (lat1 + lat2) / 2;
              midLng = (lng1 + lng2) / 2;
              dist = haversineDistance (fst lp) (snd lp) midLat midLng
          in if lt_inf dist (snd st) then (i + 1, Some dist) else st)"

definition findInsertIdx :: "latlng list \<Rightarrow> latlng option \<Rightarrow> nat" where
  "findInsertIdx optimizedNodeOrder launchPoint =
     fst (fold (insertStep optimizedNodeOrder launchPoint)
            [0..<length optimizedNodeOrder - 1] (0, None))"

section \<open>The traversal\<close>

definition assignLabels :: "(point_type \<times> latlng option) list \<Rightarrow> traversal_point list" where
  "assignLabels pts =
     map (\<lambda>(i, (ty, c)). \<lparr>type = ty, coords = c, label = getLabel i\<rparr>) (enumerate 0 pts)"

definition composeTraversal ::
  "latlng list \<Rightarrow> latlng option \<Rightarrow> latlng option \<Rightarrow> traversal_point list" where
  "composeTraversal optimizedNodeOrder launchPoint droneDelivery =
     (let insertIdx = findInsertIdx optimizedNodeOrder launchPoint;
          pre = map (\<lambda>i. (if i = 0 then Hq else Truck, Some (optimizedNodeOrder ! i)))
                  [0..<insertIdx];
          mid = (case launchPoint of
                   None \<Rightarrow> []
                 | Some lp \<Rightarrow>
                     [(Launch, Some lp), (DroneDelivery, droneDelivery), (Landing, Some lp)]);
          post = map (\<lambda>i. (Truck, Some (optimizedNodeOrder ! i)))
                   [insertIdx..<length optimizedNodeOrder]
      in assignLabels (pre @ mid @ post))"

definition allPoints :: "traversal_point list \<Rightarrow> latlng option list" where
  "allPoints traversalPoints = map coords traversalPoints"

section \<open>The reference\<close>

text \<open>
  The middle of a segment, the distance from the launch point to the middle
  of segment \<open>i\<close>, and the list of types of a traversal with \<open>k\<close> stops before
  the drone leg and \<open>m\<close> after it.
\<close>

definition midpoint :: "latlng \<Rightarrow> latlng \<Rightarrow> latlng" where
  "midpoint p q = ((fst p + fst q) / 2, (snd p + snd q) / 2)"

definition midDist :: "latlng list \<Rightarrow> latlng \<Rightarrow> nat \<Rightarrow> real" where
  "midDist order lp i = km lp (midpoint (order ! i) (order ! (i + 1)))"

definition hybrid_types :: "nat \<Rightarrow> nat \<Rightarrow> point_type list" where
  "hybrid_types k m =
     Hq # replicate k Truck @ [Launch, DroneDelivery, Landing] @ replicate m Truck"

definition on_truck :: "traversal_point \<Rightarrow> bool" where
  "on_truck p \<longleftrightarrow> type p = Hq \<or> type p = Truck"

definition is_delivery :: "traversal_point \<Rightarrow> bool" where
  "is_delivery p \<longleftrightarrow> type p = Truck \<or> type p = DroneDelivery"

section \<open>Example data\<close>

text \<open>
  A route whose second segment is much shorter than the first: stops 8 and 9
  kilometres north of the start.
\<close>

definition exShort :: "latlng list" where
  "exShort = [onMeridian 0, onMeridian 8, onMeridian 9]"

section \<open>Labels and display names\<close>

lemma getLabel_plain: "i < 65471 \<Longrightarrow> getLabel i = 65 + i"
  by (simp add: getLabel_def)

lemma getLabel_inj:
  assumes "i < 65471" and "j < 65471"
  shows "getLabel i = getLabel j \<longleftrightarrow> i = j"
  using assms by (simp add: getLabel_plain)

lemma getLabel_wraps: "getLabel 65471 = 0"
  by (simp add: getLabel_def)

lemma typeName_inj: "typeName a = typeName b \<longleftrightarrow> a = b"
  by (cases a; cases b) (simp_all add: typeName_def)

lemma getTypeDisplayMessage_typeName:
  "getTypeDisplayMessage (typeName ty) =
     (case ty of Hq \<Rightarrow> ''Headquarters'' | Truck \<Rightarrow> ''Truck Delivery''
      | Launch \<Rightarrow> ''Launch Site'' | DroneDelivery \<Rightarrow> ''Drone Delivery''
      | Landing \<Rightarrow> ''Landing Site'')"
  by (cases ty) (simp_all add: typeName_def getTypeDisplayMessage_def)

section \<open>Labelled lists\<close>

lemma length_assignLabels [simp]: "length (assignLabels pts) = length pts"
  by (simp add: assignLabels_def)

lemma nth_assignLabels:
  "i < length pts \<Longrightarrow>
   assignLabels pts ! i = \<lparr>type = fst (pts ! i), coords = snd (pts ! i), label = getLabel i\<rparr>"
  by (simp add: assignLabels_def nth_enumerate_eq split: prod.splits)

lemma map_type_assignLabels [simp]: "map type (assignLabels pts) = map fst pts"
  by (rule nth_equalityI) (simp_all add: nth_assignLabels)

lemma map_coords_assignLabels [simp]: "map coords (assignLabels pts) = map snd pts"
  by (rule nth_equalityI) (simp_all add: nth_assignLabels)

lemma map_label_assignLabels [simp]:
  "map label (assignLabels pts) = map getLabel [0..<length pts]"
  by (rule nth_equalityI) (simp_all add: nth_assignLabels)

lemma pairs_assignLabels: "map (\<lambda>p. (type p, coords p)) (assignLabels pts) = pts"
  by (rule nth_equalityI) (simp_all add: nth_assignLabels)

lemma filter_assignLabels:
  "map coords (filter (\<lambda>p. Q (type p)) (assignLabels pts)) =
   map snd (filter (\<lambda>p. Q (fst p)) pts)"
proof -
  have "map snd (filter (\<lambda>p. Q (fst p)) pts) =
      map snd (filter (\<lambda>p. Q (fst p)) (map (\<lambda>p. (type p, coords p)) (assignLabels pts)))"
    by (simp only: pairs_assignLabels)
  also have "\<dots> = map coords (filter (\<lambda>p. Q (type p)) (assignLabels pts))"
    by (simp only: filter_map map_map) (simp add: comp_def)
  finally show ?thesis by simp
qed

lemma filter_on_truck_assignLabels:
  "map coords (filter on_truck (assignLabels pts)) =
   map snd (filter (\<lambda>p. fst p = Hq \<or> fst p = Truck) pts)"
proof -
  have "map (\<lambda>p. (type p, coords p)) (assignLabels pts) = pts"
    by (rule nth_equalityI) (simp_all add: nth_assignLabels)
  then have "map snd (filter (\<lambda>p. fst p = Hq \<or> fst p = Truck) pts) =
      map snd (filter (\<lambda>p. fst p = Hq \<or> fst p = Truck)
        (map (\<lambda>p. (type p, coords p)) (assignLabels pts)))"
    by simp
  also have "\<dots> = map coords (filter on_truck (assignLabels pts))"
    by (simp only: filter_map map_map) (simp add: comp_def on_truck_def [abs_def])
  finally show ?thesis by simp
qed

section \<open>The place of the drone leg\<close>

lemma findInsertIdx_None [simp]: "findInsertIdx order None = 0"
proof -
  have "insertStep order None = (\<lambda>i st. st)"
    by (simp add: insertStep_def fun_eq_iff)
  then show ?thesis by (simp add: findInsertIdx_def)
qed

lemma findInsertIdx_short [simp]: "length order \<le> 1 \<Longrightarrow> findInsertIdx order lp = 0"
  by (simp add: findInsertIdx_def)

lemma insertStep_sim:
  assumes "snd st = fst a" and "fst st = (case snd a of None \<Rightarrow> 0 | Some i \<Rightarrow> Suc i)"
  shows "snd (insertStep order (Some lp) i st) = fst (min_step (midDist order lp) i a) \<and>
         fst (insertStep order (Some lp) i st) =
           (case snd (min_step (midDist order lp) i a) of None \<Rightarrow> 0 | Some i \<Rightarrow> Suc i)"
  using assms
  by (cases a) (simp add: insertStep_def min_step_def midDist_def midpoint_def Let_def
      split: prod.splits)

lemma findInsertIdx_first_min:
  "findInsertIdx order (Some lp) =
     (case snd (first_min (midDist order lp) [0..<length order - 1]) of
        None \<Rightarrow> 0
      | Some i \<Rightarrow> Suc i)"
proof -
  let ?R = "\<lambda>st a. snd st = fst a \<and> fst st = (case snd a of None \<Rightarrow> 0 | Some i \<Rightarrow> Suc i)"
  have "?R (fold (insertStep order (Some lp)) [0..<length order - 1] (0, None))
           (fold (min_step (midDist order lp)) [0..<length order - 1] (None, None))"
    by (rule fold_sim [where R = ?R]) (simp_all add: insertStep_sim)
  then show ?thesis by (simp add: findInsertIdx_def first_min_def)
qed

lemma findInsertIdx_found:
  assumes "2 \<le> length order"
  shows "\<exists>i < length order - 1. findInsertIdx order (Some lp) = Suc i \<and>
           (\<forall>k < length order - 1. midDist order lp i \<le> midDist order lp k) \<and>
           (\<forall>k < i. midDist order lp i < midDist order lp k)"
proof -
  let ?xs = "[0..<length order - 1]"
  from assms have "?xs \<noteq> []" by simp
  then obtain j where "j < length ?xs"
    "first_min (midDist order lp) ?xs = (Some (midDist order lp (?xs ! j)), Some (?xs ! j))"
    "\<forall>k < length ?xs. midDist order lp (?xs ! j) \<le> midDist order lp (?xs ! k)"
    "\<forall>k < j. midDist order lp (?xs ! j) < midDist order lp (?xs ! k)"
    by (rule first_min_found)
  then show ?thesis
    by (intro exI [of _ j]) (simp add: findInsertIdx_first_min)
qed

lemma findInsertIdx_le: "findInsertIdx order lp \<le> length order - 1"
proof (cases "2 \<le> length order \<and> lp \<noteq> None")
  case True
  then obtain p where "lp = Some p" by auto
  with True findInsertIdx_found [of order p] show ?thesis by auto
next
  case False
  then show ?thesis by (cases lp) auto
qed

section \<open>The traversal\<close>

lemma composeTraversal_None:
  "composeTraversal order None dd = assignLabels (map (\<lambda>p. (Truck, Some p)) order)"
  using map_nth_upt_drop [of "\<lambda>p. (Truck, Some p)" order 0]
  by (simp add: composeTraversal_def)

lemma composeTraversal_types:
  assumes "2 \<le> length order"
  shows "map type (composeTraversal order (Some lp) dd) =
         hybrid_types (findInsertIdx order (Some lp) - 1) (length order - findInsertIdx order (Some lp))"
proof -
  from findInsertIdx_found [OF assms, of lp] obtain i
    where i: "findInsertIdx order (Some lp) = Suc i" by blast
  show ?thesis
    unfolding i
    by (simp add: composeTraversal_def i hybrid_types_def comp_def map_first_other
        map_replicate_const del: upt_Suc)
qed

lemma composeTraversal_coords:
  "allPoints (composeTraversal order lp dd) =
     map Some (take (findInsertIdx order lp) order) @
     (case lp of None \<Rightarrow> [] | Some p \<Rightarrow> [Some p, dd, Some p]) @
     map Some (drop (findInsertIdx order lp) order)"
proof -
  let ?k = "findInsertIdx order lp"
  have "?k \<le> length order"
    using findInsertIdx_le [of order lp] by simp
  then have pre: "map (\<lambda>i. Some (order ! i)) [0..<?k] = map Some (take ?k order)"
    by (rule map_nth_upt_take)
  have post: "map (\<lambda>i. Some (order ! i)) [?k..<length order] = map Some (drop ?k order)"
    by (rule map_nth_upt_drop)
  show ?thesis
    by (simp add: allPoints_def composeTraversal_def Let_def comp_def pre post
        split: option.splits)
qed

lemma length_composeTraversal:
  "length (composeTraversal order lp dd) = length order + (if lp = None then 0 else 3)"
proof -
  have "length (allPoints (composeTraversal order lp dd)) =
      length order + (if lp = None then 0 else 3)"
    using findInsertIdx_le [of order lp]
    by (simp only: composeTraversal_coords) (simp split: option.splits)
  then show ?thesis by (simp add: allPoints_def)
qed

lemma composeTraversal_on_truck:
  "map coords (filter on_truck (composeTraversal order lp dd)) = map Some order"
proof -
  let ?k = "findInsertIdx order lp"
  let ?Q = "\<lambda>p::point_type \<times> latlng option. fst p = Hq \<or> fst p = Truck"
  have "?k \<le> length order"
    using findInsertIdx_le [of order lp] by simp
  then have pre: "map (\<lambda>i. Some (order ! i)) [0..<?k] = map Some (take ?k order)"
    by (rule map_nth_upt_take)
  have post: "map (\<lambda>i. Some (order ! i)) [?k..<length order] = map Some (drop ?k order)"
    by (rule map_nth_upt_drop)
  have "map snd (filter ?Q (map (\<lambda>i. (if i = 0 then Hq else Truck, Some (order ! i))) [0..<?k])) =
      map (\<lambda>i. Some (order ! i)) [0..<?k]"
    by (simp add: filter_map comp_def if_distrib [of "\<lambda>t. t = _"] cong: if_cong)
  moreover have "map snd (filter ?Q (map (\<lambda>i. (Truck, Some (order ! i))) [?k..<length order])) =
      map (\<lambda>i. Some (order ! i)) [?k..<length order]"
    by (simp add: filter_map comp_def)
  ultimately have "map snd (filter ?Q
      (map (\<lambda>i. (if i = 0 then Hq else Truck, Some (order ! i))) [0..<?k] @
       (case lp of None \<Rightarrow> []
        | Some p \<Rightarrow> [(Launch, Some p), (DroneDelivery, dd), (Landing, Some p)]) @
       map (\<lambda>i. (Truck, Some (order ! i))) [?k..<length order])) =
      map Some (take ?k order) @ map Some (drop ?k order)"
    by (simp add: pre post split: option.splits)
  then show ?thesis
    by (simp add: composeTraversal_def Let_def filter_on_truck_assignLabels flip: map_append)
qed

lemma composeTraversal_coords_Some:
  assumes "p \<in> set (composeTraversal order lp (Some dd))"
  shows "coords p \<noteq> None"
proof -
  from assms have "coords p \<in> set (allPoints (composeTraversal order lp (Some dd)))"
    by (simp add: allPoints_def)
  then show ?thesis
    by (auto simp: composeTraversal_coords split: option.splits)
qed

lemma composeTraversal_deliveries:
  assumes "2 \<le> length order"
  shows "mset (map coords (filter is_delivery (composeTraversal order (Some lp) (Some d)))) =
         mset (map Some (tl order)) + {#Some d#}"
proof -
  let ?Q = "\<lambda>p::point_type \<times> latlng option. fst p = Truck \<or> fst p = DroneDelivery"
  from findInsertIdx_found [OF assms, of lp] obtain i
    where i: "i < length order - 1" "findInsertIdx order (Some lp) = Suc i" by blast
  have pre: "map snd (filter ?Q
      (map (\<lambda>j. (if j = 0 then Hq else Truck, Some (order ! j))) [0..<Suc i])) =
      map (\<lambda>j. Some (order ! j)) [Suc 0..<Suc i]"
    by (simp add: upt_conv_Cons [of 0] filter_map comp_def del: upt_Suc)
  have post: "map snd (filter ?Q (map (\<lambda>j. (Truck, Some (order ! j))) [Suc i..<length order])) =
      map (\<lambda>j. Some (order ! j)) [Suc i..<length order]"
    by (simp add: filter_map comp_def)
  from i(1) have split: "[Suc 0..<length order] = [Suc 0..<Suc i] @ [Suc i..<length order]"
    by (intro upt_split) simp_all
  have "map coords (filter is_delivery (composeTraversal order (Some lp) (Some d))) =
      map (\<lambda>j. Some (order ! j)) [Suc 0..<Suc i] @ [Some d] @
      map (\<lambda>j. Some (order ! j)) [Suc i..<length order]"
    using pre post
    by (simp add: composeTraversal_def i(2) is_delivery_def [abs_def]
        filter_assignLabels [of "\<lambda>ty. ty = Truck \<or> ty = DroneDelivery"] del: upt_Suc)
  then have "mset (map coords (filter is_delivery (composeTraversal order (Some lp) (Some d)))) =
      mset (map (\<lambda>j. Some (order ! j)) [Suc 0..<length order]) + {#Some d#}"
    by (simp add: split)
  also have "map (\<lambda>j. Some (order ! j)) [Suc 0..<length order] = map Some (tl order)"
    using map_nth_upt_drop [of Some order "Suc 0"] by (simp add: drop_Suc)
  finally show ?thesis .
qed

section \<open>Evaluation on the examples\<close>

lemma midDist_onMeridian:
  assumes "\<bar>(a + b) / 2 - c\<bar> \<le> 12000"
  shows "haversineDistance (fst (onMeridian c)) (snd (onMeridian c))
           ((fst (onMeridian a) + fst (onMeridian b)) / 2)
           ((snd (onMeridian a) + snd (onMeridian b)) / 2) = \<bar>(a + b) / 2 - c\<bar>"
proof -
  have "(fst (onMeridian a) + fst (onMeridian b)) / 2 = 28 + kmNorth ((a + b) / 2)"
    by (simp add: onMeridian_def kmNorth_def degNorth_def field_simps)
  moreover have "(snd (onMeridian a) + snd (onMeridian b)) / 2 = 77"
    "fst (onMeridian c) = 28 + kmNorth c" "snd (onMeridian c) = 77"
    by (simp_all add: onMeridian_def)
  ultimately show ?thesis
    using assms by (simp only: haversineDistance_kmNorth)
qed

lemmas composer_eval = findInsertIdx_def insertStep_def Let_def exPath_def exShort_def
  case_prod_beta midDist_onMeridian upt_numeral

lemma findInsertIdx_exPath [simp]: "findInsertIdx exPath (Some (onMeridian 15)) = 2"
  by (simp add: composer_eval)

lemma findInsertIdx_exShort [simp]: "findInsertIdx exShort (Some (onMeridian 7)) = 2"
  by (simp add: composer_eval)


section \<open>Properties of the composer\<close>

text \<open>
  C12: With a launch point and a route of at least two points, the traversal
  is the depot, the stops before the drone leg, the launch, the drone
  delivery, the landing, and the remaining stops; the drone leg never comes
  before the depot, each stop keeps the coordinates of the route, and the
  landing is at the launch point.
\<close>

theorem composeTraversal_shape:
  assumes "2 \<le> length order" and "k = findInsertIdx order (Some lp)"
  shows "1 \<le> k \<and> k < length order \<and>
         map type (composeTraversal order (Some lp) dd) =
           hybrid_types (k - 1) (length order - k) \<and>
         allPoints (composeTraversal order (Some lp) dd) =
           map Some (take k order) @ [Some lp, dd, Some lp] @ map Some (drop k order)"
  using findInsertIdx_found [OF assms(1), of lp] composeTraversal_types [OF assms(1), of lp dd]
    composeTraversal_coords [of order "Some lp" dd] assms
  by auto

theorem composeTraversal_shape_witness:
  "map type (composeTraversal exPath (Some (onMeridian 15)) (Some (onMeridian 14))) =
     [Hq, Truck, Launch, DroneDelivery, Landing, Truck] \<and>
   allPoints (composeTraversal exPath (Some (onMeridian 15)) (Some (onMeridian 14))) =
     map Some [onMeridian 0, onMeridian 10, onMeridian 15, onMeridian 14, onMeridian 15,
       onMeridian 20]"
proof -
  have k: "2 = findInsertIdx exPath (Some (onMeridian 15))" by simp
  have l: "2 \<le> length exPath" "length exPath - 2 = 1" "take 2 exPath = [onMeridian 0, onMeridian 10]"
    "drop 2 exPath = [onMeridian 20]"
    by (simp_all add: exPath_def)
  from composeTraversal_shape [OF l(1) k, of "Some (onMeridian 14)"] show ?thesis
    by (simp add: hybrid_types_def l)
qed

text \<open>
  The stops of type \<open>HQ\<close> and \<open>Truck\<close> of a traversal, in order, are the
  points of the route in order: composing the traversal neither drops nor
  reorders nor repeats a stop of the truck, with or without a launch point.
\<close>

theorem composeTraversal_truck_order:
  "map coords (filter on_truck (composeTraversal order lp dd)) = map Some order"
  by (rule composeTraversal_on_truck)

text \<open>
  C29: The labels of a traversal are the code units 65, 66, ... in traversal
  order, one per stop, and no two stops share a label as long as the
  traversal has at most 65471 stops.
\<close>

theorem composeTraversal_labels:
  assumes "length order + 3 \<le> 65471"
  shows "map label (composeTraversal order lp dd) =
           map (\<lambda>i. 65 + i) [0..<length order + (if lp = None then 0 else 3)] \<and>
         distinct (map label (composeTraversal order lp dd))"
proof -
  let ?n = "length order + (if lp = None then 0 else 3)"
  have "map label (composeTraversal order lp dd) =
      map getLabel [0..<length (composeTraversal order lp dd)]"
    by (simp add: composeTraversal_def Let_def)
  also have "\<dots> = map getLabel [0..<?n]"
    by (simp only: length_composeTraversal)
  also from assms have "\<dots> = map (\<lambda>i. 65 + i) [0..<?n]"
    by (intro map_cong refl getLabel_plain) (auto split: if_splits)
  finally show ?thesis by (simp add: distinct_map inj_on_def)
qed

theorem composeTraversal_labels_witness:
  "map label (composeTraversal exPath (Some (onMeridian 15)) (Some (onMeridian 14))) =
     [65, 66, 67, 68, 69, 70]"
  using composeTraversal_labels [of exPath "Some (onMeridian 15)" "Some (onMeridian 14)"]
  by (simp add: exPath_def upt_numeral)

text \<open>
  The drone leg is placed after the first segment of the route whose
  middle is nearest to the launch point: the index found is one more than the
  index of a segment whose middle is at least as near as the middle of every
  segment and strictly nearer than the middle of every earlier one.
\<close>

theorem findInsertIdx_nearest_midpoint:
  "2 \<le> length order \<Longrightarrow>
   \<exists>i < length order - 1. findInsertIdx order (Some lp) = Suc i \<and>
     (\<forall>k < length order - 1. midDist order lp i \<le> midDist order lp k) \<and>
     (\<forall>k < i. midDist order lp i < midDist order lp k)"
  by (rule findInsertIdx_found)

theorem findInsertIdx_nearest_midpoint_witness:
  "\<exists>i < 2. findInsertIdx exPath (Some (onMeridian 15)) = Suc i \<and>
     midDist exPath (onMeridian 15) i \<le> midDist exPath (onMeridian 15) 0"
  using findInsertIdx_nearest_midpoint [of exPath "onMeridian 15"]
  by (auto simp: exPath_def)

text \<open>
  C31: Without a launch point the traversal is the route with every point,
  the depot included, of type \<open>Truck\<close>: no stop of type \<open>HQ\<close> is produced.
\<close>

theorem composeTraversal_no_launch:
  "map type (composeTraversal order None dd) = replicate (length order) Truck \<and>
   allPoints (composeTraversal order None dd) = map Some order"
  by (simp add: composeTraversal_None allPoints_def comp_def map_replicate_const)


end
