(* ===== verification/Metrics.thy ===== *)
theory Metrics
  imports Composer
begin

text \<open>
  The metrics engine of \<^verbatim>\<open>PathPlanning.jsx\<close>: the time of one segment of the
  traversal (\<open>getSegmentTime\<close>), the times between consecutive stops as the
  page lists them, and the figures the page shows and stores: the truck
  distances and times before and after the launch, the time of the drone
  trip, the total time, the carbon of the truck-only and of the hybrid plan
  in kilometres, the reduction, and the time saved.  The prediction read from
  the store is the record \<open>xgb_result\<close>, absent fields and an absent
  prediction being \<open>None\<close> (\<open>drone_drone_id\<close> is the field \<open>drone_id\<close> of its field
  \<open>drone\<close>); a time that is \<open>NaN\<close> in the source is \<open>None\<close>; the
  \<open>TypeError\<close> of reading a coordinate of a launch point that is \<open>null\<close>, or of a
  path point that does not exist, is \<open>Inl TypeError\<close>.
\<close>

section \<open>Data\<close>

record xgb_result =
  predicted_time_minutes :: "real option"
  time :: "real option"
  drone_id :: "string option"
  drone_drone_id :: "string option"
  droneId' :: "string option"

record plan_stats =
  truckDistToLaunch :: real
  truckTimeToLaunch :: real
  truckDistAfter :: real
  truckTimeAfter :: real
  droneLeg :: real
  droneTripTime :: real
  totalTripTime :: real
  truckOnlyCarbon' :: real
  hybridCarbon' :: real
  carbonReduction' :: real
  carbonEmission :: real
  truckOnlyTotalTime :: real
  timeSaved :: real

definition TRUCK_EMISSION_PER_KM :: real where
  "TRUCK_EMISSION_PER_KM = 1.746"

definition DRONE_EMISSION_PER_KM :: real where
  "DRONE_EMISSION_PER_KM = 0.002"

section \<open>The time of a segment\<close>

text \<open>A value of the prediction counts when it is present and not zero.\<close>

definition truthy :: "real option \<Rightarrow> bool" where
  "truthy v \<longleftrightarrow> (case v of None \<Rightarrow> False | Some x \<Rightarrow> x \<noteq> 0)"

text \<open>The truth value of a text that may be absent: a text that is not empty.\<close>

definition truthyText :: "string option \<Rightarrow> bool" where
  "truthyText v \<longleftrightarrow> (case v of None \<Rightarrow> False | Some x \<Rightarrow> x \<noteq> [])"

definition mlMinutes :: "xgb_result option \<Rightarrow> real option" where
  "mlMinutes xgbResult =
     (case xgbResult of
        None \<Rightarrow> None
      | Some r \<Rightarrow> (case predicted_time_minutes r of Some m \<Rightarrow> Some m | None \<Rightarrow> time r))"

definition getSegmentTime ::
  "xgb_result option \<Rightarrow> latlng option \<Rightarrow> latlng option \<Rightarrow> point_type \<Rightarrow> point_type \<Rightarrow>
   real option" where
  "getSegmentTime xgbResult ptA ptB typeA typeB =
     (case (ptA, ptB) of
        (Some (latA, lngA), Some (latB, lngB)) \<Rightarrow>
          let dist = haversineDistance latA lngA latB lngB;
              ml = mlMinutes xgbResult
          in if (typeA = Launch \<and> typeB = DroneDelivery) \<or>
                (typeA = DroneDelivery \<and> typeB = Landing)
             then (if truthy ml then ml else Some ((dist / 40) * 60))
             else if typeA = Hq \<or> typeB = Hq \<or>
                     (typeA = Truck \<and> typeB = Truck) \<or>
                     (typeA = Truck \<and> typeB = Launch) \<or>
                     (typeA = Launch \<and> typeB = Truck)
             then Some ((dist / 30) * 60)
             else if typeA = Landing \<and> typeB = Truck
             then Some ((dist / 30) * 60)
             else Some ((dist / 30) * 60)
      | _ \<Rightarrow> None)"

definition segmentTimes :: "xgb_result option \<Rightarrow> traversal_point list \<Rightarrow> real option list" where
  "segmentTimes xgbResult traversalPoints =
     map (\<lambda>i. getSegmentTime xgbResult
                 (coords (traversalPoints ! i)) (coords (traversalPoints ! (i + 1)))
                 (type (traversalPoints ! i)) (type (traversalPoints ! (i + 1))))
       [0..<length traversalPoints - 1]"

section \<open>The figures of the plan\<close>

definition truckLegs :: "coord \<Rightarrow> delivery list \<Rightarrow> real \<times> coord" where
  "truckLegs hq tds =
     fold (\<lambda>del (total, prevPoint).
             (total + kmC prevPoint (toCoord del), toCoord del))
       tds (0, hq)"

definition truckOnlyTotalDistance :: "coord \<Rightarrow> delivery list \<Rightarrow> delivery \<Rightarrow> real" where
  "truckOnlyTotalDistance hq tds dd =
     (let (total, prevPoint) = truckLegs hq tds
      in total + kmC prevPoint (toCoord dd))"

definition hybridTruckDistance :: "coord \<Rightarrow> delivery list \<Rightarrow> latlng \<Rightarrow> nat \<Rightarrow> real" where
  "hybridTruckDistance hq tds launchPoint launchIdx =
     (let (total, prevPoint) = truckLegs hq tds;
          total = total + haversineDistance (lat prevPoint) (lng prevPoint)
                    (fst launchPoint) (snd launchPoint)
      in if launchIdx < length tds
         then total + haversineDistance (fst launchPoint) (snd launchPoint)
                        (latitude (tds ! launchIdx)) (longitude (tds ! launchIdx))
         else total)"

definition truckOnlyTimeLoop :: "latlng list \<Rightarrow> real" where
  "truckOnlyTimeLoop optimizedNodeOrder =
     (if length optimizedNodeOrder > 1
      then fold (\<lambda>i total.
                   total + (km (optimizedNodeOrder ! (i - 1)) (optimizedNodeOrder ! i) / 30) * 60)
             [1..<length optimizedNodeOrder] 0
      else 0)"

definition droneTime :: "xgb_result option \<Rightarrow> real \<Rightarrow> real" where
  "droneTime xgbResult leg =
     (case xgbResult of
        None \<Rightarrow> (2 * leg / 40) * 60
      | Some r \<Rightarrow>
          (case predicted_time_minutes r of
             None \<Rightarrow> (2 * leg / 40) * 60
           | Some m \<Rightarrow> if m \<noteq> 0 then m else (2 * leg / 40) * 60))"

definition planStats ::
  "coord \<Rightarrow> latlng list \<Rightarrow> latlng list \<Rightarrow> delivery list \<Rightarrow> delivery \<Rightarrow> launch \<Rightarrow>
   xgb_result option \<Rightarrow> js_error + plan_stats" where
  "planStats hq truckPolyline optimizedNodeOrder tds dd lnch xgbResult =
     (let polyline = choosePolyline truckPolyline optimizedNodeOrder
      in case truckDistanceToLaunch polyline (idx lnch) (frac lnch) of
           Inl e \<Rightarrow> Inl e
         | Inr distToLaunch \<Rightarrow>
       (case truckDistanceAfterLaunch polyline (idx lnch) (frac lnch) of
           Inl e \<Rightarrow> Inl e
         | Inr distAfter \<Rightarrow>
       (case point lnch of
           None \<Rightarrow> Inl TypeError
         | Some launchPoint \<Rightarrow>
             let timeToLaunch = (distToLaunch / 30) * 60;
                 timeAfter = (distAfter / 30) * 60;
                 leg = haversineDistance (fst launchPoint) (snd launchPoint)
                         (latitude dd) (longitude dd);
                 droneTime = droneTime xgbResult leg;
                 total = timeToLaunch + max droneTime timeAfter;
                 droneDeliveryDistance = haversineDistance (fst launchPoint) (snd launchPoint)
                                           (latitude dd) (longitude dd);
                 truckOnly = truckOnlyTotalDistance hq tds dd * TRUCK_EMISSION_PER_KM;
                 hybridTruckCarbon =
                   hybridTruckDistance hq tds launchPoint (idx lnch) * TRUCK_EMISSION_PER_KM;
                 hybridDroneCarbon = droneDeliveryDistance * DRONE_EMISSION_PER_KM;
                 hybrid = hybridTruckCarbon + hybridDroneCarbon;
                 reduction = (if truckOnly > 0 then ((truckOnly - hybrid) / truckOnly) * 100 else 0);
                 truckOnlyTotal = truckOnlyTimeLoop optimizedNodeOrder
             in Inr \<lparr>truckDistToLaunch = distToLaunch, truckTimeToLaunch = timeToLaunch,
                      truckDistAfter = distAfter, truckTimeAfter = timeAfter,
                      droneLeg = leg, droneTripTime = droneTime, totalTripTime = total,
                      truckOnlyCarbon' = truckOnly, hybridCarbon' = hybrid,
                      carbonReduction' = reduction, carbonEmission = truckOnly - hybrid,
                      truckOnlyTotalTime = truckOnlyTotal, timeSaved = truckOnlyTotal - total\<rparr>)))"

section \<open>Example data\<close>

text \<open>
  A prediction of twelve minutes, a prediction that carries only the field
  \<open>time\<close>, and deliveries on the meridian of the example path.
\<close>

definition exXgb :: xgb_result where
  "exXgb = \<lparr>predicted_time_minutes = Some 12, time = None, drone_id = None,
      drone_drone_id = None, droneId' = None\<rparr>"

definition exXgbTime :: xgb_result where
  "exXgbTime = \<lparr>predicted_time_minutes = None, time = Some 12, drone_id = None,
      drone_drone_id = None, droneId' = None\<rparr>"

definition deliveryAt :: "latlng \<Rightarrow> delivery" where
  "deliveryAt p = \<lparr>weight = 1, latitude = fst p, longitude = snd p\<rparr>"

definition coordAt :: "latlng \<Rightarrow> coord" where
  "coordAt p = \<lparr>lat = fst p, lng = snd p\<rparr>"

definition exTruck :: "delivery list" where
  "exTruck = [deliveryAt (onMeridian 10), deliveryAt (onMeridian 20)]"

section \<open>The time of a segment\<close>

definition drone_segment :: "point_type \<Rightarrow> point_type \<Rightarrow> bool" where
  "drone_segment typeA typeB \<longleftrightarrow>
     typeA = Launch \<and> typeB = DroneDelivery \<or> typeA = DroneDelivery \<and> typeB = Landing"

lemma truthy_SomeD: "truthy v \<Longrightarrow> \<exists>x. v = Some x \<and> x \<noteq> 0"
  by (cases v) (simp_all add: truthy_def)

lemma getSegmentTime_truck:
  "\<not> drone_segment typeA typeB \<Longrightarrow>
   getSegmentTime xgb (Some a) (Some b) typeA typeB = Some (2 * km a b)"
  by (cases a; cases b) (auto simp: getSegmentTime_def drone_segment_def Let_def)

lemma getSegmentTime_drone:
  "drone_segment typeA typeB \<Longrightarrow>
   getSegmentTime xgb (Some a) (Some b) typeA typeB =
     (if truthy (mlMinutes xgb) then mlMinutes xgb else Some (3 / 2 * km a b))"
  by (cases a; cases b) (auto simp: getSegmentTime_def drone_segment_def Let_def)

lemma getSegmentTime_None [simp]:
  "getSegmentTime xgb None b typeA typeB = None"
  "getSegmentTime xgb a None typeA typeB = None"
  by (simp_all add: getSegmentTime_def split: option.splits)

lemma getSegmentTime_None_iff:
  "getSegmentTime xgb a b typeA typeB = None \<longleftrightarrow> a = None \<or> b = None"
proof (cases a; cases b)
  fix p q assume "a = Some p" "b = Some q"
  then show ?thesis
    by (cases "drone_segment typeA typeB"; cases "truthy (mlMinutes xgb)")
      (auto simp: getSegmentTime_truck getSegmentTime_drone dest: truthy_SomeD)
qed simp_all

lemma mlMinutes_simps [simp]:
  "mlMinutes None = None"
  "mlMinutes (Some \<lparr>predicted_time_minutes = Some m, time = t, drone_id = i1,
      drone_drone_id = i2, droneId' = i3\<rparr>) = Some m"
  "mlMinutes (Some \<lparr>predicted_time_minutes = None, time = t, drone_id = i1,
      drone_drone_id = i2, droneId' = i3\<rparr>) = t"
  by (simp_all add: mlMinutes_def)

lemma droneTime_simps [simp]:
  "droneTime None leg = 3 * leg"
  "m \<noteq> 0 \<Longrightarrow> droneTime (Some \<lparr>predicted_time_minutes = Some m, time = t, drone_id = i1,
      drone_drone_id = i2, droneId' = i3\<rparr>) leg = m"
  "droneTime (Some \<lparr>predicted_time_minutes = None, time = t, drone_id = i1,
      drone_drone_id = i2, droneId' = i3\<rparr>) leg = 3 * leg"
  "droneTime (Some \<lparr>predicted_time_minutes = Some 0, time = t, drone_id = i1,
      drone_drone_id = i2, droneId' = i3\<rparr>) leg = 3 * leg"
  by (simp_all add: droneTime_def)

lemma length_segmentTimes [simp]: "length (segmentTimes xgb tr) = length tr - 1"
  by (simp add: segmentTimes_def)

lemma segmentTimes_defined:
  assumes "\<And>p. p \<in> set tr \<Longrightarrow> coords p \<noteq> None" and "x \<in> set (segmentTimes xgb tr)"
  shows "x \<noteq> None"
proof -
  from assms(2) obtain i where i: "i < length tr - 1"
    and x: "x = getSegmentTime xgb (coords (tr ! i)) (coords (tr ! (i + 1)))
      (type (tr ! i)) (type (tr ! (i + 1)))"
    by (auto simp: segmentTimes_def)
  from i assms(1) have "coords (tr ! i) \<noteq> None" "coords (tr ! (i + 1)) \<noteq> None"
    by simp_all
  with x show ?thesis by (simp add: getSegmentTime_None_iff)
qed

section \<open>The loops as route lengths\<close>

lemma truckLegs_legs:
  "truckLegs hq tds = (legs_sum kmC (hq # map toCoord tds), last (hq # map toCoord tds))"
  unfolding truckLegs_def using fold_prev_legs [of kmC toCoord tds 0 hq] by simp

lemma truckOnlyTotalDistance_legs:
  "truckOnlyTotalDistance hq tds dd = legs_sum kmC (hq # map toCoord tds @ [toCoord dd])"
  using legs_sum_snoc [of "hq # map toCoord tds" kmC "toCoord dd"]
  by (simp add: truckOnlyTotalDistance_def truckLegs_legs)

lemma hybridTruckDistance_legs:
  "hybridTruckDistance hq tds lp i =
     legs_sum kmC (hq # map toCoord tds @ [coordAt lp]) +
     (if i < length tds then km lp (pos (tds ! i)) else 0)"
  using legs_sum_snoc [of "hq # map toCoord tds" kmC "coordAt lp"]
  by (simp add: hybridTruckDistance_def truckLegs_legs coordAt_def Let_def)

lemma truckOnlyTimeLoop_legs: "truckOnlyTimeLoop order = 2 * legs_sum km order"
proof (cases "length order > 1")
  case True
  let ?d = "\<lambda>p q. 2 * km p q"
  from True have l: "Suc (length order - 1) = length order" by simp
  have "fold (\<lambda>i s. s + ?d (order ! (i - 1)) (order ! i)) [Suc 0..<Suc (length order - 1)] 0 =
      0 + legs_sum ?d (drop 0 (take (Suc (length order - 1)) order))"
    using True by (intro fold_idx_legs) simp_all
  with True show ?thesis
    unfolding l by (simp add: truckOnlyTimeLoop_def legs_sum_scale_left del: upt_Suc)
next
  case False
  then have "order = [] \<or> (\<exists>p. order = [p])"
    by (cases order) auto
  then have "legs_sum km order = 0" by auto
  with False show ?thesis by (simp add: truckOnlyTimeLoop_def)
qed

section \<open>The figures of the plan\<close>

lemma planStats_Inr:
  assumes "truckDistanceToLaunch (choosePolyline tp order) (idx l) (frac l) = Inr a"
    and "truckDistanceAfterLaunch (choosePolyline tp order) (idx l) (frac l) = Inr b"
    and "point l = Some lp"
  shows "planStats hq tp order tds dd l xgb =
     Inr \<lparr>truckDistToLaunch = a, truckTimeToLaunch = 2 * a,
          truckDistAfter = b, truckTimeAfter = 2 * b,
          droneLeg = km lp (pos dd), droneTripTime = droneTime xgb (km lp (pos dd)),
          totalTripTime = 2 * a + max (droneTime xgb (km lp (pos dd))) (2 * b),
          truckOnlyCarbon' = truckOnlyTotalDistance hq tds dd * TRUCK_EMISSION_PER_KM,
          hybridCarbon' = hybridTruckDistance hq tds lp (idx l) * TRUCK_EMISSION_PER_KM +
            km lp (pos dd) * DRONE_EMISSION_PER_KM,
          carbonReduction' =
            (if truckOnlyTotalDistance hq tds dd * TRUCK_EMISSION_PER_KM > 0
             then (truckOnlyTotalDistance hq tds dd * TRUCK_EMISSION_PER_KM -
                   (hybridTruckDistance hq tds lp (idx l) * TRUCK_EMISSION_PER_KM +
                    km lp (pos dd) * DRONE_EMISSION_PER_KM)) /
                  (truckOnlyTotalDistance hq tds dd * TRUCK_EMISSION_PER_KM) * 100
             else 0),
          carbonEmission = truckOnlyTotalDistance hq tds dd * TRUCK_EMISSION_PER_KM -
            (hybridTruckDistance hq tds lp (idx l) * TRUCK_EMISSION_PER_KM +
             km lp (pos dd) * DRONE_EMISSION_PER_KM),
          truckOnlyTotalTime = 2 * legs_sum km order,
          timeSaved = 2 * legs_sum km order -
            (2 * a + max (droneTime xgb (km lp (pos dd))) (2 * b))\<rparr>"
  using assms by (simp add: planStats_def Let_def truckOnlyTimeLoop_legs)

lemma planStats_Inl_iff:
  "planStats hq tp order tds dd l xgb = Inl TypeError \<longleftrightarrow>
     truckDistanceToLaunch (choosePolyline tp order) (idx l) (frac l) = Inl TypeError \<or>
     truckDistanceAfterLaunch (choosePolyline tp order) (idx l) (frac l) = Inl TypeError \<or>
     point l = None"
  by (cases "truckDistanceToLaunch (choosePolyline tp order) (idx l) (frac l)";
      cases "truckDistanceAfterLaunch (choosePolyline tp order) (idx l) (frac l)";
      cases "point l")
    (simp_all add: planStats_def Let_def)

lemma planStats_InrD:
  assumes "planStats hq tp order tds dd l xgb = Inr m"
  shows "\<exists>a b lp. truckDistanceToLaunch (choosePolyline tp order) (idx l) (frac l) = Inr a \<and>
     truckDistanceAfterLaunch (choosePolyline tp order) (idx l) (frac l) = Inr b \<and>
     point l = Some lp"
proof -
  from assms have "planStats hq tp order tds dd l xgb \<noteq> Inl TypeError" by simp
  then show ?thesis
    by (simp add: planStats_Inl_iff not_Inl_js_error)
qed

lemma truckOnlyTotalDistance_nonneg: "0 \<le> truckOnlyTotalDistance hq tds dd"
  unfolding truckOnlyTotalDistance_legs by (rule legs_sum_nonneg) simp

lemma hybridTruckDistance_nonneg: "0 \<le> hybridTruckDistance hq tds lp i"
proof -
  have "0 \<le> legs_sum kmC (hq # map toCoord tds @ [coordAt lp])"
    by (rule legs_sum_nonneg) simp
  then show ?thesis by (simp add: hybridTruckDistance_legs)
qed

lemma reduction_le_100:
  fixes T H :: real
  assumes "0 \<le> H"
  shows "(if T > 0 then (T - H) / T * 100 else 0) \<le> 100"
proof (cases "T > 0")
  case True
  with assms have "(T - H) / T \<le> 1" by (simp add: field_simps)
  then have "(T - H) / T * 100 \<le> 1 * 100" by (intro mult_right_mono) simp_all
  with True show ?thesis by (simp del: times_divide_eq_left)
qed simp

lemma planStats_short:
  assumes "length (choosePolyline tp order) \<le> 1 \<or> target = None"
  shows "planStats hq tp order tds dd (locateLaunch tp order target) xgb = Inl TypeError"
proof -
  from assms have "locateLaunch tp order target = \<lparr>point = None, idx = 0, frac = 0\<rparr>"
    by (auto simp: locateLaunch_short)
  then show ?thesis by (simp add: planStats_Inl_iff)
qed

lemma planStats_found:
  assumes "2 \<le> length (choosePolyline tp order)"
  shows "\<exists>m lp. planStats hq tp order tds dd (locateLaunch tp order (Some tgt)) xgb = Inr m \<and>
           point (locateLaunch tp order (Some tgt)) = Some lp"
proof -
  let ?l = "locateLaunch tp order (Some tgt)"
  from locateLaunch_on_path [OF assms, of tgt] obtain lp
    where l: "idx ?l + 1 < length (choosePolyline tp order)" "point ?l = Some lp"
    by blast
  from l(1) obtain a b
    where "truckDistanceToLaunch (choosePolyline tp order) (idx ?l) (frac ?l) = Inr a"
      "truckDistanceAfterLaunch (choosePolyline tp order) (idx ?l) (frac ?l) = Inr b"
    by (rule truckDistance_sum)
  with l(2) show ?thesis by (simp add: planStats_Inr)
qed

section \<open>Evaluation on the examples\<close>

lemma deliveryAt_simps [simp]:
  "toCoord (deliveryAt p) = coordAt p" "pos (deliveryAt p) = p"
  "lat (coordAt p) = fst p" "lng (coordAt p) = snd p"
  "latitude (deliveryAt p) = fst p" "longitude (deliveryAt p) = snd p"
  by (simp_all add: deliveryAt_def coordAt_def toCoord_def pos_def)

lemmas metrics_eval = TRUCK_EMISSION_PER_KM_def DRONE_EMISSION_PER_KM_def exTruck_def
  truckOnlyTotalDistance_legs hybridTruckDistance_legs km_onMeridian

lemma planStats_exPath:
  "planStats (coordAt (onMeridian 0)) [] exPath exTruck (deliveryAt (onMeridian 14))
     (locateLaunch [] exPath (Some (onMeridian 14))) None =
   Inr \<lparr>truckDistToLaunch = 14, truckTimeToLaunch = 28, truckDistAfter = 6, truckTimeAfter = 12,
        droneLeg = 0, droneTripTime = 0, totalTripTime = 40,
        truckOnlyCarbon' = 26 * 1.746, hybridCarbon' = 32 * 1.746,
        carbonReduction' = - 300 / 13, carbonEmission = - 6 * 1.746,
        truckOnlyTotalTime = 40, timeSaved = 0\<rparr>"
proof -
  have "truckDistanceToLaunch exPath 1 (2 / 5) = Inr 14"
    "truckDistanceAfterLaunch exPath 1 (2 / 5) = Inr 6" "legs_sum km exPath = 20"
    by (simp_all add: locator_eval)
  then show ?thesis
    unfolding locateLaunch_exPath
    by (simp add: planStats_Inr [where a = 14 and b = 6 and lp = "onMeridian 14"] metrics_eval)
qed

section \<open>Properties of the metrics\<close>

text \<open>
  C13: When the path has at least two points and the launch is the one found
  for the position of the drone delivery, the figures are defined: the total
  time is the truck time to the launch plus the greater of the drone time and
  the truck time after the launch, truck times are two minutes per kilometre,
  no distance is negative, the truck-only time is two minutes per kilometre
  of the route, and the time saved is their difference.
\<close>

theorem planStats_defined:
  assumes "2 \<le> length (choosePolyline tp order)"
    and "l = locateLaunch tp order (Some (pos dd))"
  shows "\<exists>m. planStats hq tp order tds dd l xgb = Inr m \<and>
           totalTripTime m = truckTimeToLaunch m + max (droneTripTime m) (truckTimeAfter m) \<and>
           truckTimeToLaunch m = 2 * truckDistToLaunch m \<and>
           truckTimeAfter m = 2 * truckDistAfter m \<and>
           0 \<le> truckDistToLaunch m \<and> 0 \<le> truckDistAfter m \<and>
           truckOnlyTotalTime m = 2 * legs_sum km order \<and>
           timeSaved m = truckOnlyTotalTime m - totalTripTime m"
proof -
  from locateLaunch_on_path [OF assms(1), of "pos dd"] assms(2)
  obtain lp where l: "idx l + 1 < length (choosePolyline tp order)" "point l = Some lp"
    by blast
  from l(1) obtain a b
    where "truckDistanceToLaunch (choosePolyline tp order) (idx l) (frac l) = Inr a"
      "truckDistanceAfterLaunch (choosePolyline tp order) (idx l) (frac l) = Inr b"
      "0 \<le> a" "0 \<le> b"
    by (rule truckDistance_sum)
  with l(2) show ?thesis by (simp add: planStats_Inr)
qed

theorem planStats_defined_witness:
  "\<exists>m. planStats (coordAt (onMeridian 0)) [] exPath exTruck (deliveryAt (onMeridian 14))
         (locateLaunch [] exPath (Some (onMeridian 14))) None = Inr m \<and>
       totalTripTime m = 40 \<and> timeSaved m = 0"
  using planStats_defined [of "[]" exPath "locateLaunch [] exPath (Some (onMeridian 14))"
      "deliveryAt (onMeridian 14)" "coordAt (onMeridian 0)" exTruck None]
  by (simp add: planStats_exPath)

text \<open>
  When the path has fewer than two points, or there is no position of a
  drone delivery to search for, no launch point is found and the figures are
  not defined: computing them ends in a \<open>TypeError\<close>.
\<close>

theorem planStats_degenerate:
  assumes "length (choosePolyline tp order) \<le> 1 \<or> target = None"
  shows "planStats hq tp order tds dd (locateLaunch tp order target) xgb = Inl TypeError"
  using assms by (rule planStats_short)

theorem planStats_degenerate_witness:
  "planStats (coordAt (onMeridian 0)) [] [onMeridian 0] [] (deliveryAt (onMeridian 14))
     (locateLaunch [] [onMeridian 0] (Some (onMeridian 14))) None = Inl TypeError"
  using planStats_degenerate [of "[]" "[onMeridian 0]" "Some (onMeridian 14)"]
  by simp

text \<open>
  C14: The carbon figures of a plan are route lengths times the emission
  factors: the truck-only carbon is 1.746 times the length of the route from
  the depot through the truck deliveries, in stored order, to the drone
  delivery; the hybrid carbon is 1.746 times the length of the route from the
  depot through the truck deliveries to the launch point, plus the distance
  from the launch point to the truck delivery whose index is the launch
  segment, and 0.002 times the drone leg.  The reduction is at most 100
  percent and is 0 when the truck-only carbon is 0.
\<close>

theorem planStats_carbon:
  assumes "planStats hq tp order tds dd l xgb = Inr m" and "point l = Some lp"
  shows "truckOnlyCarbon' m = legs_sum kmC (hq # map toCoord tds @ [toCoord dd]) * 1.746 \<and>
         hybridCarbon' m =
           (legs_sum kmC (hq # map toCoord tds @ [coordAt lp]) +
            (if idx l < length tds then km lp (pos (tds ! idx l)) else 0)) * 1.746 +
           km lp (pos dd) * 0.002 \<and>
         carbonEmission m = truckOnlyCarbon' m - hybridCarbon' m \<and>
         carbonReduction' m \<le> 100 \<and>
         (truckOnlyCarbon' m = 0 \<longrightarrow> carbonReduction' m = 0)"
proof -
  from planStats_InrD [OF assms(1)] assms(2) obtain a b
    where "truckDistanceToLaunch (choosePolyline tp order) (idx l) (frac l) = Inr a"
      "truckDistanceAfterLaunch (choosePolyline tp order) (idx l) (frac l) = Inr b"
    by auto
  from planStats_Inr [OF this assms(2), of hq tds dd xgb] assms(1)
  have m: "truckOnlyCarbon' m = truckOnlyTotalDistance hq tds dd * TRUCK_EMISSION_PER_KM"
    "hybridCarbon' m = hybridTruckDistance hq tds lp (idx l) * TRUCK_EMISSION_PER_KM +
       km lp (pos dd) * DRONE_EMISSION_PER_KM"
    "carbonEmission m = truckOnlyCarbon' m - hybridCarbon' m"
    "carbonReduction' m =
       (if truckOnlyCarbon' m > 0 then (truckOnlyCarbon' m - hybridCarbon' m) / truckOnlyCarbon' m * 100
        else 0)"
    by auto
  have "0 \<le> hybridCarbon' m"
    unfolding m(2) using hybridTruckDistance_nonneg [of hq tds lp "idx l"]
    by (simp add: TRUCK_EMISSION_PER_KM_def DRONE_EMISSION_PER_KM_def)
  then have "carbonReduction' m \<le> 100"
    unfolding m(4) by (rule reduction_le_100)
  moreover have "truckOnlyCarbon' m = 0 \<longrightarrow> carbonReduction' m = 0"
    by (simp add: m(4))
  ultimately show ?thesis
    using m(1-3)
    by (simp add: truckOnlyTotalDistance_legs hybridTruckDistance_legs
        TRUCK_EMISSION_PER_KM_def DRONE_EMISSION_PER_KM_def)
qed

theorem planStats_carbon_witness:
  "truckOnlyCarbon'
     \<lparr>truckDistToLaunch = 14, truckTimeToLaunch = 28, truckDistAfter = 6, truckTimeAfter = 12,
        droneLeg = 0, droneTripTime = 0, totalTripTime = 40,
        truckOnlyCarbon' = 26 * 1.746, hybridCarbon' = 32 * 1.746,
        carbonReduction' = - 300 / 13, carbonEmission = - 6 * 1.746,
        truckOnlyTotalTime = 40, timeSaved = 0\<rparr> =
   legs_sum kmC (coordAt (onMeridian 0) # map toCoord exTruck @ [toCoord (deliveryAt (onMeridian 14))]) *
     1.746"
  using planStats_carbon [OF planStats_exPath, of "onMeridian 14"]
  by (simp add: locateLaunch_exPath)


text \<open>
  The time of a segment between two stops with coordinates is the
  prediction, when one is present and not zero, on the two segments of the
  drone leg, and otherwise the distance at 40 kilometres per hour on those
  segments and at 30 kilometres per hour on every other segment; the four
  truck cases of the source agree.  The time is undefined exactly when a
  coordinate is missing.
\<close>

theorem getSegmentTime_cases:
  "getSegmentTime xgb (Some a) (Some b) typeA typeB =
     (if typeA = Launch \<and> typeB = DroneDelivery \<or> typeA = DroneDelivery \<and> typeB = Landing
      then (if truthy (mlMinutes xgb) then mlMinutes xgb else Some (km a b / 40 * 60))
      else Some (km a b / 30 * 60)) \<and>
   (getSegmentTime xgb pa pb typeA typeB = None \<longleftrightarrow> pa = None \<or> pb = None)"
  using getSegmentTime_truck [of typeA typeB xgb a b] getSegmentTime_drone [of typeA typeB xgb a b]
  by (simp add: getSegmentTime_None_iff drone_segment_def)

text \<open>
  The loop that adds up the truck-only time gives the length of the route
  of the sequencer at 30 kilometres per hour, in minutes.
\<close>

theorem truckOnlyTimeLoop_route:
  "truckOnlyTimeLoop order = legs_sum km order / 30 * 60"
  by (simp add: truckOnlyTimeLoop_legs)


end
