(* ===== verification/Format.thy ===== *)
theory Format
  imports Hybrid_Prelude
begin

text \<open>
  The text of a duration, \<open>formatTimeMinutes\<close> of \<^verbatim>\<open>PathPlanning.jsx\<close>.  Its
  argument is a number of minutes, \<open>None\<close> standing for \<open>undefined\<close>, \<open>null\<close> and
  \<open>NaN\<close>; the number is rounded to whole seconds and printed as hours,
  minutes and seconds.  \<open>string_of_nat\<close> is the decimal text that a template
  literal gives for a natural number, and \<open>trim\<close> removes the spaces at both
  ends of a text.
\<close>

section \<open>Decimal text\<close>

definition digit :: "nat \<Rightarrow> char" where
  "digit n = ''0123456789'' ! n"

function string_of_nat :: "nat \<Rightarrow> string" where
  "string_of_nat n =
     (if n < 10 then [digit n] else string_of_nat (n div 10) @ [digit (n mod 10)])"
  by pat_completeness auto

termination
  by (relation "measure id") auto

definition trim :: "string \<Rightarrow> string" where
  "trim s = rev (dropWhile (\<lambda>c. c = CHR '' '') (rev (dropWhile (\<lambda>c. c = CHR '' '') s)))"

section \<open>The text of a duration\<close>

definition formatTimeMinutes :: "real option \<Rightarrow> string" where
  "formatTimeMinutes minutes =
     (case minutes of
        None \<Rightarrow> ''N/A''
      | Some m \<Rightarrow>
          let totalSeconds = js_round (m * 60)
          in if totalSeconds < 0 then ''N/A''
             else
               let hours = nat totalSeconds div 3600;
                   mins = (nat totalSeconds mod 3600) div 60;
                   seconds = nat totalSeconds mod 60;
                   result = [];
                   result = (if hours > 0 then result @ string_of_nat hours @ '' hr '' else result);
                   result = (if mins > 0 \<or> hours > 0
                             then result @ string_of_nat mins @ '' min '' else result);
                   result = result @ string_of_nat seconds @ '' sec''
               in trim result)"

section \<open>Reading decimal text\<close>

text \<open>The value of a digit and of a decimal text, the reference for \<open>string_of_nat\<close>.\<close>

definition digit_val :: "char \<Rightarrow> nat" where
  "digit_val c = of_char c - 48"

definition nat_of_string :: "string \<Rightarrow> nat" where
  "nat_of_string s = foldl (\<lambda>a c. 10 * a + digit_val c) 0 s"

definition is_digit :: "char \<Rightarrow> bool" where
  "is_digit c \<longleftrightarrow> c \<in> set ''0123456789''"

section \<open>Decimal text\<close>

declare string_of_nat.simps [simp del]

lemma digit_simps [simp]:
  "digit 0 = CHR ''0''" "digit (Suc 0) = CHR ''1''" "digit 2 = CHR ''2''" "digit 3 = CHR ''3''"
  "digit 4 = CHR ''4''" "digit 5 = CHR ''5''" "digit 6 = CHR ''6''" "digit 7 = CHR ''7''"
  "digit 8 = CHR ''8''" "digit 9 = CHR ''9''"
  by (simp_all add: digit_def)

lemma digit_cases:
  fixes n :: nat
  assumes "n < 10"
  obtains "n = 0" | "n = 1" | "n = 2" | "n = 3" | "n = 4" | "n = 5" | "n = 6" | "n = 7"
    | "n = 8" | "n = 9"
  using assms by atomize_elim arith

lemma digit_val_digit [simp]: "n < 10 \<Longrightarrow> digit_val (digit n) = n"
  by (erule digit_cases) (simp_all add: digit_val_def)

lemma is_digit_digit [simp]: "n < 10 \<Longrightarrow> is_digit (digit n)"
  by (erule digit_cases) (simp_all add: is_digit_def)

lemma is_digit_not_space [simp]: "is_digit c \<Longrightarrow> c \<noteq> CHR '' ''"
  by (auto simp: is_digit_def)

lemma string_of_nat_digits: "\<forall>c \<in> set (string_of_nat n). is_digit c"
  by (induction n rule: string_of_nat.induct) (subst string_of_nat.simps, simp)

lemma string_of_nat_not_Nil [simp]: "string_of_nat n \<noteq> []"
  by (subst string_of_nat.simps) simp

lemma nat_of_string_snoc [simp]: "nat_of_string (s @ [c]) = 10 * nat_of_string s + digit_val c"
  by (simp add: nat_of_string_def)


lemma string_of_nat_small: "n < 10 \<Longrightarrow> string_of_nat n = [digit n]"
  by (subst string_of_nat.simps) simp

lemma string_of_nat_two: "10 \<le> n \<Longrightarrow> n < 100 \<Longrightarrow> string_of_nat n = [digit (n div 10), digit (n mod 10)]"
  by (subst string_of_nat.simps) (simp add: string_of_nat_small)

section \<open>Trimming\<close>

lemma trim_id:
  assumes "s \<noteq> []" and "hd s \<noteq> CHR '' ''" and "last s \<noteq> CHR '' ''"
  shows "trim s = s"
proof -
  from assms(1,2) have "dropWhile (\<lambda>c. c = CHR '' '') s = s"
    by (cases s) simp_all
  moreover from assms(1,3) have "dropWhile (\<lambda>c. c = CHR '' '') (rev s) = rev s"
    by (cases "rev s") (simp_all add: last_rev [symmetric] del: last_rev)
  ultimately show ?thesis by (simp add: trim_def)
qed

section \<open>The text of a duration\<close>

lemma hd_string_of_nat: "hd (string_of_nat n) \<noteq> CHR '' ''"
  using string_of_nat_digits [of n] hd_in_set [of "string_of_nat n"] by auto

lemma formatTimeMinutes_None [simp]: "formatTimeMinutes None = ''N/A''"
  by (simp add: formatTimeMinutes_def)

lemma formatTimeMinutes_negative:
  "js_round (m * 60) < 0 \<Longrightarrow> formatTimeMinutes (Some m) = ''N/A''"
  by (simp add: formatTimeMinutes_def)

lemma formatTimeMinutes_Some:
  assumes "0 \<le> js_round (m * 60)"
  shows "formatTimeMinutes (Some m) =
    (if 0 < nat (js_round (m * 60)) div 3600
     then string_of_nat (nat (js_round (m * 60)) div 3600) @ '' hr '' else []) @
    (if 0 < nat (js_round (m * 60)) mod 3600 div 60 \<or> 0 < nat (js_round (m * 60)) div 3600
     then string_of_nat (nat (js_round (m * 60)) mod 3600 div 60) @ '' min '' else []) @
    string_of_nat (nat (js_round (m * 60)) mod 60) @ '' sec''"
  (is "_ = ?text")
proof -
  have "?text \<noteq> []" "hd ?text \<noteq> CHR '' ''" "last ?text \<noteq> CHR '' ''"
    by (simp_all add: hd_append hd_string_of_nat)
  then have t: "trim ?text = ?text" by (rule trim_id)
  from assms have f: "formatTimeMinutes (Some m) = trim ?text"
    by (simp add: formatTimeMinutes_def Let_def)
  show ?thesis unfolding f t ..
qed

lemma js_round_numeral [simp]: "js_round (numeral k) = numeral k"
  using js_round_of_int [of "numeral k"] by simp

lemmas format_eval = formatTimeMinutes_Some string_of_nat_small string_of_nat_two

section \<open>Properties of the text\<close>

text \<open>
  C37: A duration that does not round to a negative number of seconds is
  printed as its hours, when there are any, its minutes, when there are
  minutes or hours, and its seconds, each followed by its unit; the three
  numbers make up the rounded number of seconds, minutes and seconds are
  below 60, and trimming removes nothing.
\<close>

theorem formatTimeMinutes_text:
  assumes "0 \<le> js_round (m * 60)" and "s = nat (js_round (m * 60))"
  shows "formatTimeMinutes (Some m) =
           (if 0 < s div 3600 then string_of_nat (s div 3600) @ '' hr '' else []) @
           (if 0 < s mod 3600 div 60 \<or> 0 < s div 3600
            then string_of_nat (s mod 3600 div 60) @ '' min '' else []) @
           string_of_nat (s mod 60) @ '' sec'' \<and>
         s div 3600 * 3600 + s mod 3600 div 60 * 60 + s mod 60 = s \<and>
         s mod 3600 div 60 < 60 \<and> s mod 60 < 60"
proof -
  have a: "s div 3600 * 3600 + s mod 3600 = s"
    and b: "s mod 3600 div 60 * 60 + s mod 3600 mod 60 = s mod 3600"
    by (rule div_mult_mod_eq)+
  have c: "s mod 3600 mod 60 = s mod 60"
    by (rule mod_mod_cancel) simp
  have "s div 3600 * 3600 + s mod 3600 div 60 * 60 + s mod 60 = s"
    unfolding c [symmetric] add.assoc b a ..
  moreover have "s mod 3600 div 60 < 60"
    by (simp add: less_mult_imp_div_less)
  ultimately show ?thesis
    unfolding assms(2) by (simp add: formatTimeMinutes_Some assms(1))
qed

theorem formatTimeMinutes_text_witness:
  "formatTimeMinutes (Some 61.5) = ''1 hr 1 min 30 sec'' \<and>
   formatTimeMinutes (Some 12) = ''12 min 0 sec'' \<and>
   formatTimeMinutes (Some 0.5) = ''30 sec''"
  using formatTimeMinutes_text [of "61.5" 3690] formatTimeMinutes_text [of 12 720]
    formatTimeMinutes_text [of "0.5" 30]
  by (simp add: string_of_nat_small string_of_nat_two)

text \<open>
  The text is \<open>N/A\<close> exactly when the duration is missing or rounds to a
  negative number of seconds, that is, when it is below minus half a second.
\<close>

theorem formatTimeMinutes_NA_iff:
  "formatTimeMinutes v = ''N/A'' \<longleftrightarrow> v = None \<or> (\<exists>m. v = Some m \<and> m * 60 < - 1 / 2)"
proof (cases v)
  case None
  then show ?thesis by simp
next
  case (Some m)
  have neg: "js_round (m * 60) < 0 \<longleftrightarrow> m * 60 < - 1 / 2"
    by (auto simp: js_round_def floor_less_iff)
  show ?thesis
  proof (cases "js_round (m * 60) < 0")
    case True
    with Some neg show ?thesis by (simp add: formatTimeMinutes_negative)
  next
    case False
    then have "last (formatTimeMinutes (Some m)) = CHR ''c''"
      by (simp add: formatTimeMinutes_Some)
    then have "formatTimeMinutes (Some m) \<noteq> ''N/A''" by auto
    with False Some neg show ?thesis by simp
  qed
qed


end
