(* ===== verification/PlanPage.thy ===== *)
theory PlanPage
  imports Optimizer Sequencer Metrics
begin

text \<open>
  The body of the component \<open>PathPlanning\<close> of \<^verbatim>\<open>PathPlanning.jsx\<close> as one
  function from its state (the plan loaded from the store, the road polyline,
  the prediction) to what it shows: the route of the sequencer over the truck
  deliveries of the plan, the launch found on the path, the traversal, and
  the figures.  The result is \<open>Loading\<close> while there is no plan, the view
  \<open>Planned\<close> with the traversal, the figures and the times between stops, or
  the \<open>TypeError\<close> that ends the rendering.  The depot of the page, \<open>pageHQ\<close>, is
  the depot that the stored plan names in \<open>hqLat\<close> and \<open>hqLng\<close>, and otherwise the
  constant \<open>DEFAULT_HQ\<close>, the same point as \<open>HQ\<close> of the form; the drone delivery
  of the page, \<open>pageDroneDelivery\<close>, is the delivery that the stored plan names in
  \<open>mlPredictedDelivery\<close>, and otherwise the drone delivery of the plan.  A plan
  written by the form has none of the three fields.
\<close>

section \<open>The view\<close>

datatype view = Loading | Planned "traversal_point list" plan_stats "real option list"

definition DEFAULT_HQ :: coord where
  "DEFAULT_HQ = \<lparr>lat = 12.9716, lng = 77.5946\<rparr>"

definition pageHQ :: "trip option \<Rightarrow> coord" where
  "pageHQ trip =
     (case trip of
        None \<Rightarrow> DEFAULT_HQ
      | Some t \<Rightarrow>
          (case (hqLat t, hqLng t) of
             (Some la, Some lo) \<Rightarrow>
               if la \<noteq> 0 \<and> lo \<noteq> 0 then \<lparr>lat = la, lng = lo\<rparr> else DEFAULT_HQ
           | _ \<Rightarrow> DEFAULT_HQ))"

definition pageDroneDelivery :: "trip \<Rightarrow> delivery" where
  "pageDroneDelivery t =
     (case mlPredictedDelivery t of Some d \<Rightarrow> d | None \<Rightarrow> droneDelivery t)"

definition optimizedNodeOrder :: "trip option \<Rightarrow> latlng list" where
  "optimizedNodeOrder trip =
     (let hq = pageHQ trip
      in case trip of
           None \<Rightarrow> [(lat hq, lng hq), (lat hq, lng hq)]
         | Some t \<Rightarrow> nearestNeighborRoute hq (truckDeliveries t))"

text \<open>
  The road polyline after the effect that asks the routing service: the route
  is requested only for a route of more than one point; \<open>routed\<close> is what the
  service returned, the empty list when it failed.
\<close>

definition fetchRoute :: "latlng list \<Rightarrow> latlng list \<Rightarrow> latlng list" where
  "fetchRoute order routed = (if length order > 1 then routed else [])"

definition renderPlan :: "trip option \<Rightarrow> latlng list \<Rightarrow> xgb_result option \<Rightarrow> js_error + view" where
  "renderPlan trip truckPolyline xgbResult =
     (let order = optimizedNodeOrder trip;
          target = map_option (\<lambda>t. pos (pageDroneDelivery t)) trip;
          l = locateLaunch truckPolyline order target;
          traversalPoints = composeTraversal order (point l) target
      in case trip of
           None \<Rightarrow> Inr Loading
         | Some t \<Rightarrow>
             (case planStats (pageHQ trip) truckPolyline order (truckDeliveries t)
                     (pageDroneDelivery t) l xgbResult of
                Inl e \<Rightarrow> Inl e
              | Inr m \<Rightarrow>
                  Inr (Planned traversalPoints m (segmentTimes xgbResult traversalPoints))))"

section \<open>The route of the page\<close>

lemma DEFAULT_HQ_HQ: "DEFAULT_HQ = HQ"
  by (simp add: DEFAULT_HQ_def HQ_def)

lemma pageHQ_plain [simp]:
  "pageHQ None = DEFAULT_HQ"
  "hqLat t = None \<Longrightarrow> pageHQ (Some t) = DEFAULT_HQ"
  "hqLng t = None \<Longrightarrow> pageHQ (Some t) = DEFAULT_HQ"
  by (simp_all add: pageHQ_def split: option.splits)

lemma pageHQ_named:
  "la \<noteq> 0 \<Longrightarrow> lo \<noteq> 0 \<Longrightarrow>
   pageHQ (Some (t\<lparr>hqLat := Some la, hqLng := Some lo\<rparr>)) = \<lparr>lat = la, lng = lo\<rparr>"
  by (simp add: pageHQ_def)

lemma pageDroneDelivery_simps [simp]:
  "mlPredictedDelivery t = None \<Longrightarrow> pageDroneDelivery t = droneDelivery t"
  "mlPredictedDelivery t = Some d \<Longrightarrow> pageDroneDelivery t = d"
  by (simp_all add: pageDroneDelivery_def)

lemma length_optimizedNodeOrder:
  "length (optimizedNodeOrder trip) =
     (case trip of None \<Rightarrow> 2 | Some t \<Rightarrow> Suc (length (truckDeliveries t)))"
  by (simp add: optimizedNodeOrder_def Let_def split: option.splits)

lemma renderPlan_None [simp]: "renderPlan None tp xgb = Inr Loading"
  by (simp add: renderPlan_def)

lemma renderPlan_Some:
  "renderPlan (Some t) tp xgb =
     (case planStats (pageHQ (Some t)) tp (optimizedNodeOrder (Some t)) (truckDeliveries t)
             (pageDroneDelivery t)
             (locateLaunch tp (optimizedNodeOrder (Some t)) (Some (pos (pageDroneDelivery t)))) xgb of
        Inl e \<Rightarrow> Inl e
      | Inr m \<Rightarrow>
          Inr (Planned
            (composeTraversal (optimizedNodeOrder (Some t))
               (point (locateLaunch tp (optimizedNodeOrder (Some t)) (Some (pos (pageDroneDelivery t)))))
               (Some (pos (pageDroneDelivery t))))
            m
            (segmentTimes xgb
              (composeTraversal (optimizedNodeOrder (Some t))
                 (point (locateLaunch tp (optimizedNodeOrder (Some t))
                    (Some (pos (pageDroneDelivery t)))))
                 (Some (pos (pageDroneDelivery t)))))))"
  by (simp add: renderPlan_def Let_def)

section \<open>When the page shows a plan\<close>

lemma choosePolyline_fetchRoute:
  "length (choosePolyline (fetchRoute order routed) order) \<le> 1 \<longleftrightarrow> length order \<le> 1"
  by (auto simp: choosePolyline_def fetchRoute_def)

lemma renderPlan_no_truck:
  assumes "truckDeliveries t = []"
  shows "renderPlan (Some t) (fetchRoute (optimizedNodeOrder (Some t)) routed) xgb = Inl TypeError"
proof -
  let ?order = "optimizedNodeOrder (Some t)"
  from assms have "length ?order \<le> 1"
    by (simp add: length_optimizedNodeOrder)
  then have "length (choosePolyline (fetchRoute ?order routed) ?order) \<le> 1"
    by (simp only: choosePolyline_fetchRoute)
  then have "planStats (pageHQ (Some t)) (fetchRoute ?order routed) ?order (truckDeliveries t)
      (pageDroneDelivery t)
      (locateLaunch (fetchRoute ?order routed) ?order (Some (pos (pageDroneDelivery t)))) xgb =
      Inl TypeError"
    by (intro planStats_short) simp
  then show ?thesis by (simp add: renderPlan_Some)
qed

lemma renderPlan_truck:
  assumes "truckDeliveries t \<noteq> []"
  shows "\<exists>m lp. point (locateLaunch tp (optimizedNodeOrder (Some t)) (Some (pos (pageDroneDelivery t)))) =
             Some lp \<and>
           renderPlan (Some t) tp xgb =
             Inr (Planned
               (composeTraversal (optimizedNodeOrder (Some t)) (Some lp)
                  (Some (pos (pageDroneDelivery t))))
               m
               (segmentTimes xgb
                  (composeTraversal (optimizedNodeOrder (Some t)) (Some lp)
                     (Some (pos (pageDroneDelivery t))))))"
proof -
  let ?order = "optimizedNodeOrder (Some t)"
  from assms have "2 \<le> length ?order"
    by (cases "truckDeliveries t") (simp_all add: length_optimizedNodeOrder)
  then have "2 \<le> length (choosePolyline tp ?order)"
    by (simp add: choosePolyline_def)
  from planStats_found [OF this, of "pageHQ (Some t)" "truckDeliveries t" "pageDroneDelivery t"
      "pos (pageDroneDelivery t)" xgb]
  show ?thesis by (auto simp: renderPlan_Some)
qed

lemma renderPlan_PlannedD:
  assumes "renderPlan trip (fetchRoute (optimizedNodeOrder trip) routed) xgb = Inr (Planned tr m ts)"
  shows "\<exists>t. trip = Some t \<and> truckDeliveries t \<noteq> []"
proof (cases trip)
  case None
  with assms show ?thesis by simp
next
  case (Some t)
  with assms renderPlan_no_truck [of t routed xgb] show ?thesis by auto
qed

lemma optimizedNodeOrder_no_truck:
  "truckDeliveries t = [] \<Longrightarrow>
   optimizedNodeOrder (Some t) = [(lat (pageHQ (Some t)), lng (pageHQ (Some t)))]"
  by (simp add: optimizedNodeOrder_def Let_def nearestNeighborRoute_Cons nnLoop_Nil)

lemma renderPlan_fetched:
  assumes "renderPlan (Some t) (fetchRoute (optimizedNodeOrder (Some t)) routed) xgb =
    Inr (Planned tr m ts)"
  shows "truckDeliveries t \<noteq> [] \<and>
    (\<exists>lp. tr = composeTraversal (optimizedNodeOrder (Some t)) (Some lp)
                 (Some (pos (pageDroneDelivery t))) \<and>
          ts = segmentTimes xgb tr)"
proof -
  from renderPlan_PlannedD [OF assms] have ne: "truckDeliveries t \<noteq> []" by simp
  from renderPlan_truck [OF ne, of "fetchRoute (optimizedNodeOrder (Some t)) routed" xgb] assms
  show ?thesis using ne by auto
qed

text \<open>
  The delivery stops of the traversal that the page shows are the truck
  deliveries of the plan and the drone delivery of the page.
\<close>

lemma renderPlan_deliveries:
  assumes "renderPlan (Some t) (fetchRoute (optimizedNodeOrder (Some t)) routed) xgb =
    Inr (Planned tr m ts)"
  shows "mset (map coords (filter is_delivery tr)) =
    mset (map (\<lambda>d. Some (pos d)) (pageDroneDelivery t # truckDeliveries t))"
proof -
  let ?order = "optimizedNodeOrder (Some t)"
  from renderPlan_fetched [OF assms] obtain lp
    where ne: "truckDeliveries t \<noteq> []"
      and tr: "tr = composeTraversal ?order (Some lp) (Some (pos (pageDroneDelivery t)))"
    by blast
  from ne have "2 \<le> length ?order"
    by (cases "truckDeliveries t") (simp_all add: length_optimizedNodeOrder)
  then have "mset (map coords (filter is_delivery tr)) =
      mset (map Some (tl ?order)) + {#Some (pos (pageDroneDelivery t))#}"
    unfolding tr by (rule composeTraversal_deliveries)
  also have "mset (map Some (tl ?order)) = image_mset Some (mset (map pos (truckDeliveries t)))"
    by (simp add: optimizedNodeOrder_def Let_def mset_tl_nearestNeighborRoute)
  finally show ?thesis
    by (simp add: multiset.map_comp comp_def)
qed

section \<open>Evaluation on the examples\<close>

lemma pickDrone_northOfHQ: "w \<le> 10 \<Longrightarrow> pickDrone [exDrone] (northOfHQ w k) = Some exDrone"
  by simp

section \<open>Properties of the plan page\<close>

text \<open>
  C9: Every plan for a request of one delivery ends the plan page in a
  \<open>TypeError\<close>: the plan has no truck delivery, the route is the depot alone,
  no road polyline is fetched for it, no launch point is found, and computing
  the distance after the launch reads the end of a segment that does not
  exist.
\<close>

theorem renderPlan_single_delivery:
  assumes "optimizeTrip drones now [d] = Some t"
  shows "truckDeliveries t = [] \<and>
         optimizedNodeOrder (Some t) = [(lat DEFAULT_HQ, lng DEFAULT_HQ)] \<and>
         renderPlan (Some t) (fetchRoute (optimizedNodeOrder (Some t)) routed) xgb = Inl TypeError"
proof -
  from optimizeTrip_parts [OF assms] have e: "truckDeliveries t = []"
    by (auto simp: splice1_def)
  from optimizeTrip_plain(1) [OF assms] have hq: "pageHQ (Some t) = DEFAULT_HQ"
    by simp
  from optimizedNodeOrder_no_truck [OF e]
  have "optimizedNodeOrder (Some t) = [(lat DEFAULT_HQ, lng DEFAULT_HQ)]"
    by (simp only: hq)
  with e renderPlan_no_truck [OF e, of routed xgb] show ?thesis by blast
qed

theorem renderPlan_single_delivery_witness:
  "renderPlan (Some (snd (candidateTrip ''now'' [northOfHQ 5 1] 0 exDrone)))
     (fetchRoute (optimizedNodeOrder (Some (snd (candidateTrip ''now'' [northOfHQ 5 1] 0 exDrone)))) [])
     None = Inl TypeError"
proof -
  have "pickDrone [exDrone] (northOfHQ 5 1) = Some exDrone" by simp
  then have "optimizeTrip [exDrone] (\<lambda>_. ''now'') [northOfHQ 5 1] =
      Some (snd (candidateTrip ''now'' [northOfHQ 5 1] 0 exDrone))"
    by (rule optimizeTrip_single)
  from renderPlan_single_delivery [OF this, of "[]" None] show ?thesis by blast
qed

text \<open>
  C10: For a plan with at least one truck delivery the page shows a plan,
  whatever the road polyline and the prediction are: the traversal is the
  depot, some of the truck stops, the launch, the drone delivery, the landing
  and the other truck stops; its truck stops are the route of the sequencer
  in order; and every time between two consecutive stops is defined.
\<close>

theorem renderPlan_shows_plan:
  assumes "truckDeliveries t \<noteq> []"
  shows "\<exists>tr m ts k. renderPlan (Some t) tp xgb = Inr (Planned tr m ts) \<and>
           k < length (truckDeliveries t) \<and>
           map type tr = hybrid_types k (length (truckDeliveries t) - k) \<and>
           map coords (filter on_truck tr) = map Some (optimizedNodeOrder (Some t)) \<and>
           length ts = length tr - 1 \<and> None \<notin> set ts"
proof -
  let ?order = "optimizedNodeOrder (Some t)"
  from renderPlan_truck [OF assms, of tp xgb] obtain m lp
    where r: "renderPlan (Some t) tp xgb =
      Inr (Planned (composeTraversal ?order (Some lp) (Some (pos (pageDroneDelivery t)))) m
        (segmentTimes xgb (composeTraversal ?order (Some lp) (Some (pos (pageDroneDelivery t))))))"
    by blast
  let ?tr = "composeTraversal ?order (Some lp) (Some (pos (pageDroneDelivery t)))"
  from assms have len: "2 \<le> length ?order" "length ?order = Suc (length (truckDeliveries t))"
    by (cases "truckDeliveries t"; simp add: length_optimizedNodeOrder)+
  from findInsertIdx_found [OF len(1), of lp] obtain k
    where k: "k < length ?order - 1" "findInsertIdx ?order (Some lp) = Suc k"
    by blast
  have "map type ?tr = hybrid_types k (length (truckDeliveries t) - k)"
    using composeTraversal_types [OF len(1), of lp "Some (pos (pageDroneDelivery t))"]
    by (simp add: k(2) len(2))
  moreover have "None \<notin> set (segmentTimes xgb ?tr)"
    using segmentTimes_defined [of ?tr None xgb] composeTraversal_coords_Some [of _ ?order]
    by blast
  ultimately have "renderPlan (Some t) tp xgb = Inr (Planned ?tr m (segmentTimes xgb ?tr)) \<and>
      k < length (truckDeliveries t) \<and>
      map type ?tr = hybrid_types k (length (truckDeliveries t) - k) \<and>
      map coords (filter on_truck ?tr) = map Some ?order \<and>
      length (segmentTimes xgb ?tr) = length ?tr - 1 \<and> None \<notin> set (segmentTimes xgb ?tr)"
    using r k(1) len(2) by (simp add: composeTraversal_on_truck)
  then show ?thesis by blast
qed

theorem renderPlan_shows_plan_witness:
  "\<exists>tr m ts. renderPlan (Some (snd (candidateTrip ''now'' exAB 1 exDrone))) [] None =
       Inr (Planned tr m ts) \<and>
     map type tr = [Hq, Launch, DroneDelivery, Landing, Truck]"
proof -
  have "truckDeliveries (snd (candidateTrip ''now'' exAB 1 exDrone)) = [northOfHQ 5 1]"
    by (simp add: splice1_def exAB_def)
  with renderPlan_shows_plan [of "snd (candidateTrip ''now'' exAB 1 exDrone)" "[]" None]
  show ?thesis
    by (auto simp: hybrid_types_def)
qed

end
