(* ===== verification/Session.thy ===== *)
theory Session
  imports PlanPage
begin

text \<open>
  The state that the two pages share and the handlers that change it: the
  form of \<^verbatim>\<open>NewTrip.jsx\<close> (its rows, the number of rows, the prefill from a
  plan under edit, \<open>setField\<close>, the change of the number of rows, \<open>submit\<close>) and
  the buttons of \<^verbatim>\<open>PathPlanning.jsx\<close> (the load of the latest plan, \<open>Execute
  Delivery\<close>, \<open>Edit Delivery\<close>).  The browser store is part of the record
  \<open>session\<close>, one field per key.  A cell of the form is \<open>Blank\<close> for the empty
  text, \<open>Val x\<close> for a text that \<open>Number\<close> reads as \<open>x\<close>, and \<open>Bad\<close> for a text
  that \<open>Number\<close> reads as \<open>NaN\<close>; the optimizer is modelled on numbers, so
  \<open>submit\<close> takes the rows already converted and the step relation offers it
  only when every cell converts.  The events of the two pages are the
  relations \<open>form_step\<close> and \<open>plan_step\<close>; a step of the session, \<open>step\<close>, is an
  event of the page that is shown; \<open>reachable\<close> are the sessions that the steps
  reach from \<open>initial\<close>.  The fleet that the form reads is the parameter
  \<open>drones\<close>.
\<close>

section \<open>Data\<close>

datatype page = NewTripPage | PathPlanningPage | TripResultsPage

datatype cell = Blank | Val real | Bad

datatype field = Weight | Latitude | Longitude

record row =
  weight' :: cell
  latitude' :: cell
  longitude' :: cell

record executed =
  plan :: trip
  storedCarbonEmission :: real
  storedTotalTripTime :: real
  storedTruckOnlyTotalTime :: real
  storedTimeSaved :: real
  storedMlDroneId :: "string option"

record session =
  page :: page
  num :: nat
  del :: "row list"
  latestTrip :: "trip option"
  editTrip :: "trip option"
  allTrips :: "executed list"
  dronesList :: "drone list"

definition emptyRow :: row where
  "emptyRow = \<lparr>weight' = Blank, latitude' = Blank, longitude' = Blank\<rparr>"

definition initial :: session where
  "initial = \<lparr>page = NewTripPage, num = 1, del = [emptyRow], latestTrip = None,
     editTrip = None, allTrips = [], dronesList = []\<rparr>"

section \<open>Conversions\<close>

text \<open>\<open>Number(v)\<close> of a cell, and \<open>x || ''\<close> of a number.\<close>

definition Number :: "cell \<Rightarrow> real option" where
  "Number c = (case c of Blank \<Rightarrow> Some 0 | Val x \<Rightarrow> Some x | Bad \<Rightarrow> None)"

definition orBlank :: "real \<Rightarrow> cell" where
  "orBlank x = (if x = 0 then Blank else Val x)"

definition toRow :: "delivery \<Rightarrow> row" where
  "toRow d = \<lparr>weight' = orBlank (weight d), latitude' = orBlank (latitude d),
     longitude' = orBlank (longitude d)\<rparr>"

definition toDelivery :: "row \<Rightarrow> delivery option" where
  "toDelivery r =
     (case (Number (weight' r), Number (latitude' r), Number (longitude' r)) of
        (Some w, Some la, Some lo) \<Rightarrow> Some \<lparr>weight = w, latitude = la, longitude = lo\<rparr>
      | _ \<Rightarrow> None)"

definition toDeliveries :: "row list \<Rightarrow> delivery list option" where
  "toDeliveries rows =
     (if list_all (\<lambda>r. toDelivery r \<noteq> None) rows then Some (map (the \<circ> toDelivery) rows)
      else None)"

section \<open>The form\<close>

definition prefill :: "session \<Rightarrow> session" where
  "prefill s =
     (case editTrip s of
        None \<Rightarrow> s
      | Some t \<Rightarrow>
          let ds = [droneDelivery t] @ truckDeliveries t
          in s\<lparr>num := length ds, del := map toRow ds\<rparr>)"

definition setCell :: "field \<Rightarrow> cell \<Rightarrow> row \<Rightarrow> row" where
  "setCell f v r =
     (case f of Weight \<Rightarrow> r\<lparr>weight' := v\<rparr> | Latitude \<Rightarrow> r\<lparr>latitude' := v\<rparr>
      | Longitude \<Rightarrow> r\<lparr>longitude' := v\<rparr>)"

definition setField :: "nat \<Rightarrow> field \<Rightarrow> cell \<Rightarrow> session \<Rightarrow> js_error + session" where
  "setField i f v s =
     (if i < length (del s) then Inr (s\<lparr>del := (del s)[i := setCell f v (del s ! i)]\<rparr>)
      else Inl TypeError)"

definition setCount :: "nat \<Rightarrow> session \<Rightarrow> session" where
  "setCount v s =
     s\<lparr>num := v,
       del := map (\<lambda>i. if i < length (del s) then del s ! i else emptyRow) [0..<v]\<rparr>"

definition submit :: "drone list \<Rightarrow> (nat \<Rightarrow> timestamp) \<Rightarrow> delivery list \<Rightarrow> session \<Rightarrow> session" where
  "submit drones now ds s =
     (case optimizeTrip drones now ds of
        Some t \<Rightarrow> s\<lparr>latestTrip := Some t, editTrip := None, page := PathPlanningPage\<rparr>
      | None \<Rightarrow> s)"

section \<open>The plan page\<close>

definition loadTrip :: "session \<Rightarrow> session" where
  "loadTrip s = (case latestTrip s of Some t \<Rightarrow> s | None \<Rightarrow> s\<lparr>page := NewTripPage\<rparr>)"

definition markUnavailable :: "trip \<Rightarrow> drone list \<Rightarrow> drone list" where
  "markUnavailable t ds =
     map (\<lambda>d. if droneId d = droneId (drone t) then d\<lparr>available := False\<rparr> else d) ds"

text \<open>
  The identifier of the drone that the prediction suggests, which the commit
  stores with the plan: \<open>drone_id\<close> of the prediction or of its field \<open>drone\<close>.
\<close>

definition mlDroneIdOf :: "xgb_result option \<Rightarrow> string option" where
  "mlDroneIdOf xgbResult =
     (case xgbResult of
        None \<Rightarrow> None
      | Some r \<Rightarrow>
          if truthyText (drone_id r) then drone_id r
          else if truthyText (drone_drone_id r) then drone_drone_id r
          else None)"

definition executeTrip :: "plan_stats \<Rightarrow> xgb_result option \<Rightarrow> session \<Rightarrow> session" where
  "executeTrip m xgb s =
     (case latestTrip s of
        None \<Rightarrow> s
      | Some t \<Rightarrow>
          let t = t\<lparr>drone := (drone t)\<lparr>available := False\<rparr>\<rparr>;
              t = t\<lparr>carbonReduction := Some (carbonReduction' m)\<rparr>
          in s\<lparr>dronesList := markUnavailable t (dronesList s),
               allTrips := allTrips s @ [\<lparr>plan = t, storedCarbonEmission = carbonEmission m,
            storedTotalTripTime = totalTripTime m,
            storedTruckOnlyTotalTime = truckOnlyTotalTime m,
            storedTimeSaved = timeSaved m,
            storedMlDroneId = mlDroneIdOf xgb\<rparr>],
               latestTrip := None,
               page := TripResultsPage\<rparr>)"

definition editDelivery :: "session \<Rightarrow> session" where
  "editDelivery s = s\<lparr>editTrip := latestTrip s, page := NewTripPage\<rparr>"

section \<open>The steps of a session\<close>

text \<open>
  The events of the form: the mount with its prefill, a change of a cell, a
  change of the number of rows, and the submission, offered when every cell
  converts.
\<close>

inductive form_step :: "drone list \<Rightarrow> session \<Rightarrow> session \<Rightarrow> bool" for drones where
  mount_form: "form_step drones s (prefill s)"
| set_field: "setField i f v s = Inr s' \<Longrightarrow> form_step drones s s'"
| set_count: "form_step drones s (setCount v s)"
| submit_form: "toDeliveries (del s) = Some ds \<Longrightarrow> form_step drones s (submit drones now ds s)"

text \<open>
  The events of the plan page: the mount with its load of the latest plan, and
  the two buttons, which exist only when the page shows a plan; the commit
  leaves the session as it is when the request to the server fails.
\<close>

inductive plan_step :: "session \<Rightarrow> session \<Rightarrow> bool" where
  mount_plan: "plan_step s (loadTrip s)"
| execute:
    "renderPlan (latestTrip s) (fetchRoute (optimizedNodeOrder (latestTrip s)) routed) xgb =
       Inr (Planned tr m ts) \<Longrightarrow>
     plan_step s (executeTrip m xgb s)"
| execute_failed: "plan_step s s"
| edit:
    "renderPlan (latestTrip s) (fetchRoute (optimizedNodeOrder (latestTrip s)) routed) xgb =
       Inr (Planned tr m ts) \<Longrightarrow>
     plan_step s (editDelivery s)"

text \<open>A step of the session is an event of the page that is shown.\<close>

inductive step :: "drone list \<Rightarrow> session \<Rightarrow> session \<Rightarrow> bool" for drones where
  on_form: "page s = NewTripPage \<Longrightarrow> form_step drones s s' \<Longrightarrow> step drones s s'"
| on_plan: "page s = PathPlanningPage \<Longrightarrow> plan_step s s' \<Longrightarrow> step drones s s'"

inductive reachable :: "drone list \<Rightarrow> session \<Rightarrow> bool" for drones where
  start: "reachable drones (initial\<lparr>dronesList := ds\<rparr>)"
| after: "reachable drones s \<Longrightarrow> step drones s s' \<Longrightarrow> reachable drones s'"

inductive_cases stepE: "step drones s s'"

section \<open>The invariant\<close>

text \<open>
  A plan is \<open>planned\<close> when the optimizer returned it for some request and some
  clock; a committed plan is \<open>committed\<close> when its drone is marked unavailable,
  in the plan and in the stored list of drones, and the truck has a stop.
\<close>

definition planned :: "drone list \<Rightarrow> trip \<Rightarrow> bool" where
  "planned drones t \<longleftrightarrow> (\<exists>now dels. optimizeTrip drones now dels = Some t)"

definition committed :: "drone list \<Rightarrow> executed \<Rightarrow> bool" where
  "committed ds e \<longleftrightarrow>
     \<not> available (drone (plan e)) \<and> truckDeliveries (plan e) \<noteq> [] \<and>
     (\<forall>d \<in> set ds. droneId d = droneId (drone (plan e)) \<longrightarrow> \<not> available d)"

definition session_inv :: "drone list \<Rightarrow> session \<Rightarrow> bool" where
  "session_inv drones s \<longleftrightarrow>
     num s = length (del s) \<and>
     (\<forall>t. latestTrip s = Some t \<longrightarrow> planned drones t) \<and>
     (\<forall>t. editTrip s = Some t \<longrightarrow> planned drones t) \<and>
     (\<forall>e \<in> set (allTrips s). committed (dronesList s) e)"

section \<open>Example data\<close>

definition exSession :: session where
  "exSession = initial\<lparr>dronesList := [exDrone]\<rparr>"

definition exPlan :: trip where
  "exPlan = snd (candidateTrip ''now'' exAB 1 exDrone)"

section \<open>Conversions\<close>

lemma Number_orBlank [simp]: "Number (orBlank x) = Some x"
  by (simp add: Number_def orBlank_def)

lemma toDelivery_toRow [simp]: "toDelivery (toRow d) = Some d"
  by (simp add: toDelivery_def toRow_def)

lemma toDeliveries_toRow [simp]: "toDeliveries (map toRow ds) = Some ds"
  by (simp add: toDeliveries_def list_all_iff comp_def)

lemma toDeliveries_length: "toDeliveries rows = Some ds \<Longrightarrow> length ds = length rows"
  by (auto simp: toDeliveries_def split: if_splits)

section \<open>The handlers\<close>

lemma prefill_sel [simp]:
  "page (prefill s) = page s" "latestTrip (prefill s) = latestTrip s"
  "editTrip (prefill s) = editTrip s" "allTrips (prefill s) = allTrips s"
  "dronesList (prefill s) = dronesList s"
  by (simp_all add: prefill_def Let_def split: option.splits)

lemma prefill_form:
  "editTrip s = Some t \<Longrightarrow>
   del (prefill s) = map toRow (droneDelivery t # truckDeliveries t) \<and>
   num (prefill s) = Suc (length (truckDeliveries t))"
  by (simp add: prefill_def)

lemma prefill_None [simp]: "editTrip s = None \<Longrightarrow> prefill s = s"
  by (simp add: prefill_def)

lemma setField_Inr:
  "setField i f v s = Inr s' \<longleftrightarrow>
     i < length (del s) \<and> s' = s\<lparr>del := (del s)[i := setCell f v (del s ! i)]\<rparr>"
  by (auto simp: setField_def)

lemma setCount_sel [simp]:
  "num (setCount v s) = v" "length (del (setCount v s)) = v"
  "page (setCount v s) = page s" "latestTrip (setCount v s) = latestTrip s"
  "editTrip (setCount v s) = editTrip s" "allTrips (setCount v s) = allTrips s"
  "dronesList (setCount v s) = dronesList s"
  by (simp_all add: setCount_def)

lemma setCount_del:
  "del (setCount v s) = take v (del s) @ replicate (v - length (del s)) emptyRow"
  by (rule nth_equalityI) (auto simp: setCount_def nth_append)

lemma submit_sel [simp]:
  "num (submit drones now ds s) = num s" "del (submit drones now ds s) = del s"
  "allTrips (submit drones now ds s) = allTrips s"
  "dronesList (submit drones now ds s) = dronesList s"
  by (simp_all add: submit_def split: option.splits)

lemma submit_Some:
  "optimizeTrip drones now ds = Some t \<Longrightarrow>
   submit drones now ds s = s\<lparr>latestTrip := Some t, editTrip := None, page := PathPlanningPage\<rparr>"
  by (simp add: submit_def)

lemma submit_None [simp]: "optimizeTrip drones now ds = None \<Longrightarrow> submit drones now ds s = s"
  by (simp add: submit_def)

lemma markUnavailable_set:
  assumes "d \<in> set (markUnavailable t ds)"
  shows "\<exists>d' \<in> set ds. droneId d = droneId d' \<and> (available d \<longrightarrow> available d') \<and>
     (droneId d' = droneId (drone t) \<longrightarrow> \<not> available d)"
proof -
  from assms obtain x where x: "x \<in> set ds"
    "d = (if droneId x = droneId (drone t) then x\<lparr>available := False\<rparr> else x)"
    by (auto simp: markUnavailable_def)
  show ?thesis
    by (rule bexI [OF _ x(1)]) (simp add: x(2))
qed

lemma committed_markUnavailable:
  "committed ds e \<Longrightarrow> committed (markUnavailable t ds) e"
  unfolding committed_def by (auto dest!: markUnavailable_set)

lemma loadTrip_sel [simp]:
  "num (loadTrip s) = num s" "del (loadTrip s) = del s" "latestTrip (loadTrip s) = latestTrip s"
  "editTrip (loadTrip s) = editTrip s" "allTrips (loadTrip s) = allTrips s"
  "dronesList (loadTrip s) = dronesList s"
  by (simp_all add: loadTrip_def split: option.splits)

lemma executeTrip_Some:
  "latestTrip s = Some t \<Longrightarrow>
   executeTrip m xgb s =
     s\<lparr>dronesList := markUnavailable t (dronesList s),
       allTrips := allTrips s @
         [\<lparr>plan = t\<lparr>drone := (drone t)\<lparr>available := False\<rparr>,
                     carbonReduction := Some (carbonReduction' m)\<rparr>,
            storedCarbonEmission = carbonEmission m,
            storedTotalTripTime = totalTripTime m,
            storedTruckOnlyTotalTime = truckOnlyTotalTime m,
            storedTimeSaved = timeSaved m,
            storedMlDroneId = mlDroneIdOf xgb\<rparr>],
       latestTrip := None, page := TripResultsPage\<rparr>"
  by (simp add: executeTrip_def Let_def markUnavailable_def)

lemma committed_new:
  assumes "truckDeliveries t \<noteq> []"
  shows "committed (markUnavailable t ds)
           \<lparr>plan = t\<lparr>drone := (drone t)\<lparr>available := False\<rparr>,
                       carbonReduction := Some r\<rparr>,
              storedCarbonEmission = carbonEmission m,
            storedTotalTripTime = totalTripTime m,
            storedTruckOnlyTotalTime = truckOnlyTotalTime m,
            storedTimeSaved = timeSaved m,
            storedMlDroneId = mlDroneIdOf xgb\<rparr>"
  using assms unfolding committed_def by (auto dest!: markUnavailable_set)

lemma mlDroneIdOf_simps [simp]:
  "mlDroneIdOf None = None"
  "i \<noteq> [] \<Longrightarrow>
   mlDroneIdOf (Some \<lparr>predicted_time_minutes = p, time = q, drone_id = Some i,
     drone_drone_id = j, droneId' = k\<rparr>) = Some i"
  "mlDroneIdOf (Some \<lparr>predicted_time_minutes = p, time = q, drone_id = None,
     drone_drone_id = None, droneId' = k\<rparr>) = None"
  by (simp_all add: mlDroneIdOf_def truthyText_def)

section \<open>The invariant holds in every reachable session\<close>

lemma session_inv_initial: "session_inv drones (initial\<lparr>dronesList := ds\<rparr>)"
  by (simp add: session_inv_def initial_def)

lemma form_step_session_inv:
  assumes "form_step drones s s'" and "session_inv drones s"
  shows "session_inv drones s'"
  using assms(1)
proof cases
  case mount_form
  with assms(2) show ?thesis
    by (cases "editTrip s") (auto simp: session_inv_def prefill_form)
next
  case (set_field i f v)
  with assms(2) show ?thesis
    by (auto simp: session_inv_def setField_Inr)
next
  case (set_count v)
  with assms(2) show ?thesis
    by (simp add: session_inv_def)
next
  case (submit_form ds now)
  with assms(2) show ?thesis
    by (cases "optimizeTrip drones now ds")
      (auto simp: session_inv_def submit_Some planned_def)
qed

lemma plan_step_session_inv:
  assumes "plan_step s s'" and "session_inv drones s"
  shows "session_inv drones s'"
  using assms(1)
proof cases
  case mount_plan
  with assms(2) show ?thesis
    by (simp add: session_inv_def)
next
  case (execute routed xgb tr m ts)
  from renderPlan_PlannedD [OF execute(2)] obtain t
    where t: "latestTrip s = Some t" "truckDeliveries t \<noteq> []"
    by blast
  with assms(2) execute(1) show ?thesis
    by (auto simp: session_inv_def executeTrip_Some committed_new committed_markUnavailable)
next
  case execute_failed
  with assms(2) show ?thesis by simp
next
  case (edit routed xgb tr m ts)
  with assms(2) show ?thesis
    by (auto simp: session_inv_def editDelivery_def)
qed

lemma step_session_inv:
  assumes "step drones s s'" and "session_inv drones s"
  shows "session_inv drones s'"
  using assms(1)
  by cases (simp_all add: form_step_session_inv [OF _ assms(2)] plan_step_session_inv [OF _ assms(2)])

lemma reachable_session_inv: "reachable drones s \<Longrightarrow> session_inv drones s"
  by (induction rule: reachable.induct) (simp_all add: session_inv_initial step_session_inv)

section \<open>Every content of the form can be entered\<close>

lemma setCell_all:
  "setCell Longitude (longitude' r) (setCell Latitude (latitude' r) (setCell Weight (weight' r) r0)) = r"
  by (cases r, cases r0) (simp add: setCell_def)

lemma fill_row:
  assumes "reachable drones s" and "page s = NewTripPage" and "k < length (del s)"
  shows "reachable drones (s\<lparr>del := (del s)[k := r]\<rparr>)"
proof -
  let ?s1 = "s\<lparr>del := (del s)[k := setCell Weight (weight' r) (del s ! k)]\<rparr>"
  let ?s2 = "?s1\<lparr>del := (del ?s1)[k := setCell Latitude (latitude' r) (del ?s1 ! k)]\<rparr>"
  let ?s3 = "?s2\<lparr>del := (del ?s2)[k := setCell Longitude (longitude' r) (del ?s2 ! k)]\<rparr>"
  from assms(2,3) have "step drones s ?s1"
    by (intro on_form set_field [of k Weight "weight' r"]) (simp_all add: setField_def)
  with assms(1) have 1: "reachable drones ?s1" by (rule reachable.after)
  from assms(2,3) have "step drones ?s1 ?s2"
    by (intro on_form set_field [of k Latitude "latitude' r"]) (simp_all add: setField_def)
  with 1 have 2: "reachable drones ?s2" by (rule reachable.after)
  from assms(2,3) have "step drones ?s2 ?s3"
    by (intro on_form set_field [of k Longitude "longitude' r"]) (simp_all add: setField_def)
  with 2 have "reachable drones ?s3" by (rule reachable.after)
  moreover from assms(3) have "?s3 = s\<lparr>del := (del s)[k := r]\<rparr>"
    by (simp add: setCell_all)
  ultimately show ?thesis by simp
qed

lemma reachable_fill:
  assumes "k \<le> length rows"
  shows "reachable drones
    (initial\<lparr>dronesList := ds, num := length rows,
       del := take k rows @ replicate (length rows - k) emptyRow\<rparr>)"
  using assms
proof (induction k)
  case 0
  have "del (setCount (length rows) (initial\<lparr>dronesList := ds\<rparr>)) =
      replicate (length rows) emptyRow"
    by (cases "length rows") (simp_all add: setCount_del initial_def)
  then have "setCount (length rows) (initial\<lparr>dronesList := ds\<rparr>) =
      initial\<lparr>dronesList := ds, num := length rows, del := replicate (length rows) emptyRow\<rparr>"
    by (simp add: setCount_def)
  moreover have "step drones (initial\<lparr>dronesList := ds\<rparr>)
      (setCount (length rows) (initial\<lparr>dronesList := ds\<rparr>))"
    by (rule on_form) (simp_all add: initial_def set_count)
  with reachable.start have "reachable drones (setCount (length rows) (initial\<lparr>dronesList := ds\<rparr>))"
    by (rule reachable.after)
  ultimately show ?case by simp
next
  case (Suc k)
  let ?s = "initial\<lparr>dronesList := ds, num := length rows,
       del := take k rows @ replicate (length rows - k) emptyRow\<rparr>"
  from Suc have "reachable drones ?s" by simp
  moreover from Suc.prems have "k < length (del ?s)" "page ?s = NewTripPage"
    by (simp_all add: initial_def)
  ultimately have "reachable drones (?s\<lparr>del := (del ?s)[k := rows ! k]\<rparr>)"
    by (intro fill_row)
  moreover have
    "(take k rows @ replicate (length rows - k) emptyRow)[k := rows ! k] =
      take (Suc k) rows @ replicate (length rows - Suc k) emptyRow"
  proof -
    from Suc.prems obtain m where m: "length rows - k = Suc m" "length rows - Suc k = m"
      by (cases "length rows - k") simp_all
    from Suc.prems show ?thesis
      unfolding m by (simp add: take_Suc_conv_app_nth list_update_append)
  qed
  ultimately show ?case by simp
qed

lemma reachable_rows:
  "reachable drones (initial\<lparr>dronesList := ds, num := length rows, del := rows\<rparr>)"
  using reachable_fill [where k = "length rows" and rows = rows and drones = drones and ds = ds]
  by simp

lemma reachable_submit:
  "reachable drones
     (submit drones now dels (initial\<lparr>dronesList := ds, num := length dels, del := map toRow dels\<rparr>))"
proof -
  let ?s = "initial\<lparr>dronesList := ds, num := length dels, del := map toRow dels\<rparr>"
  have "reachable drones ?s"
    using reachable_rows [where drones = drones and ds = ds and rows = "map toRow dels"] by simp
  moreover have "step drones ?s (submit drones now dels ?s)"
    by (rule on_form) (simp_all add: initial_def submit_form)
  ultimately show ?thesis by (rule reachable.after)
qed

lemma execute_enabled:
  assumes "page s = PathPlanningPage" and "latestTrip s = Some t" and "truckDeliveries t \<noteq> []"
  shows "\<exists>tr m ts.
     renderPlan (latestTrip s) (fetchRoute (optimizedNodeOrder (latestTrip s)) routed) xgb =
       Inr (Planned tr m ts) \<and>
     step drones s (executeTrip m xgb s)"
proof -
  from renderPlan_truck [OF assms(3), of "fetchRoute (optimizedNodeOrder (Some t)) routed" xgb]
  obtain tr m ts
    where r: "renderPlan (latestTrip s) (fetchRoute (optimizedNodeOrder (latestTrip s)) routed) xgb =
      Inr (Planned tr m ts)"
    unfolding assms(2) by blast
  then have "plan_step s (executeTrip m xgb s)" by (rule execute)
  with assms(1) have "step drones s (executeTrip m xgb s)" by (rule on_plan)
  with r show ?thesis by blast
qed

section \<open>Evaluation on the examples\<close>

lemma exPlan_sel [simp]:
  "truckDeliveries exPlan = [northOfHQ 5 1]" "droneDelivery exPlan = northOfHQ 3 2"
  "drone exPlan = exDrone"
  by (simp_all add: exPlan_def splice1_def exAB_def)

lemma optimizeTrip_exPlan: "optimizeTrip [exDrone] (\<lambda>_. ''now'') exAB = Some exPlan"
  by (simp add: optimizeTrip_exAB exPlan_def)

lemma execute_result:
  assumes "reachable drones s" and "page s = PathPlanningPage" and "latestTrip s = Some t"
    and "truckDeliveries t \<noteq> []" and "allTrips s = []"
  shows "\<exists>tr m ts.
      renderPlan (latestTrip s) (fetchRoute (optimizedNodeOrder (latestTrip s)) routed) xgb =
        Inr (Planned tr m ts) \<and>
      reachable drones (executeTrip m xgb s) \<and>
      page (executeTrip m xgb s) = TripResultsPage \<and>
      latestTrip (executeTrip m xgb s) = None \<and>
      map plan (allTrips (executeTrip m xgb s)) =
        [t\<lparr>drone := (drone t)\<lparr>available := False\<rparr>,
           carbonReduction := Some (carbonReduction' m)\<rparr>]"
proof -
  from execute_enabled [OF assms(2,3,4), of routed xgb drones] obtain tr m ts
    where e: "renderPlan (latestTrip s) (fetchRoute (optimizedNodeOrder (latestTrip s)) routed) xgb =
        Inr (Planned tr m ts)"
      and st: "step drones s (executeTrip m xgb s)"
    by blast
  from assms(1) st have "reachable drones (executeTrip m xgb s)" by (rule reachable.after)
  moreover have "page (executeTrip m xgb s) = TripResultsPage"
    "latestTrip (executeTrip m xgb s) = None"
    "map plan (allTrips (executeTrip m xgb s)) =
      [t\<lparr>drone := (drone t)\<lparr>available := False\<rparr>,
         carbonReduction := Some (carbonReduction' m)\<rparr>]"
    unfolding executeTrip_Some [OF assms(3)] by (simp_all add: assms(5))
  ultimately show ?thesis using e by (intro exI conjI) assumption+
qed

lemma reachable_executed:
  "\<exists>m. reachable [exDrone]
     (executeTrip m None (submit [exDrone] (\<lambda>_. ''now'') exAB
        (initial\<lparr>dronesList := [exDrone], num := length exAB, del := map toRow exAB\<rparr>)))"
proof -
  let ?init = "initial\<lparr>dronesList := [exDrone], num := length exAB, del := map toRow exAB\<rparr>"
  let ?s = "submit [exDrone] (\<lambda>_. ''now'') exAB ?init"
  have s: "?s = ?init\<lparr>latestTrip := Some exPlan, editTrip := None, page := PathPlanningPage\<rparr>"
    using optimizeTrip_exPlan by (rule submit_Some)
  have "page ?s = PathPlanningPage" and "latestTrip ?s = Some exPlan"
    and "truckDeliveries exPlan \<noteq> []"
    unfolding s by simp_all
  from execute_enabled [OF this, of "[]" None "[exDrone]"] obtain m
    where "step [exDrone] ?s (executeTrip m None ?s)"
    by blast
  with reachable_submit have "reachable [exDrone] (executeTrip m None ?s)"
    by (rule reachable.after)
  then show ?thesis by blast
qed

section \<open>Properties of a session\<close>



text \<open>
  C15: Every committed plan of a reachable session has its drone marked
  unavailable, in the plan and in every entry of the stored list of drones
  with the identifier of that drone, and has at least one truck delivery: a
  plan whose only delivery goes by drone is never committed.
\<close>

theorem executed_trips:
  assumes "reachable drones s" and "e \<in> set (allTrips s)"
  shows "\<not> available (drone (plan e)) \<and> truckDeliveries (plan e) \<noteq> [] \<and>
         (\<forall>d \<in> set (dronesList s). droneId d = droneId (drone (plan e)) \<longrightarrow> \<not> available d)"
  using reachable_session_inv [OF assms(1)] assms(2)
  by (simp add: session_inv_def committed_def)

theorem executed_trips_witness:
  "\<exists>m. drone (plan (last (allTrips (executeTrip m None (submit [exDrone] (\<lambda>_. ''now'') exAB
          (initial\<lparr>dronesList := [exDrone], num := length exAB, del := map toRow exAB\<rparr>)))))) =
        exDrone\<lparr>available := False\<rparr> \<and>
       truckDeliveries (plan (last (allTrips (executeTrip m None (submit [exDrone] (\<lambda>_. ''now'') exAB
          (initial\<lparr>dronesList := [exDrone], num := length exAB, del := map toRow exAB\<rparr>)))))) \<noteq>
        []"
proof -
  let ?init = "initial\<lparr>dronesList := [exDrone], num := length exAB, del := map toRow exAB\<rparr>"
  let ?s = "submit [exDrone] (\<lambda>_. ''now'') exAB ?init"
  from reachable_executed obtain m where r: "reachable [exDrone] (executeTrip m None ?s)" ..
  have s: "?s = ?init\<lparr>latestTrip := Some exPlan, editTrip := None, page := PathPlanningPage\<rparr>"
    using optimizeTrip_exPlan by (rule submit_Some)
  have a: "allTrips (executeTrip m None ?s) =
      [\<lparr>plan = exPlan\<lparr>drone := exDrone\<lparr>available := False\<rparr>,
          carbonReduction := Some (carbonReduction' m)\<rparr>, storedCarbonEmission = carbonEmission m,
            storedTotalTripTime = totalTripTime m,
            storedTruckOnlyTotalTime = truckOnlyTotalTime m,
            storedTimeSaved = timeSaved m,
            storedMlDroneId = None\<rparr>]"
    unfolding s by (simp add: executeTrip_Some initial_def mlDroneIdOf_def)
  then have "last (allTrips (executeTrip m None ?s)) \<in> set (allTrips (executeTrip m None ?s))"
    by simp
  from executed_trips [OF r this]
  have "truckDeliveries (plan (last (allTrips (executeTrip m None ?s)))) \<noteq> []" by blast
  moreover have "drone (plan (last (allTrips (executeTrip m None ?s)))) = exDrone\<lparr>available := False\<rparr>"
    unfolding a by simp
  ultimately show ?thesis by blast
qed

text \<open>
  C17: Editing a plan fills the form with the drone delivery followed by the
  truck deliveries of the plan, and the rows convert back to exactly these
  deliveries; the number of rows is their number.
\<close>

theorem edit_prefill_roundtrip:
  assumes "latestTrip s = Some t"
  shows "toDeliveries (del (prefill (editDelivery s))) =
           Some (droneDelivery t # truckDeliveries t) \<and>
         num (prefill (editDelivery s)) = Suc (length (truckDeliveries t)) \<and>
         page (prefill (editDelivery s)) = NewTripPage"
proof -
  from assms have "editTrip (editDelivery s) = Some t"
    by (simp add: editDelivery_def)
  from prefill_form [OF this]
  have "del (prefill (editDelivery s)) = map toRow (droneDelivery t # truckDeliveries t)"
    "num (prefill (editDelivery s)) = Suc (length (truckDeliveries t))"
    by blast+
  then show ?thesis
    by (simp only: toDeliveries_toRow prefill_sel) (simp add: editDelivery_def)
qed

theorem edit_prefill_roundtrip_witness:
  "toDeliveries (del (prefill (editDelivery (initial\<lparr>latestTrip := Some exPlan\<rparr>)))) =
     Some [northOfHQ 3 2, northOfHQ 5 1]"
  using edit_prefill_roundtrip [of "initial\<lparr>latestTrip := Some exPlan\<rparr>" exPlan]
  by simp

text \<open>
  Planning again the deliveries of a plan, drone delivery first as the
  edit presents them, always yields a plan, and that plan serves the same
  deliveries as the request of the first plan.
\<close>

theorem replan_feasible:
  assumes "optimizeTrip drones now dels = Some t"
  shows "\<exists>t'. optimizeTrip drones now' (droneDelivery t # truckDeliveries t) = Some t' \<and>
           mset (droneDelivery t' # truckDeliveries t') = mset dels"
proof -
  from optimizeTrip_parts [OF assms]
  have "pickDrone drones (droneDelivery t) = Some (drone t)" by auto
  then have "feasible drones (droneDelivery t # truckDeliveries t) 0"
    by (simp add: feasible_def)
  then have "optimizeTrip drones now' (droneDelivery t # truckDeliveries t) \<noteq> None"
    unfolding optimizeTrip_None_feasible by blast
  then obtain t' where t': "optimizeTrip drones now' (droneDelivery t # truckDeliveries t) = Some t'"
    by auto
  from optimizeTrip_mset [OF t'] optimizeTrip_mset [OF assms] t' show ?thesis by simp
qed

theorem replan_feasible_witness:
  "\<exists>t'. optimizeTrip [exDrone] (\<lambda>_. ''later'') [northOfHQ 3 2, northOfHQ 5 1] = Some t' \<and>
     mset (droneDelivery t' # truckDeliveries t') = mset exAB"
  using replan_feasible [OF optimizeTrip_exPlan, of "\<lambda>_. ''later''"]
  by simp


text \<open>
  C16: Every request for which the optimizer has a plan with a truck delivery
  can be entered, planned and committed: there is a run of the session from
  the initial one, with whatever list of drones is stored, that ends on the
  results page with the plan as the one committed plan, its drone marked
  unavailable; and on the way the plan page shows the plan and offers the
  commit for every answer of the routing service and of the prediction
  service.
\<close>

theorem commit_reachable:
  assumes "optimizeTrip drones now dels = Some t" and "truckDeliveries t \<noteq> []"
  shows "\<exists>s. reachable drones s \<and> page s = PathPlanningPage \<and> latestTrip s = Some t \<and>
           dronesList s = ds \<and>
           (\<forall>routed xgb. \<exists>tr m ts.
              renderPlan (latestTrip s) (fetchRoute (optimizedNodeOrder (latestTrip s)) routed) xgb =
                Inr (Planned tr m ts) \<and>
              reachable drones (executeTrip m xgb s) \<and>
              page (executeTrip m xgb s) = TripResultsPage \<and>
              latestTrip (executeTrip m xgb s) = None \<and>
              map plan (allTrips (executeTrip m xgb s)) =
                [t\<lparr>drone := (drone t)\<lparr>available := False\<rparr>,
                   carbonReduction := Some (carbonReduction' m)\<rparr>])"
proof -
  define s where "s = submit drones now dels
    (initial\<lparr>dronesList := ds, num := length dels, del := map toRow dels\<rparr>)"
  have r: "reachable drones s" unfolding s_def by (rule reachable_submit)
  have p: "page s = PathPlanningPage" and l: "latestTrip s = Some t"
    and d: "dronesList s = ds" and a: "allTrips s = []"
    unfolding s_def submit_Some [OF assms(1)] by (simp_all add: initial_def)
  from execute_result [OF r p l assms(2) a]
  have "\<forall>routed xgb. \<exists>tr m ts.
      renderPlan (latestTrip s) (fetchRoute (optimizedNodeOrder (latestTrip s)) routed) xgb =
        Inr (Planned tr m ts) \<and>
      reachable drones (executeTrip m xgb s) \<and>
      page (executeTrip m xgb s) = TripResultsPage \<and>
      latestTrip (executeTrip m xgb s) = None \<and>
      map plan (allTrips (executeTrip m xgb s)) =
        [t\<lparr>drone := (drone t)\<lparr>available := False\<rparr>,
           carbonReduction := Some (carbonReduction' m)\<rparr>]"
    by (intro allI)
  with r p l d show ?thesis by (intro exI conjI) assumption+
qed

theorem commit_reachable_witness:
  "\<exists>s. reachable [exDrone] s \<and> latestTrip s = Some exPlan \<and>
     (\<exists>tr m ts. renderPlan (latestTrip s) (fetchRoute (optimizedNodeOrder (latestTrip s)) []) None =
        Inr (Planned tr m ts) \<and>
      reachable [exDrone] (executeTrip m None s) \<and> page (executeTrip m None s) = TripResultsPage)"
proof -
  have "truckDeliveries exPlan \<noteq> []" by simp
  from commit_reachable [OF optimizeTrip_exPlan this, of "[]"] show ?thesis
    by blast
qed

end
