(* ===== verification/View.thy ===== *)
theory View
  imports PlanPage Format
begin

text \<open>
  What the plan page of \<^verbatim>\<open>PathPlanning.jsx\<close> shows around the plan, as values:
  the prediction that the mount reads from the store (\<open>loadXgb\<close>), the state
  of the wind request and its line of text (\<open>fetchWind\<close>, \<open>windDisplay\<close>), the
  figures of the summary (\<open>sidebarSummary\<close>), the block of a predicted delivery
  (\<open>mlBlocks\<close>), the text on the arrow between two
  stops (\<open>segmentText\<close>), the rows of the table of locations, the markers of
  the map with the letters of all stops at one place (\<open>markers\<close>), and the
  lines and time annotations of the drone leg.  A text made of labels is a list
  of UTF-16 code units, as the labels are; colours are the strings of the
  source.  The lemmas show which stops share a marker, that every stop is on
  exactly one marker, and what the texts say about a prediction.
\<close>

section \<open>The stored prediction\<close>

text \<open>
  The item \<open>xgbResult\<close> of the store: absent, the text \<open>undefined\<close>, a text that
  \<open>JSON.parse\<close> rejects, or the text of a prediction.
\<close>

datatype stored_item = NoItem | UndefinedText | Malformed | Json xgb_result

definition loadXgb :: "stored_item \<Rightarrow> xgb_result option" where
  "loadXgb result =
     (if result \<noteq> NoItem \<and> result \<noteq> UndefinedText
      then (case result of Json parsedResult \<Rightarrow> Some parsedResult | _ \<Rightarrow> None)
      else None)"

section \<open>The wind request\<close>

text \<open>
  The answer of the weather service: none, when the request or the reading of
  its body fails, or the speed \<open>data.wind.speed\<close>, \<open>None\<close> when the body has no
  such field.
\<close>

datatype wind_answer = NoAnswer | Wind "real option"

record wind_state =
  windSpeed :: "real option"
  windLoading :: bool
  windError :: "string option"
  windStored :: "real option"

definition windMidpoint :: "latlng \<Rightarrow> delivery \<Rightarrow> latlng" where
  "windMidpoint launchPoint dd =
     (let lat1 = fst launchPoint;
          lng1 = snd launchPoint;
          lat2 = latitude dd;
          lng2 = longitude dd;
          midLat = (lat1 + lat2) / 2;
          midLng = (lng1 + lng2) / 2
      in (midLat, midLng))"

definition fetchWind ::
  "latlng option \<Rightarrow> delivery option \<Rightarrow> wind_answer \<Rightarrow> wind_state \<Rightarrow> wind_state" where
  "fetchWind launchPoint dd answer st =
     (if launchPoint \<noteq> None \<and> dd \<noteq> None
      then
        let st = st\<lparr>windLoading := True, windError := None, windSpeed := None\<rparr>;
            st = (case answer of
                    Wind speed \<Rightarrow>
                      let wind = (if truthy speed then speed else None);
                          st = st\<lparr>windSpeed := wind\<rparr>
                      in if wind \<noteq> None then st\<lparr>windStored := wind\<rparr> else st
                  | NoAnswer \<Rightarrow> st\<lparr>windError := Some ''Failed to fetch wind speed''\<rparr>)
        in st\<lparr>windLoading := False\<rparr>
      else st)"

datatype wind_text = LoadingText | ErrorText string | SpeedText real

definition windDisplay :: "wind_state \<Rightarrow> wind_text list" where
  "windDisplay st =
     (if windLoading st then [LoadingText] else []) @
     (case windError st of
        None \<Rightarrow> []
      | Some e \<Rightarrow> if e \<noteq> [] then [ErrorText e] else []) @
     (case windSpeed st of
        None \<Rightarrow> []
      | Some w \<Rightarrow>
          if \<not> windLoading st \<and> (case windError st of None \<Rightarrow> True | Some e \<Rightarrow> e = [])
          then [SpeedText w] else [])"

section \<open>The summary\<close>

record summary =
  reductionShown :: real
  emissionShown :: real
  totalTimeShown :: string
  totalTimeRed :: bool

definition sidebarSummary :: "plan_stats \<Rightarrow> xgb_result option \<Rightarrow> summary" where
  "sidebarSummary m xgbResult =
     \<lparr>reductionShown = toFixed 1 (carbonReduction' m),
      emissionShown = toFixed 2 (carbonEmission m),
      totalTimeShown = formatTimeMinutes (Some (totalTripTime m)),
      totalTimeRed = (case xgbResult of None \<Rightarrow> False | Some r \<Rightarrow> truthy (time r))\<rparr>"

section \<open>The prediction block\<close>

text \<open>\<open>a || d\<close> for a text \<open>a\<close> that may be absent.\<close>

definition orText :: "string option \<Rightarrow> string \<Rightarrow> string" where
  "orText v d = (case v of None \<Rightarrow> d | Some x \<Rightarrow> if x \<noteq> [] then x else d)"

record prediction_block =
  locationShown :: latlng
  droneIdShown :: string
  predictedTimeShown :: "real option"

datatype ml_block = PredictionBlock prediction_block | NoPredictionBlock

definition mlBlocks :: "trip \<Rightarrow> xgb_result option \<Rightarrow> ml_block list" where
  "mlBlocks t xgbResult =
     (case (mlPredictedDelivery t, xgbResult) of
        (Some d, Some r) \<Rightarrow>
          [PredictionBlock
             \<lparr>locationShown = (latitude d, longitude d),
              droneIdShown = orText (drone_drone_id r) (orText (droneId' r) ''N/A''),
              predictedTimeShown =
                (if truthy (predicted_time_minutes r)
                 then map_option (toFixed 2) (predicted_time_minutes r)
                 else if truthy (time r) then map_option (toFixed 2) (time r) else None)\<rparr>]
      | _ \<Rightarrow> []) @
     (if mlPredictedDelivery t = None then [NoPredictionBlock] else [])"

section \<open>The list of stops\<close>

record segment_text =
  timeText :: string
  isML :: bool

definition isDroneSegment :: "point_type \<Rightarrow> point_type \<Rightarrow> bool" where
  "isDroneSegment typeA typeB \<longleftrightarrow>
     (typeA = Launch \<and> typeB = DroneDelivery) \<or> (typeA = DroneDelivery \<and> typeB = Landing)"

definition isMLPrediction :: "xgb_result option \<Rightarrow> point_type \<Rightarrow> point_type \<Rightarrow> bool" where
  "isMLPrediction xgbResult typeA typeB \<longleftrightarrow>
     isDroneSegment typeA typeB \<and>
     (case xgbResult of None \<Rightarrow> False | Some r \<Rightarrow> truthy (predicted_time_minutes r))"

text \<open>The text on the arrow after stop \<open>i\<close>; \<open>None\<close> is the empty text of a time that is \<open>NaN\<close>.\<close>

definition segmentText :: "xgb_result option \<Rightarrow> traversal_point list \<Rightarrow> nat \<Rightarrow> segment_text option" where
  "segmentText xgbResult traversalPoints i =
     (let t = getSegmentTime xgbResult
                (coords (traversalPoints ! i)) (coords (traversalPoints ! (i + 1)))
                (type (traversalPoints ! i)) (type (traversalPoints ! (i + 1)))
      in case t of
           None \<Rightarrow> None
         | Some _ \<Rightarrow>
             Some \<lparr>timeText = formatTimeMinutes t,
                   isML = isMLPrediction xgbResult (type (traversalPoints ! i))
                            (type (traversalPoints ! (i + 1)))\<rparr>)"

record stop_line =
  stopLabel :: nat
  stopMessage :: string
  arrow :: "segment_text option"

definition traversalOrder :: "xgb_result option \<Rightarrow> traversal_point list \<Rightarrow> stop_line list" where
  "traversalOrder xgbResult traversalPoints =
     map (\<lambda>i. \<lparr>stopLabel = label (traversalPoints ! i),
               stopMessage = getTypeDisplayMessage (typeName (type (traversalPoints ! i))),
               arrow = (if i < length traversalPoints - 1
                        then segmentText xgbResult traversalPoints i else None)\<rparr>)
       [0..<length traversalPoints]"

section \<open>Colours and the table of locations\<close>

definition typeColor :: "string \<Rightarrow> string" where
  "typeColor ty =
     (if ty = ''HQ'' then ''#1976d2''
      else if ty = ''Truck'' then ''#388e3c''
      else if ty = ''Launch'' then ''#ffa000''
      else if ty = ''DroneDelivery'' then ''#d32f2f''
      else if ty = ''Landing'' then ''#7b1fa2''
      else ''#1976d2'')"

text \<open>
  A row of the table: label, type, colour, and the coordinates, \<open>None\<close> for the
  text \<open>N/A\<close>.  The filter of the source keeps every stop, because the
  coordinates of a stop are always an array of two entries.
\<close>

record location_row =
  rowLabel :: nat
  rowType :: string
  rowColor :: string
  rowCoords :: "latlng option"

definition locations :: "traversal_point list \<Rightarrow> location_row list" where
  "locations traversalPoints =
     map (\<lambda>pt. \<lparr>rowLabel = label pt, rowType = typeName (type pt),
                rowColor = typeColor (typeName (type pt)), rowCoords = coords pt\<rparr>)
       traversalPoints"

section \<open>The markers of the map\<close>

text \<open>\<open>Array.prototype.join\<close> on texts of code units.\<close>

fun join :: "nat list \<Rightarrow> nat list list \<Rightarrow> nat list" where
  "join sep [] = []"
| "join sep [x] = x"
| "join sep (x # y # ys) = x @ sep @ join sep (y # ys)"

definition sameCoordIndices :: "traversal_point list \<Rightarrow> traversal_point \<Rightarrow> nat list" where
  "sameCoordIndices traversalPoints pt =
     filter (\<lambda>i. coords (traversalPoints ! i) = coords pt) [0..<length traversalPoints]"

definition stepLetters :: "nat list \<Rightarrow> nat list" where
  "stepLetters sameIndices = join [44, 32] (map (\<lambda>i. [getLabel i]) sameIndices)"

record marker =
  position :: latlng
  letters :: "nat list"
  markerType :: string
  markerColor :: string
  popupLabel :: nat
  popupCoords :: latlng
  droneIdUsed :: "string option"

text \<open>
  The marker element of a stop with the indices of all stops at its place: a
  \<open>TypeError\<close> when the popup calls \<open>toFixed\<close> on a coordinate that is \<open>null\<close>.
\<close>

definition composeMarker :: "trip \<Rightarrow> traversal_point \<Rightarrow> nat list \<Rightarrow> js_error + marker" where
  "composeMarker t pt sameIndices =
     (case coords pt of
        None \<Rightarrow> Inl TypeError
      | Some (la, lo) \<Rightarrow>
          Inr \<lparr>position = (la, lo),
               letters = stepLetters sameIndices,
               markerType = typeName (type pt),
               markerColor = typeColor (typeName (type pt)),
               popupLabel = label pt,
               popupCoords = (toFixed 5 la, toFixed 5 lo),
               droneIdUsed = (if type pt = DroneDelivery then Some (droneId (drone t))
                              else None)\<rparr>)"

text \<open>The marker of stop \<open>i\<close>: none when an earlier stop has the same coordinates.\<close>

definition markerAt :: "trip \<Rightarrow> traversal_point list \<Rightarrow> nat \<Rightarrow> js_error + marker option" where
  "markerAt t traversalPoints i =
     (let pt = traversalPoints ! i;
          sameIndices = sameCoordIndices traversalPoints pt
      in if (case sameIndices of [] \<Rightarrow> True | k # _ \<Rightarrow> k \<noteq> i) then Inr None
         else (case composeMarker t pt sameIndices of
                 Inl e \<Rightarrow> Inl e
               | Inr m \<Rightarrow> Inr (Some m)))"

text \<open>The elements that are drawn, in order; the first error ends the drawing.\<close>

fun collect :: "(js_error + 'a option) list \<Rightarrow> js_error + 'a list" where
  "collect [] = Inr []"
| "collect (x # xs) =
     (case x of
        Inl e \<Rightarrow> Inl e
      | Inr v \<Rightarrow>
          (case collect xs of
             Inl e \<Rightarrow> Inl e
           | Inr vs \<Rightarrow> Inr (case v of None \<Rightarrow> vs | Some a \<Rightarrow> a # vs)))"

definition markers :: "trip \<Rightarrow> traversal_point list \<Rightarrow> js_error + marker list" where
  "markers t traversalPoints =
     collect (map (markerAt t traversalPoints) [0..<length traversalPoints])"

section \<open>The lines and the annotations of the drone leg\<close>

definition truckLine :: "latlng list \<Rightarrow> latlng list option" where
  "truckLine polyline = (if length polyline > 1 then Some polyline else None)"

definition droneLine :: "latlng option \<Rightarrow> delivery \<Rightarrow> latlng list option" where
  "droneLine launchPoint dd =
     (case launchPoint of
        None \<Rightarrow> None
      | Some lp \<Rightarrow> Some [lp, (latitude dd, longitude dd), lp])"

record annotation =
  anchor :: latlng
  minutesShown :: real

definition annotations :: "latlng option \<Rightarrow> delivery \<Rightarrow> xgb_result option \<Rightarrow> annotation list" where
  "annotations launchPoint dd xgbResult =
     (case (launchPoint, xgbResult) of
        (Some lp, Some r) \<Rightarrow>
          (case predicted_time_minutes r of
             None \<Rightarrow> []
           | Some p \<Rightarrow>
               if p \<noteq> 0
               then [\<lparr>anchor = ((fst lp + latitude dd) / 2,
                                 (snd lp + longitude dd) / 2),
                       minutesShown = toFixed 0 (p / 2)\<rparr>,
                     \<lparr>anchor = ((latitude dd + fst lp) / 2,
                                 (longitude dd + snd lp) / 2),
                       minutesShown = toFixed 0 (p / 2)\<rparr>]
               else [])
      | _ \<Rightarrow> [])"

section \<open>The reference\<close>

text \<open>Stop \<open>i\<close> is the first stop at its place.\<close>

definition firstAt :: "traversal_point list \<Rightarrow> nat \<Rightarrow> bool" where
  "firstAt tr i \<longleftrightarrow> list_all (\<lambda>j. coords (tr ! j) \<noteq> coords (tr ! i)) [0..<i]"

section \<open>Joined texts and collected elements\<close>

lemma set_join: "set (join sep xss) \<supseteq> \<Union> (set ` set xss)"
  by (induction sep xss rule: join.induct) auto

lemma stepLetters_mem: "i \<in> set ixs \<Longrightarrow> getLabel i \<in> set (stepLetters ixs)"
  using set_join [of "map (\<lambda>i. [getLabel i]) ixs" "[44, 32]"] by (auto simp: stepLetters_def)

lemma stepLetters_single [simp]: "stepLetters [i] = [getLabel i]"
  by (simp add: stepLetters_def)

lemma stepLetters_pair [simp]: "stepLetters [i, j] = [getLabel i, 44, 32, getLabel j]"
  by (simp add: stepLetters_def)

lemma collect_map:
  assumes "\<And>x. x \<in> set xs \<Longrightarrow> f x = Inr (if P x then Some (g x) else None)"
  shows "collect (map f xs) = Inr (map g (filter P xs))"
  using assms
proof (induction xs)
  case Nil
  show ?case by simp
next
  case (Cons a xs)
  have a: "f a = Inr (if P a then Some (g a) else None)"
    by (rule Cons.prems) simp
  have "collect (map f xs) = Inr (map g (filter P xs))"
    by (rule Cons.IH) (simp add: Cons.prems)
  with a show ?case by simp
qed

lemma collect_Cons_InrD:
  "collect (x # xs) = Inr ys \<Longrightarrow> (\<exists>v. x = Inr v) \<and> (\<exists>vs. collect xs = Inr vs)"
  by (cases x; cases "collect xs") simp_all

lemma collect_InrD:
  "collect (map f xs) = Inr ys \<Longrightarrow> x \<in> set xs \<Longrightarrow> \<exists>v. f x = Inr v"
proof (induction xs arbitrary: ys)
  case Nil
  then show ?case by simp
next
  case (Cons a xs)
  from Cons.prems(1) have "collect (f a # map f xs) = Inr ys" by simp
  from collect_Cons_InrD [OF this] obtain v vs
    where "f a = Inr v" "collect (map f xs) = Inr vs" by blast
  with Cons.IH [of vs] Cons.prems(2) show ?case by auto
qed

section \<open>The first stop at a place\<close>

lemma firstAt_iff: "firstAt tr i \<longleftrightarrow> (\<forall>j<i. coords (tr ! j) \<noteq> coords (tr ! i))"
  by (auto simp: firstAt_def list_all_iff)

lemma filter_upt_Cons_from:
  "filter P [m..<n] = k # ks \<Longrightarrow> m \<le> k \<and> k < n \<and> P k \<and> (\<forall>j. m \<le> j \<longrightarrow> j < k \<longrightarrow> \<not> P j)"
proof (induction "n - m" arbitrary: m)
  case 0
  then show ?case by simp
next
  case (Suc d)
  then have mn: "m < n" by simp
  then have upt: "[m..<n] = m # [Suc m..<n]" by (rule upt_conv_Cons)
  show ?case
  proof (cases "P m")
    case True
    with Suc.prems upt have "k = m" by simp
    with True mn show ?thesis by simp
  next
    case False
    with Suc.prems upt have f: "filter P [Suc m..<n] = k # ks" by simp
    from Suc.hyps(2) have d: "d = n - Suc m" by simp
    from Suc.hyps(1) [OF d f]
    have ih: "Suc m \<le> k" "k < n" "P k" "\<forall>j. Suc m \<le> j \<longrightarrow> j < k \<longrightarrow> \<not> P j"
      by simp_all
    have "\<not> P j" if "m \<le> j" "j < k" for j
    proof (cases "j = m")
      case True
      with False show ?thesis by simp
    next
      case False
      with that(1) have "Suc m \<le> j" by simp
      with ih(4) that(2) show ?thesis by simp
    qed
    with ih show ?thesis by simp
  qed
qed

lemma filter_upt_Cons:
  "filter P [0..<n] = k # ks \<Longrightarrow> k < n \<and> P k \<and> (\<forall>j<k. \<not> P j)"
  using filter_upt_Cons_from [of P 0 n k ks] by simp

lemma sameCoordIndices_mem:
  "j \<in> set (sameCoordIndices tr pt) \<longleftrightarrow> j < length tr \<and> coords (tr ! j) = coords pt"
  by (auto simp: sameCoordIndices_def)

lemma sameCoordIndices_cong:
  "coords p = coords q \<Longrightarrow> sameCoordIndices tr p = sameCoordIndices tr q"
  by (simp add: sameCoordIndices_def)

lemma sameCoordIndices_first:
  assumes "i < length tr"
  shows "(case sameCoordIndices tr (tr ! i) of [] \<Rightarrow> True | k # _ \<Rightarrow> k \<noteq> i) \<longleftrightarrow> \<not> firstAt tr i"
proof -
  let ?P = "\<lambda>j. coords (tr ! j) = coords (tr ! i)"
  from assms have "i \<in> set (sameCoordIndices tr (tr ! i))"
    by (simp add: sameCoordIndices_mem)
  then obtain k ks where ks: "sameCoordIndices tr (tr ! i) = k # ks"
    by (cases "sameCoordIndices tr (tr ! i)") auto
  then have "filter ?P [0..<length tr] = k # ks"
    by (simp add: sameCoordIndices_def)
  from filter_upt_Cons [OF this] have k: "?P k" "\<forall>j<k. \<not> ?P j" by simp_all
  have "k \<noteq> i \<longleftrightarrow> (\<exists>j<i. ?P j)"
  proof
    assume "k \<noteq> i"
    moreover from k(2) have "\<not> i < k" by auto
    ultimately have "k < i" by simp
    with k(1) show "\<exists>j<i. ?P j" by blast
  next
    assume "\<exists>j<i. ?P j"
    with k(2) show "k \<noteq> i" by auto
  qed
  then show ?thesis
    by (simp add: ks firstAt_iff)
qed

lemma firstAt_least:
  "\<exists>k\<le>i. firstAt tr k \<and> coords (tr ! k) = coords (tr ! i)"
proof (induction i rule: less_induct)
  case (less i)
  show ?case
  proof (cases "firstAt tr i")
    case True
    then show ?thesis by blast
  next
    case False
    then obtain j where j: "j < i" "coords (tr ! j) = coords (tr ! i)"
      by (auto simp: firstAt_iff)
    from less.IH [OF j(1)] obtain k
      where k: "k \<le> j" "firstAt tr k" "coords (tr ! k) = coords (tr ! j)"
      by blast
    from k(1) j(1) have "k \<le> i" by simp
    with k j(2) show ?thesis by auto
  qed
qed

section \<open>The markers of a traversal\<close>

lemma markerAt_first:
  assumes "i < length tr" and "coords (tr ! i) = Some c"
  shows "markerAt t tr i =
    Inr (if firstAt tr i
         then Some (projr (composeMarker t (tr ! i) (sameCoordIndices tr (tr ! i)))) else None)"
  using assms sameCoordIndices_first [OF assms(1)]
  by (cases c) (simp add: markerAt_def composeMarker_def Let_def)

lemma markers_eq:
  assumes "\<forall>p\<in>set tr. coords p \<noteq> None"
  shows "markers t tr =
    Inr (map (\<lambda>i. projr (composeMarker t (tr ! i) (sameCoordIndices tr (tr ! i))))
           (filter (firstAt tr) [0..<length tr]))"
  unfolding markers_def
proof (rule collect_map)
  fix i assume "i \<in> set [0..<length tr]"
  then have i: "i < length tr" by simp
  with assms obtain c where "coords (tr ! i) = Some c" by (metis nth_mem not_None_eq)
  with i show "markerAt t tr i =
    Inr (if firstAt tr i
         then Some (projr (composeMarker t (tr ! i) (sameCoordIndices tr (tr ! i)))) else None)"
    by (rule markerAt_first)
qed

lemma composeMarker_sel:
  assumes "coords pt = Some c"
  shows "position (projr (composeMarker t pt ixs)) = c"
    and "letters (projr (composeMarker t pt ixs)) = stepLetters ixs"
    and "markerType (projr (composeMarker t pt ixs)) = typeName (type pt)"
    and "popupLabel (projr (composeMarker t pt ixs)) = label pt"
  using assms by (cases c; simp add: composeMarker_def)+

lemma markerAt_None_coords:
  assumes "i < length tr" and "firstAt tr i" and "coords (tr ! i) = None"
  shows "markerAt t tr i = Inl TypeError"
  using assms(2,3) sameCoordIndices_first [OF assms(1)]
  by (simp add: markerAt_def composeMarker_def Let_def)

lemma markers_all_Some:
  assumes "markers t tr = Inr ms" and "p \<in> set tr"
  shows "coords p \<noteq> None"
proof -
  from assms(2) obtain i where i: "i < length tr" "p = tr ! i"
    by (auto simp: in_set_conv_nth)
  from firstAt_least [of i tr] obtain k
    where k: "k \<le> i" "firstAt tr k" "coords (tr ! k) = coords (tr ! i)"
    by blast
  with i(1) have kn: "k < length tr" by simp
  then have "k \<in> set [0..<length tr]" by simp
  from collect_InrD [OF assms(1) [unfolded markers_def] this]
  have "markerAt t tr k \<noteq> Inl TypeError" by auto
  with markerAt_None_coords [OF kn k(2)] have "coords (tr ! k) \<noteq> None" by blast
  with k(3) i(2) show ?thesis by simp
qed

lemma markers_at:
  assumes "markers t tr = Inr ms" and "i < length tr"
  shows "\<exists>m\<in>set ms. coords (tr ! i) = Some (position m) \<and>
           letters m = stepLetters (sameCoordIndices tr (tr ! i)) \<and>
           i \<in> set (sameCoordIndices tr (tr ! i))"
proof -
  let ?mk = "\<lambda>i. projr (composeMarker t (tr ! i) (sameCoordIndices tr (tr ! i)))"
  have all: "\<forall>p\<in>set tr. coords p \<noteq> None"
    using markers_all_Some [OF assms(1)] by blast
  from markers_eq [OF this, of t] assms(1)
  have ms: "ms = map ?mk (filter (firstAt tr) [0..<length tr])" by simp
  from firstAt_least [of i tr] obtain k
    where k: "k \<le> i" "firstAt tr k" "coords (tr ! k) = coords (tr ! i)"
    by blast
  with assms(2) have kn: "k < length tr" by simp
  with all obtain c where c: "coords (tr ! k) = Some c" by (metis nth_mem not_None_eq)
  from kn k(2) have "?mk k \<in> set ms" by (simp add: ms)
  moreover have "coords (tr ! i) = Some (position (?mk k))"
    using composeMarker_sel(1) [OF c] k(3) c by simp
  moreover have "letters (?mk k) = stepLetters (sameCoordIndices tr (tr ! i))"
    using composeMarker_sel(2) [OF c] sameCoordIndices_cong [OF k(3), of tr] by simp
  moreover from assms(2) have "i \<in> set (sameCoordIndices tr (tr ! i))"
    by (simp add: sameCoordIndices_mem)
  ultimately show ?thesis by blast
qed

lemma markers_distinct:
  assumes "markers t tr = Inr ms"
  shows "distinct (map position ms)"
proof -
  let ?mk = "\<lambda>i. projr (composeMarker t (tr ! i) (sameCoordIndices tr (tr ! i)))"
  have all: "\<forall>p\<in>set tr. coords p \<noteq> None"
    using markers_all_Some [OF assms] by blast
  from markers_eq [OF this, of t] assms
  have ms: "ms = map ?mk (filter (firstAt tr) [0..<length tr])" by simp
  have pos: "Some (position (?mk i)) = coords (tr ! i)" if "i < length tr" for i
  proof -
    from all that obtain c where c: "coords (tr ! i) = Some c" by (metis nth_mem not_None_eq)
    from composeMarker_sel(1) [OF c] c show ?thesis by simp
  qed
  have "inj_on (\<lambda>i. position (?mk i)) (set (filter (firstAt tr) [0..<length tr]))"
  proof (rule inj_onI)
    fix i j
    assume i: "i \<in> set (filter (firstAt tr) [0..<length tr])"
      and j: "j \<in> set (filter (firstAt tr) [0..<length tr])"
      and eq: "position (?mk i) = position (?mk j)"
    from i j have "coords (tr ! i) = coords (tr ! j)"
      using pos [of i] pos [of j] eq by simp
    moreover from i j have "firstAt tr i" "firstAt tr j" by simp_all
    ultimately have "\<not> i < j" "\<not> j < i" by (auto simp: firstAt_iff)
    then show "i = j" by simp
  qed
  then show ?thesis
    by (simp add: ms distinct_map comp_def)
qed

section \<open>Launch and landing\<close>

lemma hybrid_types_Landing:
  "i < length (hybrid_types a b) \<Longrightarrow> hybrid_types a b ! i = Landing \<Longrightarrow> i = a + 3"
  by (auto simp: hybrid_types_def nth_append nth_Cons split: nat.splits if_splits)

lemma composeTraversal_launch_landing:
  assumes "2 \<le> length order" and "k = findInsertIdx order (Some lp)"
  shows "coords (composeTraversal order (Some lp) dd ! k) = Some lp"
    and "coords (composeTraversal order (Some lp) dd ! (k + 2)) = Some lp"
    and "k + 2 < length (composeTraversal order (Some lp) dd)"
    and "i < length (composeTraversal order (Some lp) dd) \<Longrightarrow>
         type (composeTraversal order (Some lp) dd ! i) = Landing \<Longrightarrow> i = k + 2"
proof -
  let ?tr = "composeTraversal order (Some lp) dd"
  from findInsertIdx_found [OF assms(1), of lp] assms(2) obtain j
    where j: "j < length order - 1" "k = Suc j" by auto
  then have kl: "k \<le> length order" by simp
  have len: "length ?tr = length order + 3" by (simp add: length_composeTraversal)
  then show "k + 2 < length ?tr" using kl by simp
  have c: "map coords ?tr =
      map Some (take k order) @ [Some lp, dd, Some lp] @ map Some (drop k order)"
    using composeTraversal_coords [of order "Some lp" dd] by (simp add: allPoints_def assms(2))
  have "map coords ?tr ! k = Some lp" "map coords ?tr ! (k + 2) = Some lp"
    unfolding c using kl by (simp_all add: nth_append)
  with len kl show "coords (?tr ! k) = Some lp" "coords (?tr ! (k + 2)) = Some lp"
    by simp_all
  have ty: "map type ?tr = hybrid_types j (length order - k)"
    using composeTraversal_types [OF assms(1), of lp dd] by (simp add: assms(2) [symmetric] j(2))
  show "i = k + 2" if "i < length ?tr" "type (?tr ! i) = Landing"
  proof -
    from that have "i < length (hybrid_types j (length order - k))"
      "hybrid_types j (length order - k) ! i = Landing"
      unfolding ty [symmetric] by simp_all
    from hybrid_types_Landing [OF this] j(2) show ?thesis by simp
  qed
qed

text \<open>The landing is never the first stop at its place, so it has no marker.\<close>

lemma markers_composed:
  assumes "2 \<le> length order"
  shows "\<exists>ms. markers t (composeTraversal order (Some lp) (Some d)) = Inr ms \<and>
           ''Landing'' \<notin> set (map markerType ms) \<and> length ms \<le> length order + 2"
proof -
  let ?tr = "composeTraversal order (Some lp) (Some d)"
  let ?mk = "\<lambda>i. projr (composeMarker t (?tr ! i) (sameCoordIndices ?tr (?tr ! i)))"
  let ?k = "findInsertIdx order (Some lp)"
  note ll = composeTraversal_launch_landing [OF assms refl, where dd = "Some d" and lp = lp]
  have all: "\<forall>p\<in>set ?tr. coords p \<noteq> None"
    using composeTraversal_coords_Some [of _ order] by blast
  from markers_eq [OF this, of t]
  have ms: "markers t ?tr = Inr (map ?mk (filter (firstAt ?tr) [0..<length ?tr]))" .
  have "\<exists>j<?k + 2. coords (?tr ! j) = coords (?tr ! (?k + 2))"
    using ll(1,2) by (intro exI [of _ ?k]) simp
  then have notfirst: "\<not> firstAt ?tr (?k + 2)"
    by (simp add: firstAt_iff)
  have nl: "markerType (?mk i) \<noteq> ''Landing''" if "i < length ?tr" "firstAt ?tr i" for i
  proof
    assume l: "markerType (?mk i) = ''Landing''"
    from all that(1) obtain c where c: "coords (?tr ! i) = Some c"
      by (metis nth_mem not_None_eq)
    from composeMarker_sel(3) [OF c] l have "typeName (type (?tr ! i)) = ''Landing''" by simp
    then have "type (?tr ! i) = Landing"
      by (cases "type (?tr ! i)") (simp_all add: typeName_def)
    from ll(4) [OF that(1) this] that(2) notfirst show False by simp
  qed
  have 1: "''Landing'' \<notin> set (map markerType (map ?mk (filter (firstAt ?tr) [0..<length ?tr])))"
  proof
    assume "''Landing'' \<in> set (map markerType (map ?mk (filter (firstAt ?tr) [0..<length ?tr])))"
    then obtain i where "i < length ?tr" "firstAt ?tr i" "markerType (?mk i) = ''Landing''"
      by auto
    with nl show False by blast
  qed
  have "length (filter (firstAt ?tr) [0..<length ?tr]) < length [0..<length ?tr]"
    by (rule length_filter_less [of "?k + 2"]) (use ll(3) notfirst in simp_all)
  then have 2: "length (map ?mk (filter (firstAt ?tr) [0..<length ?tr])) \<le> length order + 2"
    by (simp add: length_composeTraversal)
  from ms 1 2 show ?thesis by blast
qed

section \<open>The wind line and the prediction\<close>

lemma fetchWind_absent [simp]:
  "fetchWind None dd answer st = st" "fetchWind lp None answer st = st"
  by (simp_all add: fetchWind_def)

lemma loadXgb_Some_iff: "loadXgb item = Some r \<longleftrightarrow> item = Json r"
  by (cases item) (simp_all add: loadXgb_def)

lemma isDroneSegment_drone_segment: "isDroneSegment typeA typeB = drone_segment typeA typeB"
  by (simp add: isDroneSegment_def drone_segment_def)

lemma segmentText_None_iff:
  "segmentText xgb tr i = None \<longleftrightarrow> coords (tr ! i) = None \<or> coords (tr ! (i + 1)) = None"
proof -
  let ?t = "getSegmentTime xgb (coords (tr ! i)) (coords (tr ! (i + 1)))
    (type (tr ! i)) (type (tr ! (i + 1)))"
  have "segmentText xgb tr i = None \<longleftrightarrow> ?t = None"
    by (cases ?t) (simp_all add: segmentText_def)
  then show ?thesis by (simp only: getSegmentTime_None_iff)
qed

lemma segmentText_time_only:
  assumes "coords (tr ! i) = Some a" and "coords (tr ! (i + 1)) = Some b"
    and "type (tr ! i) = Launch" and "type (tr ! (i + 1)) = DroneDelivery" and "p \<noteq> 0"
  shows "segmentText (Some \<lparr>predicted_time_minutes = None, time = Some p, drone_id = i1,
      drone_drone_id = i2, droneId' = i3\<rparr>) tr i =
    Some \<lparr>timeText = formatTimeMinutes (Some p), isML = False\<rparr>"
  using assms
  by (simp add: segmentText_def Let_def getSegmentTime_drone drone_segment_def truthy_def
      isMLPrediction_def)

lemma mlBlocks_plain: "mlPredictedDelivery t = None \<Longrightarrow> mlBlocks t xgb = [NoPredictionBlock]"
  by (simp add: mlBlocks_def)

text \<open>
  The identifier shown in the prediction block and the identifier stored by
  the commit are read from different fields: one that is only in \<open>drone_id\<close>
  is stored and not shown, one that is only in \<open>droneId\<close> is shown and not
  stored.
\<close>

lemma drone_id_fields_differ:
  assumes "i \<noteq> []" and "mlPredictedDelivery t = Some d"
  shows "mlBlocks t (Some \<lparr>predicted_time_minutes = p, time = q, drone_id = Some i,
           drone_drone_id = None, droneId' = None\<rparr>) =
         [PredictionBlock \<lparr>locationShown = (latitude d, longitude d), droneIdShown = ''N/A'',
            predictedTimeShown =
              (if truthy p then map_option (toFixed 2) p
               else if truthy q then map_option (toFixed 2) q else None)\<rparr>]"
    and "mlBlocks t (Some \<lparr>predicted_time_minutes = p, time = q, drone_id = None,
           drone_drone_id = None, droneId' = Some i\<rparr>) =
         [PredictionBlock \<lparr>locationShown = (latitude d, longitude d), droneIdShown = i,
            predictedTimeShown =
              (if truthy p then map_option (toFixed 2) p
               else if truthy q then map_option (toFixed 2) q else None)\<rparr>]"
  using assms by (simp_all add: mlBlocks_def orText_def)

section \<open>Properties of the view\<close>

text \<open>
  C33: When the markers of a traversal are drawn, no two markers are at the
  same place, and every stop of the traversal is on a marker: the marker at
  its coordinates, whose text is the letters of all stops at these
  coordinates, the letter of the stop among them.
\<close>

theorem markers_cover:
  assumes "markers t tr = Inr ms"
  shows "distinct (map position ms) \<and>
         (\<forall>i<length tr. \<exists>m\<in>set ms. coords (tr ! i) = Some (position m) \<and>
            letters m = stepLetters (sameCoordIndices tr (tr ! i)) \<and>
            getLabel i \<in> set (letters m))"
proof -
  have "\<exists>m\<in>set ms. coords (tr ! i) = Some (position m) \<and>
      letters m = stepLetters (sameCoordIndices tr (tr ! i)) \<and>
      getLabel i \<in> set (letters m)" if "i < length tr" for i
    using markers_at [OF assms that] stepLetters_mem [of i "sameCoordIndices tr (tr ! i)"]
    by auto
  with markers_distinct [OF assms] show ?thesis by blast
qed

theorem markers_cover_witness:
  "\<exists>ms. markers (snd (candidateTrip ''now'' exAB 1 exDrone)) (composeTraversal exPath (Some (onMeridian 15)) (Some (onMeridian 14))) =
       Inr ms \<and> distinct (map position ms)"
proof -
  let ?tr = "composeTraversal exPath (Some (onMeridian 15)) (Some (onMeridian 14))"
  have "\<forall>p\<in>set ?tr. coords p \<noteq> None"
    using composeTraversal_coords_Some [of _ exPath] by blast
  from markers_eq [OF this, of "snd (candidateTrip ''now'' exAB 1 exDrone)"] obtain ms
    where ms: "markers (snd (candidateTrip ''now'' exAB 1 exDrone)) ?tr = Inr ms"
    by blast
  from markers_cover [OF this] ms show ?thesis by blast
qed

text \<open>
  C34: The landing never has a marker of its own.  In the traversal of a
  route of at least two points with a launch point, the markers are drawn,
  none of them has the type \<open>Landing\<close>, there are fewer markers than stops, and
  the marker at the launch point carries the letters of the launch and of the
  landing.
\<close>

theorem markers_launch_landing:
  assumes "2 \<le> length order" and "k = findInsertIdx order (Some lp)"
  shows "\<exists>ms. markers t (composeTraversal order (Some lp) (Some d)) = Inr ms \<and>
           ''Landing'' \<notin> set (map markerType ms) \<and>
           length ms \<le> length order + 2 \<and>
           (\<exists>m\<in>set ms. position m = lp \<and> getLabel k \<in> set (letters m) \<and>
              getLabel (k + 2) \<in> set (letters m))"
proof -
  let ?tr = "composeTraversal order (Some lp) (Some d)"
  note ll = composeTraversal_launch_landing [OF assms, where dd = "Some d"]
  from markers_composed [OF assms(1), of t lp d] obtain ms
    where ms: "markers t ?tr = Inr ms" "''Landing'' \<notin> set (map markerType ms)"
      "length ms \<le> length order + 2"
    by blast
  from ll(3) have kn: "k < length ?tr" by simp
  from markers_at [OF ms(1) kn] obtain m
    where m: "m \<in> set ms" "coords (?tr ! k) = Some (position m)"
      "letters m = stepLetters (sameCoordIndices ?tr (?tr ! k))"
    by blast
  from ll(1,2,3) kn have "k \<in> set (sameCoordIndices ?tr (?tr ! k))"
    "k + 2 \<in> set (sameCoordIndices ?tr (?tr ! k))"
    by (simp_all add: sameCoordIndices_mem)
  then have "getLabel k \<in> set (letters m)" "getLabel (k + 2) \<in> set (letters m)"
    unfolding m(3) by (simp_all add: stepLetters_mem)
  moreover from m(2) ll(1) have "position m = lp" by simp
  ultimately have "\<exists>m\<in>set ms. position m = lp \<and> getLabel k \<in> set (letters m) \<and>
      getLabel (k + 2) \<in> set (letters m)"
    using m(1) by blast
  with ms show ?thesis by blast
qed

theorem markers_launch_landing_witness:
  "\<exists>ms. markers (snd (candidateTrip ''now'' exAB 1 exDrone))
         (composeTraversal exPath (Some (onMeridian 15)) (Some (onMeridian 14))) = Inr ms \<and>
     ''Landing'' \<notin> set (map markerType ms) \<and> length ms \<le> 3 + 2 \<and>
     (\<exists>m\<in>set ms. position m = onMeridian 15 \<and> 67 \<in> set (letters m) \<and> 69 \<in> set (letters m))"
proof -
  have a: "2 \<le> length exPath" and l: "length exPath = 3"
    by (simp_all add: exPath_def)
  have b: "2 = findInsertIdx exPath (Some (onMeridian 15))" by simp
  have g: "getLabel 2 = 67" "getLabel (2 + 2) = 69"
    by (simp_all add: getLabel_def)
  from markers_launch_landing [OF a b, of "snd (candidateTrip ''now'' exAB 1 exDrone)"
      "onMeridian 14"]
  show ?thesis unfolding l g .
qed

text \<open>
  C35: With a prediction of \<open>p\<close> minutes the map annotates each of the two
  drone segments with half of \<open>p\<close>, rounded to minutes, both annotations at the
  middle between launch point and drone delivery, while the list of stops
  gives each of the two segments the whole of \<open>p\<close> and the summary counts \<open>p\<close>
  for the drone trip.
\<close>

theorem annotations_halve_prediction:
  assumes "p \<noteq> 0" and "xgb = Some \<lparr>predicted_time_minutes = Some p, time = t', drone_id = i1,
      drone_drone_id = i2, droneId' = i3\<rparr>"
  shows "map minutesShown (annotations (Some lp) dd xgb) = [toFixed 0 (p / 2), toFixed 0 (p / 2)] \<and>
         map anchor (annotations (Some lp) dd xgb) = [windMidpoint lp dd, windMidpoint lp dd] \<and>
         getSegmentTime xgb (Some lp) (Some (pos dd)) Launch DroneDelivery = Some p \<and>
         getSegmentTime xgb (Some (pos dd)) (Some lp) DroneDelivery Landing = Some p \<and>
         droneTime xgb leg = p"
  using assms
  by (simp add: annotations_def windMidpoint_def Let_def getSegmentTime_drone drone_segment_def
      truthy_def add.commute)

theorem annotations_halve_prediction_witness:
  "map minutesShown (annotations (Some (onMeridian 15)) (deliveryAt (onMeridian 14)) (Some exXgb)) =
     [6, 6] \<and>
   getSegmentTime (Some exXgb) (Some (onMeridian 15)) (Some (pos (deliveryAt (onMeridian 14))))
     Launch DroneDelivery = Some 12"
  using annotations_halve_prediction [where p = 12 and xgb = "Some exXgb" and lp = "onMeridian 15"
      and dd = "deliveryAt (onMeridian 14)" and leg = 0]
  by (simp add: toFixed_def exXgb_def)

text \<open>
  C36: After the wind request for a launch point and a drone delivery, the
  wind line shows the error text when the request failed, the speed when the
  answer has a speed that is not zero, and nothing otherwise: a speed of zero
  is shown like a missing speed.  Without a launch point or without a drone
  delivery no request is made and the state stays as it is.
\<close>

theorem fetchWind_display:
  "windDisplay (fetchWind (Some lp) (Some dd) answer st) =
     (case answer of
        NoAnswer \<Rightarrow> [ErrorText ''Failed to fetch wind speed'']
      | Wind None \<Rightarrow> []
      | Wind (Some w) \<Rightarrow> if w = 0 then [] else [SpeedText w]) \<and>
   windLoading (fetchWind (Some lp) (Some dd) answer st) = False \<and>
   fetchWind None (Some dd) answer st = st \<and>
   fetchWind (Some lp) None answer st = st"
  by (simp add: fetchWind_def windDisplay_def truthy_def Let_def
      split: wind_answer.splits option.splits)

end
