(* ===== verification/Spec2Isabelle.thy ===== *)
theory Spec2Isabelle
  imports Hybrid_Prelude Geodesy Eligibility Optimizer Sequencer Locator Composer Metrics Format
    PlanPage Session View
begin

text \<open>
  \<^bold>\<open>The program.\<close>  The planner of a hybrid truck and drone delivery service, two
  pages of a browser application.  \<^verbatim>\<open>src/Frontend/src/pages/NewTrip.jsx\<close> holds
  the form in which a request is entered (rows of weight, latitude and
  longitude) and the assignment optimizer \<open>optimizeTrip\<close>, which tries every
  delivery of the request as the one that goes by drone and keeps the plan of
  least hybrid carbon.  \<^verbatim>\<open>src/Frontend/src/pages/PathPlanning.jsx\<close> shows the
  latest plan: it orders the truck deliveries by nearest neighbour from the
  depot (\<open>nearestNeighborRoute\<close>), asks a routing service for the road polyline
  of that order, searches the polyline for the point nearest to the drone
  delivery (\<open>closestPointOnPolyline\<close>), composes the traversal
  \<open>HQ, Truck .. Launch, DroneDelivery, Landing .. Truck\<close>, computes the distances,
  times and carbon figures of the plan, and offers two buttons: one commits the
  plan (\<open>Execute Delivery\<close>), one returns to the form with the plan under edit
  (\<open>Edit Delivery\<close>).  The pages share the browser store: the keys \<open>latestTrip\<close>,
  \<open>editTrip\<close>, \<open>allTrips\<close> and \<open>dronesList\<close>.

  \<^bold>\<open>The theories\<close>, in the order of the imports; each models the code it names,
  with the names of the code, and is executable.

  \<^item> \<open>Hybrid_Prelude\<close>: what the components share.  A JavaScript number is a
    \<open>real\<close>; \<open>Infinity\<close>, \<open>null\<close>, \<open>undefined\<close> and \<open>NaN\<close> are \<open>None\<close> of an option
    (\<open>lt_inf\<close> is \<open><\<close> against a bound that starts as \<open>Infinity\<close>); a thrown
    \<open>TypeError\<close> is \<open>Inl TypeError\<close> of a sum type.  \<open>toFixed\<close> and \<open>js_round\<close> are
    \<open>Number.toFixed\<close> read back as a number and \<open>Math.round\<close>; \<open>legs_sum\<close> is the
    length of a path under a distance; \<open>first_min\<close> is the reference scan for
    the first least element, which the loops of the sequencer, the locator and
    the composer are proved to compute; \<open>splice1\<close> and \<open>filter_idx_neq\<close> remove
    one index from a list.  The lemma collections and the lemmas on folds
    (\<open>fold_sim\<close>, the simulation of one fold by another) are here.
  \<^item> \<open>Geodesy\<close>: \<open>getDistance\<close> of \<^verbatim>\<open>NewTrip.jsx\<close> (miles, earth radius 3958.8)
    and \<open>toRad\<close>, \<open>haversineDistance\<close>, \<open>miles\<close> of \<^verbatim>\<open>PathPlanning.jsx\<close>
    (kilometres, radius 6371).  \<open>atan2\<close> is defined on the reals as
    \<open>Math.atan2\<close> is.  The lemmas show that the \<open>atan2\<close> formula is the
    \<open>arcsin\<close> form of the haversine formula, symmetry, the range
    \<open>[0, \<pi> R]\<close>, and the exact value on a meridian, which makes the
    examples of the other theories rational numbers.
  \<^item> \<open>Eligibility\<close>: the records \<open>delivery\<close> and \<open>drone\<close>, the filter
    \<open>availableDrones\<close> and the choice \<open>pickDrone\<close> of the first eligible drone
    (\<open>optimizeTrip\<close>, the filter and the \<open>[0]\<close> inside the loop).
  \<^item> \<open>Optimizer\<close>: \<open>optimizeTrip\<close> of \<^verbatim>\<open>NewTrip.jsx\<close>: the record \<open>trip\<close>, the
    truck loop \<open>truckLoop\<close> and round trip, the \<open>reduce\<close> of the all-truck
    baseline \<open>truckOnlyRoute\<close>, one candidate plan \<open>candidateTrip\<close>, one
    iteration \<open>optimizeTrip_step\<close> and the loop \<open>optimizeTrip\<close> as a fold.  The
    clock is a parameter \<open>now\<close>.  The lemmas show the invariant \<open>opt_inv\<close> of the
    loop and from it: a plan is a partition of the request, its drone is
    eligible, no plan is returned exactly when no delivery is feasible, and the
    plan kept is least in the \<^emph>\<open>rounded\<close> carbon that the loop compares, which
    is not always least in the carbon itself.
  \<^item> \<open>Sequencer\<close>: \<open>nearestNeighborRoute\<close>: the inner scan \<open>scanNearest\<close> and
    \<open>nearestIdx\<close>, the outer loop \<open>nnLoop\<close> (a \<open>function\<close> whose termination is
    the shrinking of the unvisited list).  The lemmas show that it refines the
    specification \<open>nn_route\<close>, visits every delivery once and is greedy.
  \<^item> \<open>Locator\<close>: \<open>closestPointOnPolyline\<close> (\<open>sampleStep\<close>, \<open>segmentScan\<close>),
    \<open>truckDistanceToLaunch\<close>, \<open>truckDistanceAfterLaunch\<close>, and the choice of
    the path that the page searches (\<open>choosePolyline\<close>, \<open>locateLaunch\<close>).  The
    search is proved equal to \<open>first_min\<close> over the list \<open>samples\<close> of all sample
    points; the two distances are proved to be a prefix and a suffix length
    around the launch, which add up to the path length on a meridian and do
    not in general, because the launch is interpolated in coordinates.
  \<^item> \<open>Composer\<close>: the traversal of the page, \<open>findInsertIdx\<close>, \<open>insertStep\<close>,
    \<open>assignLabels\<close>, \<open>composeTraversal\<close>, with \<open>getLabel\<close> and
    \<open>getTypeDisplayMessage\<close>.  The lemmas give the shape of the traversal, the
    order of its truck stops, its labels and the place of the drone leg.
  \<^item> \<open>Metrics\<close>: \<open>getSegmentTime\<close>, the segment times, and the figures of the
    summary as the function \<open>planStats\<close>, which returns \<open>Inl TypeError\<close> where
    the page reads a coordinate of \<open>undefined\<close>.
  \<^item> \<open>Format\<close>: \<open>formatTimeMinutes\<close>, over a decimal printer \<open>string_of_nat\<close>
    for the template strings (a \<open>function\<close>; it terminates because the number
    is divided by ten).
  \<^item> \<open>PlanPage\<close>: the page as one function \<open>renderPlan\<close> from the stored
    plan, the answer of the routing service and the answer of the prediction
    service to what the page shows: \<open>Loading\<close>, a plan, or the \<open>TypeError\<close>
    with which the render ends.  The depot and the drone delivery of the page
    (\<open>pageHQ\<close>, \<open>pageDroneDelivery\<close>) come from the fields \<open>hqLat\<close>, \<open>hqLng\<close> and
    \<open>mlPredictedDelivery\<close> of the stored plan when it has them; the plans of
    \<open>optimizeTrip\<close> have none of them.
  \<^item> \<open>Session\<close>: the form of \<^verbatim>\<open>NewTrip.jsx\<close> and the store as the record
    \<open>session\<close>; the handlers \<open>prefill\<close>, \<open>setField\<close>, \<open>setCount\<close>, \<open>submit\<close> of the
    form and \<open>loadTrip\<close>, \<open>executeTrip\<close>, \<open>editDelivery\<close> of the plan page; the
    events of each page as the relations \<open>form_step\<close> and \<open>plan_step\<close>, a step of
    the session as \<open>step\<close> (an event of the page that is shown), and the
    sessions \<open>reachable\<close> from \<open>initial\<close>.  The lemmas show the invariant
    \<open>session_inv\<close> by rule induction, that every content of the form can be
    entered, the round trip of an edit, and that a feasible request can be
    committed.  The fleet that the form reads through \<open>useDrones\<close> is the
    parameter \<open>drones\<close>; the list of drones in the store is the field
    \<open>dronesList\<close>, which the commit updates.
  \<^item> \<open>View\<close>: what the plan page computes for display: the load of the
    stored prediction (\<open>loadXgb\<close>), the wind request and its line of text
    (\<open>fetchWind\<close>, \<open>windDisplay\<close>), the summary, the text of each segment time
    (\<open>segmentText\<close>), the table of locations, the markers of the map
    (\<open>sameCoordIndices\<close>, \<open>stepLetters\<close>, \<open>markerAt\<close>, \<open>markers\<close>) and the lines
    and annotations of the drone leg.  The lemmas show that every stop is on
    exactly one marker, that launch and landing share theirs, and how the
    texts treat a prediction.
  \<^item> This theory: the properties that span the optimizer, the sequencer, the
    composer, the plan page and the session.

  \<^bold>\<open>Bounds.\<close>  Nothing is bounded by fuel: every loop of the code runs over a
  list or a range and is a \<open>fold\<close>, or is a \<open>function\<close> with its termination
  proof.  The number of samples of a segment is the parameter of
  \<open>closestPointOnPolyline\<close>; the page uses the default 50, and the examples are
  evaluated with 2 and with 50.  Labels are the UTF-16 code units of
  \<open>String.fromCharCode\<close>, so \<open>getLabel\<close> wraps at \<open>65536\<close>.

  \<^bold>\<open>Not modelled.\<close>  The drawing itself: styles and layout of both pages,
  \<open>FitBounds\<close>, \<open>letterIcon\<close>, the tile layers and controls of the map; they
  change no state and compute nothing that the plan depends on.  The requests
  to the three remote services (road routing, weather, time prediction) and
  to the server that stores a committed plan: their answers are parameters
  (\<open>routed\<close>, \<open>answer\<close>, \<open>xgbResult\<close>, the two rules \<open>execute\<close> and
  \<open>execute_failed\<close>), a failed request being the empty polyline, \<open>NoAnswer\<close> or
  \<open>None\<close>.  The local \<open>mlPredictedIndex\<close> of the plan page, which is read and
  never used.  The rounding of
  IEEE doubles: numbers are reals, so a comparison of two distances that
  differ by less than the rounding error of the code can come out
  differently.  Text of the form that is not a number is the one value \<open>Bad\<close>,
  and a request is submitted only when every cell converts; the number of
  rows is a natural number.
\<close>

section \<open>From the request to the traversal\<close>

text \<open>
  C5: The traversal shown for a plan of the optimizer delivers the request:
  when the optimizer returns a plan for a request and the page shows a
  traversal for that plan, the coordinates of the delivery stops of the
  traversal (the truck stops and the drone delivery) are the positions of the
  deliveries of the request, each as often as it was entered.
\<close>

theorem plan_covers_request:
  assumes "optimizeTrip drones now dels = Some t"
    and "renderPlan (Some t) (fetchRoute (optimizedNodeOrder (Some t)) routed) xgb =
           Inr (Planned tr m ts)"
  shows "mset (map coords (filter is_delivery tr)) = mset (map (\<lambda>d. Some (pos d)) dels)"
proof -
  from optimizeTrip_plain(3) [OF assms(1)] have "pageDroneDelivery t = droneDelivery t"
    by simp
  with renderPlan_deliveries [OF assms(2)]
  have "mset (map coords (filter is_delivery tr)) =
      image_mset (\<lambda>d. Some (pos d)) (mset (droneDelivery t # truckDeliveries t))"
    by simp
  then show ?thesis
    unfolding optimizeTrip_mset [OF assms(1)] by simp
qed

theorem plan_covers_request_witness:
  "\<exists>tr m ts. renderPlan (Some exPlan) (fetchRoute (optimizedNodeOrder (Some exPlan)) []) None =
       Inr (Planned tr m ts) \<and>
     mset (map coords (filter is_delivery tr)) = mset (map (\<lambda>d. Some (pos d)) exAB)"
proof -
  have "truckDeliveries exPlan \<noteq> []" by simp
  from renderPlan_truck [OF this, of "fetchRoute (optimizedNodeOrder (Some exPlan)) []" None]
  obtain tr m ts
    where r: "renderPlan (Some exPlan) (fetchRoute (optimizedNodeOrder (Some exPlan)) []) None =
      Inr (Planned tr m ts)"
    by blast
  from plan_covers_request [OF optimizeTrip_exPlan r] r show ?thesis by blast
qed

section \<open>The plans of the store\<close>

text \<open>
  C18: Every plan that a reachable session holds, as the latest plan or as the
  plan under edit, is a plan of the optimizer for the fleet: its drone
  delivery and its truck deliveries are the deliveries it records, each once;
  its drone is a drone of the fleet that was available, can carry the drone
  delivery and has a battery of at least 20.
\<close>

theorem stored_plan_invariants:
  assumes "reachable drones s" and "latestTrip s = Some t \<or> editTrip s = Some t"
  shows "mset (droneDelivery t # truckDeliveries t) = mset (deliveries t) \<and>
         drone t \<in> set drones \<and> available (drone t) \<and>
         weight (droneDelivery t) \<le> payload (drone t) \<and> 20 \<le> currentBattery (drone t)"
proof -
  from reachable_session_inv [OF assms(1)] assms(2) have "planned drones t"
    by (auto simp: session_inv_def)
  then obtain now dels where o: "optimizeTrip drones now dels = Some t"
    by (auto simp: planned_def)
  from optimizeTrip_parts [OF o] obtain i
    where i: "droneDelivery t = dels ! i" "deliveries t = dels"
      "pickDrone drones (dels ! i) = Some (drone t)"
    by blast
  from pickDrone_SomeD [OF i(3)] optimizeTrip_mset [OF o] i(1,2) show ?thesis
    by (simp add: eligible_def)
qed

theorem stored_plan_invariants_witness:
  "latestTrip (submit [exDrone] (\<lambda>_. ''now'') exAB
      (initial\<lparr>dronesList := [exDrone], num := length exAB, del := map toRow exAB\<rparr>)) =
     Some exPlan \<and>
   mset (droneDelivery exPlan # truckDeliveries exPlan) = mset (deliveries exPlan) \<and>
   drone exPlan \<in> set [exDrone] \<and> available (drone exPlan) \<and>
   weight (droneDelivery exPlan) \<le> payload (drone exPlan) \<and> 20 \<le> currentBattery (drone exPlan)"
proof -
  let ?s = "submit [exDrone] (\<lambda>_. ''now'') exAB
      (initial\<lparr>dronesList := [exDrone], num := length exAB, del := map toRow exAB\<rparr>)"
  have l: "latestTrip ?s = Some exPlan"
    by (simp add: submit_Some [OF optimizeTrip_exPlan])
  then have "latestTrip ?s = Some exPlan \<or> editTrip ?s = Some exPlan" ..
  from stored_plan_invariants [OF reachable_submit this] l show ?thesis by blast
qed

end
